theory Spec2Isabelle
  imports
    Complex_Main
    "HOL-Library.Log_Nat"
    "HOL-Library.Sublist"
    "HOL-Library.Char_ord"
    "HOL-Library.List_Lexorder"
    "HOL-Library.Multiset"
begin

chapter \<open>The panel pipeline of panelreader.koplugin\<close>

text \<open>
  A shallow embedding of the ingestion, classification, normalisation and aggregation code
  of \<^verbatim>\<open>Magi/process_manga.py\<close> and \<^verbatim>\<open>process_manga.py\<close>. Python exceptions are values of
  \<open>exn\<close>, a function that may raise returns \<open>exn + 'a\<close>, directories are explicit values, and
  every external program (\<^verbatim>\<open>file\<close>, \<^verbatim>\<open>tar\<close>, \<^verbatim>\<open>unrar\<close>, \<^verbatim>\<open>7z\<close>, \<^verbatim>\<open>magi.py\<close>) is a parameter
  that gives the outcome of the call.
\<close>

section \<open>Python values\<close>

datatype exn =
    ZeroDivisionError | TypeError | AttributeError | JSONDecodeError
  | TimeoutExpired | CalledProcessError | FileNotFoundError | OSError

subsection \<open>Floats\<close>

text \<open>
  A Python float is an IEEE 754 binary64 number, here the rational it denotes. \<open>fl\<close> rounds
  a rational to the nearest number with a 53-bit significand, ties to even, which is what
  \<^verbatim>\<open>/\<close>, \<^verbatim>\<open>*\<close> and \<^verbatim>\<open>-\<close> do to the exact result. Overflow, subnormal numbers, infinities and NaN
  are left out: pixel coordinates and image sizes stay far inside the normal range.
\<close>

definition round_half_even :: "rat \<Rightarrow> int" where
  "round_half_even v =
     (let f = \<lfloor>v\<rfloor>; d = v - of_int f
      in if d < 1 / 2 then f else if 1 / 2 < d then f + 1 else if even f then f else f + 1)"

definition pow2 :: "int \<Rightarrow> rat" where
  "pow2 e = (if 0 \<le> e then 2 ^ nat e else 1 / 2 ^ nat (- e))"

text \<open>\<open>ilog2 q\<close> is the binary exponent of a positive \<open>q\<close>: \<open>2 ^ ilog2 q \<le> q < 2 ^ (ilog2 q + 1)\<close>.\<close>

definition ilog2 :: "rat \<Rightarrow> int" where
  "ilog2 q = (if 1 \<le> q then bitlen \<lfloor>q\<rfloor> - 1 else - bitlen (\<lceil>1 / q\<rceil> - 1))"

definition fl :: "rat \<Rightarrow> rat" where
  "fl q =
     (if q = 0 then 0
      else let e = ilog2 \<bar>q\<bar> - 52
           in of_int (round_half_even (q / pow2 e)) * pow2 e)"

text \<open>A Python number is an \<^verbatim>\<open>int\<close> or a \<^verbatim>\<open>float\<close>; mixed arithmetic converts the int first.\<close>

datatype pynum = PInt int | PFloat rat

fun to_float :: "pynum \<Rightarrow> rat" where
  "to_float (PInt i) = fl (of_int i)"
| "to_float (PFloat r) = r"

fun num_val :: "pynum \<Rightarrow> rat" where
  "num_val (PInt i) = of_int i"
| "num_val (PFloat r) = r"

fun py_sub :: "pynum \<Rightarrow> pynum \<Rightarrow> pynum" where
  "py_sub (PInt a) (PInt b) = PInt (a - b)"
| "py_sub a b = PFloat (fl (to_float a - to_float b))"

text \<open>
  True division. Two ints are divided exactly and the quotient is rounded once; a float
  operand makes the other one a float first. A zero divisor raises.
\<close>

fun py_truediv :: "pynum \<Rightarrow> pynum \<Rightarrow> exn + rat" where
  "py_truediv (PInt a) (PInt b) =
     (if b = 0 then Inl ZeroDivisionError else Inr (fl (of_int a / of_int b)))"
| "py_truediv a b =
     (if to_float b = 0 then Inl ZeroDivisionError else Inr (fl (to_float a / to_float b)))"

text \<open>\<^verbatim>\<open>int(v)\<close> truncates towards zero.\<close>

definition py_int :: "rat \<Rightarrow> int" where
  "py_int v = (if 0 \<le> v then \<lfloor>v\<rfloor> else \<lceil>v\<rceil>)"

text \<open>
  \<^verbatim>\<open>round(v, 3)\<close> rounds the exact value of the float to the nearest multiple of \<open>1/1000\<close>,
  ties to even, and returns the float nearest to that decimal; \<^verbatim>\<open>json.dump\<close> writes the
  shortest decimal that denotes this float. \<open>py_round3\<close> is the number that ends up in the
  JSON text. For \<open>\<bar>v\<bar> < 10 ^ 12\<close> the decimal has at most 15 significant digits, so the text
  that is written is the decimal itself; larger values, which no quotient of pixel
  coordinates by an image size reaches, are outside the model.
\<close>

definition py_round3 :: "rat \<Rightarrow> rat" where
  "py_round3 v = of_int (round_half_even (v * 1000)) / 1000"

definition ebind :: "exn + 'a \<Rightarrow> ('a \<Rightarrow> exn + 'b) \<Rightarrow> exn + 'b" where
  "ebind m f = (case m of Inl e \<Rightarrow> Inl e | Inr v \<Rightarrow> f v)"

subsection \<open>Strings and path names\<close>

definition lower_char :: "char \<Rightarrow> char" where
  "lower_char c =
     (let n = (of_char c :: nat) in if 65 \<le> n \<and> n \<le> 90 then char_of (n + 32) else c)"

definition upper_char :: "char \<Rightarrow> char" where
  "upper_char c =
     (let n = (of_char c :: nat) in if 97 \<le> n \<and> n \<le> 122 then char_of (n - 32) else c)"

text \<open>\<^verbatim>\<open>str.lower\<close> and \<^verbatim>\<open>str.upper\<close> on ASCII names.\<close>

definition lower :: "string \<Rightarrow> string" where
  "lower s = map lower_char s"

definition upper :: "string \<Rightarrow> string" where
  "upper s = map upper_char s"

text \<open>\<^verbatim>\<open>s.rfind(c)\<close>: the index of the last \<open>c\<close>, or \<open>-1\<close>.\<close>

definition rfind :: "char \<Rightarrow> string \<Rightarrow> int" where
  "rfind c s =
     (let r = takeWhile (\<lambda>d. d \<noteq> c) (rev s)
      in if length r = length s then - 1 else int (length s) - int (length r) - 1)"

text \<open>\<^verbatim>\<open>PurePath.suffix\<close> and \<^verbatim>\<open>PurePath.stem\<close> of a file name.\<close>

definition path_suffix :: "string \<Rightarrow> string" where
  "path_suffix name =
     (let i = rfind CHR ''.'' name
      in if 0 < i \<and> i < int (length name) - 1 then drop (nat i) name else [])"

definition path_stem :: "string \<Rightarrow> string" where
  "path_stem name =
     (let i = rfind CHR ''.'' name
      in if 0 < i \<and> i < int (length name) - 1 then take (nat i) name else name)"

text \<open>\<^verbatim>\<open>s.replace(old, new)\<close> for a non-empty \<open>old\<close>, left to right without overlap.\<close>

function py_replace :: "string \<Rightarrow> string \<Rightarrow> string \<Rightarrow> string" where
  "py_replace old new s =
     (if s = [] then []
      else if old \<noteq> [] \<and> prefix old s then new @ py_replace old new (drop (length old) s)
      else hd s # py_replace old new (tl s))"
  by pat_completeness auto
termination
  by (relation "measure (\<lambda>(old, new, s). length s)") (auto simp: prefix_def)

text \<open>\<^verbatim>\<open>s.strip()\<close> for ASCII white space.\<close>

definition is_space :: "char \<Rightarrow> bool" where
  "is_space c = (let n = (of_char c :: nat) in n = 32 \<or> (9 \<le> n \<and> n \<le> 13))"

definition strip :: "string \<Rightarrow> string" where
  "strip s = rev (dropWhile is_space (rev (dropWhile is_space s)))"

section \<open>Coordinate normalisation\<close>

record panel =
  panel_x :: rat
  panel_y :: rat
  panel_w :: rat
  panel_h :: rat

text \<open>
  \<^verbatim>\<open>combine_jsons_to_final_json\<close>, lines 379 to 396 of \<^verbatim>\<open>Magi/process_manga.py\<close>: the size
  the coordinates are divided by, computed from the size read from the image file.
\<close>

definition magi_max_size :: int where
  "magi_max_size = 800"

definition magi_coord_size :: "int \<Rightarrow> int \<Rightarrow> int \<times> int" where
  "magi_coord_size actual_img_width actual_img_height =
     (if magi_max_size < max actual_img_width actual_img_height
      then let scale_factor =
                 fl (of_int magi_max_size / of_int (max actual_img_width actual_img_height));
               magi_img_width = py_int (fl (of_int actual_img_width * scale_factor));
               magi_img_height = py_int (fl (of_int actual_img_height * scale_factor))
           in (magi_img_width, magi_img_height)
      else (actual_img_width, actual_img_height))"

text \<open>
  Lines 401 to 416: one box \<^verbatim>\<open>[x1, y1, x2, y2]\<close> of numbers becomes a panel. Nothing is
  clamped here.
\<close>

definition magi_normalize :: "pynum \<Rightarrow> pynum \<Rightarrow> pynum \<Rightarrow> pynum \<Rightarrow> int \<Rightarrow> int \<Rightarrow> exn + panel" where
  "magi_normalize x1 y1 x2 y2 coord_img_width coord_img_height =
     (let w = py_sub x2 x1; h = py_sub y2 y1
      in ebind (py_truediv x1 (PInt coord_img_width)) (\<lambda>normalized_x.
         ebind (py_truediv y1 (PInt coord_img_height)) (\<lambda>normalized_y.
         ebind (py_truediv w (PInt coord_img_width)) (\<lambda>normalized_w.
         ebind (py_truediv h (PInt coord_img_height)) (\<lambda>normalized_h.
           Inr \<lparr>panel_x = py_round3 normalized_x, panel_y = py_round3 normalized_y,
                panel_w = py_round3 normalized_w, panel_h = py_round3 normalized_h\<rparr>)))))"

text \<open>
  \<^verbatim>\<open>add_normalized_panel_to_page\<close> of both scripts: the box is \<^verbatim>\<open>x, y, w, h\<close> as floats, the
  image size is a pair of ints. The new panel list is returned with the function's result 1.
\<close>

definition clamp01 :: "rat \<Rightarrow> rat" where
  "clamp01 v = max 0 (min 1 v)"

definition add_normalized_panel_to_page ::
  "panel list \<Rightarrow> rat \<Rightarrow> rat \<Rightarrow> rat \<Rightarrow> rat \<Rightarrow> int \<Rightarrow> int \<Rightarrow> exn + (panel list \<times> int)" where
  "add_normalized_panel_to_page page_panels x y w h img_w img_h =
     ebind (py_truediv (PFloat x) (PInt img_w)) (\<lambda>normalized_x.
     ebind (py_truediv (PFloat y) (PInt img_h)) (\<lambda>normalized_y.
     ebind (py_truediv (PFloat w) (PInt img_w)) (\<lambda>normalized_w.
     ebind (py_truediv (PFloat h) (PInt img_h)) (\<lambda>normalized_h.
       Inr (page_panels @
              [\<lparr>panel_x = py_round3 (clamp01 normalized_x),
                panel_y = py_round3 (clamp01 normalized_y),
                panel_w = py_round3 (clamp01 normalized_w),
                panel_h = py_round3 (clamp01 normalized_h)\<rparr>], 1)))))"

text \<open>
  The invariant the specification states for a stored panel, and what it means that a
  coordinate has three decimals.
\<close>

definition in_unit_range :: "panel \<Rightarrow> bool" where
  "in_unit_range p =
     (0 \<le> panel_x p \<and> panel_x p \<le> 1 \<and> 0 \<le> panel_y p \<and> panel_y p \<le> 1 \<and>
      0 \<le> panel_w p \<and> panel_w p \<le> 1 \<and> 0 \<le> panel_h p \<and> panel_h p \<le> 1)"

definition within_tolerance :: "panel \<Rightarrow> bool" where
  "within_tolerance p =
     (panel_x p + panel_w p \<le> 1001 / 1000 \<and> panel_y p + panel_h p \<le> 1001 / 1000)"

definition three_decimals :: "rat \<Rightarrow> bool" where
  "three_decimals v = (of_int \<lfloor>v * 1000\<rfloor> = v * 1000)"

definition rounded3 :: "panel \<Rightarrow> bool" where
  "rounded3 p =
     (three_decimals (panel_x p) \<and> three_decimals (panel_y p) \<and>
      three_decimals (panel_w p) \<and> three_decimals (panel_h p))"

section \<open>Files and directories\<close>

text \<open>
  The JSON files that the detectors write for one image, as \<^verbatim>\<open>json.load\<close> returns them.
  \<^verbatim>\<open>magi.py\<close> writes one object with the key \<^verbatim>\<open>panels\<close>, a list of boxes of four ints;
  Kumiko writes a list of objects with \<^verbatim>\<open>filename\<close>, \<^verbatim>\<open>size\<close> and \<^verbatim>\<open>panels\<close>. The aggregators
  tell three shapes apart: a list of page objects, an object with the key \<^verbatim>\<open>pages\<close>, and a
  single page object. A panel is a list of numbers or an object with \<^verbatim>\<open>x, y, w, h\<close>. Values
  of other JSON types in these positions are outside the model.
\<close>

datatype raw_panel = Box "pynum list" | Rect pynum pynum pynum pynum

record page_data =
  filename :: "string option"
  page_no :: "int option"
  image_size :: "(pynum \<times> pynum) option"
  raw_panels :: "raw_panel list option"

datatype json_data = Page_list "page_data list" | Pages_dict "page_data list" | Page_dict page_data

text \<open>
  What a file of the input tree or of a temporary directory holds: an image that PIL opens,
  with its size; a JSON text; anything else.
\<close>

datatype file_data = Image_file int int | Json_file json_data | Unreadable_file

datatype node = File string file_data | Dir string "node list"

fun node_name :: "node \<Rightarrow> string" where
  "node_name (File n d) = n"
| "node_name (Dir n items) = n"

fun is_dir :: "node \<Rightarrow> bool" where
  "is_dir (File n d) = False"
| "is_dir (Dir n items) = True"

fun iterdir :: "node \<Rightarrow> node list" where
  "iterdir (File n d) = []"
| "iterdir (Dir n items) = items"

definition image_extensions :: "string list" where
  "image_extensions = [''.jpg'', ''.jpeg'', ''.png'', ''.bmp'', ''.gif'', ''.webp'']"

text \<open>
  A name matches the pattern \<^verbatim>\<open>*ext\<close> when it ends with \<open>ext\<close>. pathlib compares case
  sensitively on POSIX and case insensitively on Windows; \<open>cs\<close> is that flavour.
\<close>

definition name_matches :: "bool \<Rightarrow> string \<Rightarrow> string \<Rightarrow> bool" where
  "name_matches cs ext name = (if cs then suffix ext name else suffix (lower ext) (lower name))"

text \<open>\<^verbatim>\<open>item.glob(f"*{ext}")\<close>: the entries of a directory with a matching name.\<close>

definition glob_ext :: "bool \<Rightarrow> node \<Rightarrow> string \<Rightarrow> node list" where
  "glob_ext cs item ext = filter (\<lambda>n. name_matches cs ext (node_name n)) (iterdir item)"

text \<open>
  \<^verbatim>\<open>folder_path.rglob(f"*{ext}")\<close> works on all entries below a directory. \<open>paths_below\<close>
  lists them, each as the list of its path components.
\<close>

fun paths_below :: "node \<Rightarrow> string list list" where
  "paths_below (File n d) = []"
| "paths_below (Dir n items) =
     concat (map (\<lambda>i. [node_name i] # map ((#) (node_name i)) (paths_below i)) items)"

section \<open>Archive type detection and extraction\<close>

text \<open>
  \<^verbatim>\<open>detect_file_type\<close>. The argument is the outcome of running \<^verbatim>\<open>file\<close> with \<^verbatim>\<open>check=True\<close>:
  its standard output, or the exception raised.
\<close>

definition detect_file_type :: "exn + string \<Rightarrow> exn + string option" where
  "detect_file_type file_result =
     (case file_result of
        Inr stdout \<Rightarrow>
          (let output = strip stdout
           in if sublist ''Zip archive'' output then Inr (Some ''zip'')
              else if sublist ''RAR archive'' output then Inr (Some ''rar'')
              else if sublist ''7-zip'' output then Inr (Some ''7z'')
              else if sublist ''tar'' (lower output) then Inr (Some ''tar'')
              else if sublist ''gzip compressed'' output then Inr (Some ''gzip'')
              else Inr None)
      | Inl CalledProcessError \<Rightarrow> Inr None
      | Inl FileNotFoundError \<Rightarrow> Inr None
      | Inl e \<Rightarrow> Inl e)"

text \<open>
  The external steps of \<^verbatim>\<open>extract_archive\<close>, and what the function prints on each path.
  An outcome \<open>None\<close> is a normal return, \<open>Some e\<close> the exception raised by the step.
\<close>

datatype command = ZipFile_extractall | Tar_xzf | Gunzip_c | Unrar_x | SevenZip_x | Tar_xf

datatype message =
    Unsupported_format | Unsupported_archive_format
  | Extracted command | Failed_to_extract command
  | Command_not_found_install string

record extraction =
  invoked :: "command list"
  printed :: "message list"
  returned :: "exn + bool"

definition attempt ::
  "(command \<Rightarrow> exn option) \<Rightarrow> command \<Rightarrow> (exn \<Rightarrow> extraction option) \<Rightarrow> extraction" where
  "attempt run c handler =
     (case run c of
        None \<Rightarrow> \<lparr>invoked = [c], printed = [Extracted c], returned = Inr True\<rparr>
      | Some e \<Rightarrow>
          (case handler e of
             Some r \<Rightarrow> r\<lparr>invoked := c # invoked r\<rparr>
           | None \<Rightarrow> \<lparr>invoked = [c], printed = [], returned = Inl e\<rparr>))"

text \<open>
  \<open>attempt\<close> is one \<^verbatim>\<open>try\<close> statement around one external step: the handler answers for
  the exceptions that an \<^verbatim>\<open>except\<close> clause catches, every other exception leaves the
  function.
\<close>

definition failed :: "command \<Rightarrow> extraction" where
  "failed c = \<lparr>invoked = [], printed = [Failed_to_extract c], returned = Inr False\<rparr>"

definition not_found :: "string \<Rightarrow> extraction" where
  "not_found package =
     \<lparr>invoked = [], printed = [Command_not_found_install package], returned = Inr False\<rparr>"

definition extract_archive ::
  "exn + string \<Rightarrow> (command \<Rightarrow> exn option) \<Rightarrow> string \<Rightarrow> extraction" where
  "extract_archive file_result run archive_name =
     (let suffix = lower (path_suffix archive_name)
      in case detect_file_type file_result of
           Inl e \<Rightarrow> \<lparr>invoked = [], printed = [], returned = Inl e\<rparr>
         | Inr detected_type \<Rightarrow>
             (let archive_type =
                    (if detected_type \<noteq> None then detected_type
                     else if suffix \<in> set [''.cbz'', ''.zip''] then Some ''zip''
                     else if suffix \<in> set [''.rar''] then Some ''rar''
                     else if suffix \<in> set [''.gz'', ''.gzip''] then Some ''gzip''
                     else None)
              in if archive_type = None
                 then \<lparr>invoked = [], printed = [Unsupported_format], returned = Inr False\<rparr>
                 else if archive_type = Some ''zip''
                 then attempt run ZipFile_extractall (\<lambda>e. Some (failed ZipFile_extractall))
                 else if archive_type = Some ''gzip''
                 then attempt run Tar_xzf
                        (\<lambda>e. if e = CalledProcessError
                             then Some (attempt run Gunzip_c (\<lambda>e. Some (failed Gunzip_c)))
                             else None)
                 else if suffix \<in> set [''.rar'']
                 then attempt run Unrar_x
                        (\<lambda>e. if e = CalledProcessError then Some (failed Unrar_x)
                             else if e = FileNotFoundError then Some (not_found ''unrar'')
                             else None)
                 else if suffix \<in> set [''.7z'']
                 then attempt run SevenZip_x
                        (\<lambda>e. if e = CalledProcessError then Some (failed SevenZip_x)
                             else if e = FileNotFoundError then Some (not_found ''p7zip'')
                             else None)
                 else if suffix \<in> set [''.tar'', ''.tar.gz'', ''.tgz'', ''.tar.bz2'', ''.tbz2'',
                                         ''.tar.xz'', ''.txz'']
                 then attempt run Tar_xf
                        (\<lambda>e. if e = CalledProcessError then Some (failed Tar_xf) else None)
                 else \<lparr>invoked = [], printed = [Unsupported_archive_format],
                        returned = Inr False\<rparr>))"

section \<open>Structure classifier\<close>

text \<open>The test of the inner loop of \<^verbatim>\<open>is_chapter_based_archive\<close>: some pattern has a match.\<close>

definition has_images :: "bool \<Rightarrow> node \<Rightarrow> bool" where
  "has_images cs item =
     list_ex (\<lambda>ext. glob_ext cs item ext @ glob_ext cs item (upper ext) \<noteq> []) image_extensions"

definition is_chapter_based_archive :: "bool \<Rightarrow> node \<Rightarrow> bool" where
  "is_chapter_based_archive cs folder_path =
     (if \<not> is_dir folder_path then False
      else let nested_dirs = filter is_dir (iterdir folder_path);
               folder_path = (if length nested_dirs = 1 then hd nested_dirs else folder_path);
               chapter_dirs =
                 length (filter (\<lambda>item. is_dir item \<and> has_images cs item) (iterdir folder_path));
               image_files_in_root =
                 length (filter (\<lambda>item. \<not> is_dir item \<and>
                            lower (path_suffix (node_name item)) \<in> set image_extensions)
                          (iterdir folder_path))
           in 2 \<le> chapter_dirs \<or> (1 \<le> chapter_dirs \<and> image_files_in_root \<le> 2))"

text \<open>
  The classifier in the words of the specification: the single subdirectory is entered only
  when it contains subdirectories holding images.
\<close>

definition classify_as_specified :: "bool \<Rightarrow> node \<Rightarrow> bool" where
  "classify_as_specified cs folder =
     (let subdirs = filter is_dir (iterdir folder);
          folder' = (if length subdirs = 1 \<and>
                        list_ex (\<lambda>d. is_dir d \<and> has_images cs d) (iterdir (hd subdirs))
                     then hd subdirs else folder);
          chapterDirs = length (filter (\<lambda>d. is_dir d \<and> has_images cs d) (iterdir folder'));
          rootImages =
            length (filter (\<lambda>f. \<not> is_dir f \<and>
                       lower (path_suffix (node_name f)) \<in> set image_extensions)
                     (iterdir folder'))
      in 2 \<le> chapterDirs \<or> (1 \<le> chapterDirs \<and> rootImages \<le> 2))"

section \<open>Image enumeration\<close>

text \<open>
  Lines 569 to 579 of \<^verbatim>\<open>process_with_magi\<close> (and of \<^verbatim>\<open>process_with_kumiko\<close>): two recursive
  globs per extension, appended, then sorted. Paths are compared component by component, as
  \<^verbatim>\<open>PurePath.__lt__\<close> does (after lower-casing in the case-insensitive flavour). \<open>rglob\<close> takes the listing of all entries below the folder.
\<close>

definition rglob :: "bool \<Rightarrow> string list list \<Rightarrow> string \<Rightarrow> string list list" where
  "rglob cs listing ext = filter (\<lambda>p. name_matches cs ext (last p)) listing"

definition path_key :: "bool \<Rightarrow> string list \<Rightarrow> string list" where
  "path_key cs p = (if cs then p else map lower p)"

definition collect_image_files :: "bool \<Rightarrow> string list list \<Rightarrow> string list list" where
  "collect_image_files cs listing =
     sort_key (path_key cs)
       (concat (map (\<lambda>ext. rglob cs listing ext @ rglob cs listing (upper ext))
                  image_extensions))"

definition enumerate_images :: "bool \<Rightarrow> node \<Rightarrow> string list list" where
  "enumerate_images cs folder_path = collect_image_files cs (paths_below folder_path)"

text \<open>The twelve literal patterns, in the order in which they are tried.\<close>

definition image_patterns :: "string list" where
  "image_patterns = concat (map (\<lambda>ext. [ext, upper ext]) image_extensions)"

section \<open>Documents and the output directory\<close>

record page_record =
  page :: int
  image_name :: string
  panels :: "panel list"

record chapter_document =
  reading_direction :: string
  total_pages :: int
  pages :: "page_record list"

text \<open>A page of the Kumiko aggregator keeps the page object of the detector.\<close>

record kumiko_record =
  k_page :: int
  k_image :: "string option"
  k_panels :: "panel list"

record kumiko_document =
  k_reading_direction :: string
  k_total_pages :: int
  k_pages :: "kumiko_record list"

record chapter_entry =
  entry_name :: string
  entry_json_file :: string
  entry_total_pages :: int

record archive_index =
  archive_name :: string
  total_chapters :: int
  chapters :: "chapter_entry list"
  index_reading_direction :: string

text \<open>
  A file of the output directory is a complete JSON document, or what a failed write has
  left behind: a proper prefix of a JSON text, which \<^verbatim>\<open>json.load\<close> rejects. An
  \<open>out_directory\<close> holds the JSON files that lie directly in the output directory. The
  temporary directories that the scripts create inside the output directory are kept apart
  from it, as values of type \<open>directory\<close>.
\<close>

datatype out_file =
    Chapter_file chapter_document | Kumiko_file kumiko_document
  | Index_file archive_index | Truncated_file

type_synonym directory = "string \<rightharpoonup> file_data"

type_synonym out_directory = "string \<rightharpoonup> out_file"

text \<open>
  The write at the end of the aggregators and of the index builder:
  \<^verbatim>\<open>with open(path, 'w') as f: json.dump(data, f)\<close> inside \<^verbatim>\<open>try\<close>, \<^verbatim>\<open>return True\<close> after it,
  \<^verbatim>\<open>return False\<close> in the handler. \<^verbatim>\<open>open\<close> with mode \<^verbatim>\<open>'w'\<close> creates or empties the file
  before anything is written, and \<^verbatim>\<open>json.dump\<close> writes the text piece by piece. The fault
  says where the operating system refuses: nowhere, at \<^verbatim>\<open>open\<close>, or at a later write.
\<close>

datatype write_fault = No_fault | Open_fails | Write_fails

definition write_json ::
  "write_fault \<Rightarrow> out_directory \<Rightarrow> string \<Rightarrow> out_file \<Rightarrow> bool \<times> out_directory" where
  "write_json fault out path document =
     (case fault of
        No_fault \<Rightarrow> (True, out(path \<mapsto> document))
      | Open_fails \<Rightarrow> (False, out)
      | Write_fails \<Rightarrow> (False, out(path \<mapsto> Truncated_file)))"

section \<open>Panel detection adapter\<close>

text \<open>
  \<^verbatim>\<open>process_image_with_magi\<close>. The first argument is the outcome of
  \<^verbatim>\<open>subprocess.run(cmd, timeout=120)\<close>: the exception it raises, or the return code together
  with the content of \<^verbatim>\<open>panels.json\<close> if that file exists afterwards. The result file is
  moved into the temporary directory under the name \<^verbatim>\<open>{stem}_panels.json\<close>; \<^verbatim>\<open>shutil.move\<close>
  and the two \<^verbatim>\<open>os.chdir\<close> calls are taken to succeed.
\<close>

type_synonym run_result = "exn + (int \<times> file_data option)"

definition process_image_with_magi ::
  "run_result \<Rightarrow> string list \<Rightarrow> directory \<Rightarrow> exn + ((bool \<times> string option) \<times> directory)" where
  "process_image_with_magi result image_path output_dir =
     (let image_name = path_stem (last image_path);
          output_json = image_name @ ''_panels.json''
      in case result of
           Inr (returncode, panels_file) \<Rightarrow>
             if returncode = 0
             then (case panels_file of
                     Some content \<Rightarrow>
                       Inr ((True, Some output_json), output_dir(output_json \<mapsto> content))
                   | None \<Rightarrow> Inr ((False, None), output_dir))
             else Inr ((False, None), output_dir)
         | Inl e \<Rightarrow>
             if e = TimeoutExpired then Inr ((False, None), output_dir)
             else Inr ((False, None), output_dir))"

text \<open>
  The loop over the images of a unit (lines 596 to 606, and 747 to 757): a result file is
  recorded when the call succeeded and the file exists.
\<close>

fun magi_image_loop ::
  "(string list \<Rightarrow> run_result) \<Rightarrow> string list list \<Rightarrow> directory \<Rightarrow> string list \<Rightarrow>
     exn + (string list \<times> directory)" where
  "magi_image_loop run [] temp_json_dir json_files = Inr (json_files, temp_json_dir)"
| "magi_image_loop run (image_file # image_files) temp_json_dir json_files =
     (case process_image_with_magi (run image_file) image_file temp_json_dir of
        Inl e \<Rightarrow> Inl e
      | Inr ((success, json_file), temp_json_dir') \<Rightarrow>
          (case json_file of
             Some j \<Rightarrow>
               if success \<and> temp_json_dir' j \<noteq> None
               then magi_image_loop run image_files temp_json_dir' (json_files @ [j])
               else magi_image_loop run image_files temp_json_dir' json_files
           | None \<Rightarrow> magi_image_loop run image_files temp_json_dir' json_files))"

section \<open>Aggregation of a unit, MAGI\<close>

datatype location = In_temp | In_folder

definition folder_lookup :: "node \<Rightarrow> string \<Rightarrow> node option" where
  "folder_lookup folder_path n = find (\<lambda>i. node_name i = n) (iterdir folder_path)"

fun path_exists :: "directory \<Rightarrow> node \<Rightarrow> location \<times> string \<Rightarrow> bool" where
  "path_exists temp_json_dir folder_path (In_temp, n) = (temp_json_dir n \<noteq> None)"
| "path_exists temp_json_dir folder_path (In_folder, n) = (folder_lookup folder_path n \<noteq> None)"

text \<open>\<^verbatim>\<open>Image.open(img_path).size\<close>, or \<open>None\<close> when opening raises.\<close>

fun open_image :: "directory \<Rightarrow> node \<Rightarrow> location \<times> string \<Rightarrow> (int \<times> int) option" where
  "open_image temp_json_dir folder_path (In_temp, n) =
     (case temp_json_dir n of Some (Image_file iw ih) \<Rightarrow> Some (iw, ih) | _ \<Rightarrow> None)"
| "open_image temp_json_dir folder_path (In_folder, n) =
     (case folder_lookup folder_path n of
        Some (File m (Image_file iw ih)) \<Rightarrow> Some (iw, ih)
      | _ \<Rightarrow> None)"

definition possible_image_paths :: "string \<Rightarrow> string \<Rightarrow> (location \<times> string) list" where
  "possible_image_paths base ext =
     [(In_temp, base @ ext), (In_folder, base @ ext),
      (In_temp, base @ upper ext), (In_folder, base @ upper ext)]"

text \<open>
  The two nested loops over \<^verbatim>\<open>['.jpg', '.jpeg', '.png']\<close> and the four possible paths leave
  at the first path that does what is asked; \<open>candidate_paths\<close> is the order of the visits.
\<close>

definition candidate_paths :: "string \<Rightarrow> (location \<times> string) list" where
  "candidate_paths base = concat (map (possible_image_paths base) [''.jpg'', ''.jpeg'', ''.png''])"

definition image_base :: "string \<Rightarrow> string" where
  "image_base json_file = py_replace ''_panels'' [] (path_stem json_file)"

text \<open>Lines 350 to 377: the size of the first candidate that exists and opens, else 800 by 1200.\<close>

definition actual_img_size :: "directory \<Rightarrow> node \<Rightarrow> string \<Rightarrow> int \<times> int" where
  "actual_img_size temp_json_dir folder_path json_file =
     (case List.map_filter
             (\<lambda>p. if path_exists temp_json_dir folder_path p
                  then open_image temp_json_dir folder_path p else None)
             (candidate_paths (image_base json_file)) of
        [] \<Rightarrow> (800, 1200)
      | sz # rest \<Rightarrow> sz)"

text \<open>Lines 422 to 440 and 455 to 473: the name of the first candidate that exists.\<close>

definition actual_image_name :: "directory \<Rightarrow> node \<Rightarrow> string \<Rightarrow> string" where
  "actual_image_name temp_json_dir folder_path json_file =
     (case find (path_exists temp_json_dir folder_path) (candidate_paths (image_base json_file)) of
        Some (l, n) \<Rightarrow> n
      | None \<Rightarrow> image_base json_file @ ''.jpg'')"

definition load_json :: "directory \<Rightarrow> string \<Rightarrow> exn + json_data" where
  "load_json dir n =
     (case dir n of
        Some (Json_file data) \<Rightarrow> Inr data
      | Some other \<Rightarrow> Inl JSONDecodeError
      | None \<Rightarrow> Inl FileNotFoundError)"

text \<open>Lines 398 to 418: a box of exactly four numbers gives a panel, anything else is passed over.\<close>

fun magi_panel :: "int \<Rightarrow> int \<Rightarrow> raw_panel \<Rightarrow> exn + panel list" where
  "magi_panel coord_img_width coord_img_height (Box [x1, y1, x2, y2]) =
     ebind (magi_normalize x1 y1 x2 y2 coord_img_width coord_img_height) (\<lambda>p. Inr [p])"
| "magi_panel coord_img_width coord_img_height panel_data = Inr []"

fun magi_panels :: "int \<Rightarrow> int \<Rightarrow> raw_panel list \<Rightarrow> exn + panel list" where
  "magi_panels coord_img_width coord_img_height [] = Inr []"
| "magi_panels coord_img_width coord_img_height (panel_data # rest) =
     ebind (magi_panel coord_img_width coord_img_height panel_data) (\<lambda>ps.
     ebind (magi_panels coord_img_width coord_img_height rest) (\<lambda>qs. Inr (ps @ qs)))"

text \<open>The body of the \<^verbatim>\<open>try\<close> of one page up to line 418: the panels of the page.\<close>

definition magi_page_panels :: "directory \<Rightarrow> node \<Rightarrow> string \<Rightarrow> exn + panel list" where
  "magi_page_panels temp_json_dir folder_path json_file =
     ebind (load_json temp_json_dir json_file) (\<lambda>data.
       case data of
         Page_dict d \<Rightarrow>
           (case raw_panels d of
              None \<Rightarrow> Inr []
            | Some boxes \<Rightarrow>
                (let (actual_img_width, actual_img_height) =
                       actual_img_size temp_json_dir folder_path json_file;
                     (coord_img_width, coord_img_height) =
                       magi_coord_size actual_img_width actual_img_height
                 in magi_panels coord_img_width coord_img_height boxes))
       | other \<Rightarrow> Inr [])"

text \<open>One page: the result of the \<^verbatim>\<open>try\<close>, or the empty page of the \<^verbatim>\<open>except\<close> branch.\<close>

definition magi_page :: "directory \<Rightarrow> node \<Rightarrow> int \<Rightarrow> string \<Rightarrow> page_record" where
  "magi_page temp_json_dir folder_path page_num json_file =
     (case magi_page_panels temp_json_dir folder_path json_file of
        Inr page_panels \<Rightarrow>
          \<lparr>page = page_num,
           image_name = actual_image_name temp_json_dir folder_path json_file,
           panels = page_panels\<rparr>
      | Inl e \<Rightarrow>
          \<lparr>page = page_num,
           image_name = actual_image_name temp_json_dir folder_path json_file,
           panels = []\<rparr>)"

text \<open>\<^verbatim>\<open>enumerate(xs, 1)\<close>.\<close>

definition enumerate1 :: "'a list \<Rightarrow> (int \<times> 'a) list" where
  "enumerate1 xs = zip [1..int (length xs)] xs"

text \<open>
  \<^verbatim>\<open>combine_jsons_to_final_json\<close>. The result files are given by their names in the temporary
  directory, which is also the sort key.
\<close>

definition combine_jsons_to_final_json ::
  "write_fault \<Rightarrow> directory \<Rightarrow> node \<Rightarrow> out_directory \<Rightarrow> string list \<Rightarrow> string \<Rightarrow>
     bool \<times> out_directory" where
  "combine_jsons_to_final_json fault temp_json_dir folder_path out json_files output_json =
     (let existing_json_files = filter (\<lambda>j. temp_json_dir j \<noteq> None) json_files
      in if existing_json_files = [] then (False, out)
         else let pages_data =
                    map (\<lambda>(page_num, json_file).
                           magi_page temp_json_dir folder_path page_num json_file)
                      (enumerate1 (sort existing_json_files))
              in if pages_data = [] then (False, out)
                 else write_json fault out output_json
                        (Chapter_file \<lparr>reading_direction = ''rtl'',
                                       total_pages = int (length pages_data),
                                       pages = pages_data\<rparr>))"

text \<open>
  \<^verbatim>\<open>process_with_magi\<close>. \<open>run\<close> gives the outcome of the detector for each image, \<open>faults\<close>
  the fault of a write to each output path. The temporary directory is the subdirectory
  \<^verbatim>\<open>{folder_name}_temp\<close> of the output directory, made with \<^verbatim>\<open>mkdir(exist_ok=True)\<close>;
  \<open>temp_json_dir\<close> is what it holds after that call, which is taken to succeed, as is the
  listing of the folder. The function leaves this directory
  behind when it returns early (no image, no result file) and removes it with
  \<^verbatim>\<open>shutil.rmtree\<close> after the aggregation. The result of the model is the value returned and
  the JSON files of the output directory; what becomes of the temporary directory is not
  part of it.
\<close>

definition process_with_magi ::
  "bool \<Rightarrow> (string list \<Rightarrow> run_result) \<Rightarrow> (string \<Rightarrow> write_fault) \<Rightarrow> directory \<Rightarrow> node \<Rightarrow>
     out_directory \<Rightarrow> exn + (bool \<times> out_directory)" where
  "process_with_magi cs run faults temp_json_dir folder_path out =
     (let folder_name = node_name folder_path;
          output_json = folder_name @ ''.json'';
          image_files = enumerate_images cs folder_path
      in if image_files = [] then Inr (False, out)
         else case magi_image_loop run image_files temp_json_dir [] of
                Inl e \<Rightarrow> Inl e
              | Inr (json_files, temp_json_dir') \<Rightarrow>
                  if json_files = [] then Inr (False, out)
                  else Inr (combine_jsons_to_final_json (faults output_json) temp_json_dir'
                              folder_path out json_files output_json))"

text \<open>The outcome that makes \<^verbatim>\<open>process_image_with_magi\<close> report success.\<close>

fun detected :: "run_result \<Rightarrow> bool" where
  "detected (Inr (returncode, Some content)) = (returncode = 0)"
| "detected other = False"

definition result_file :: "string list \<Rightarrow> string" where
  "result_file image_path = path_stem (last image_path) @ ''_panels.json''"

text \<open>What the loop over the images leaves in the temporary directory.\<close>

fun store_results ::
  "(string list \<Rightarrow> run_result) \<Rightarrow> string list list \<Rightarrow> directory \<Rightarrow> directory" where
  "store_results run [] temp_json_dir = temp_json_dir"
| "store_results run (image_file # image_files) temp_json_dir =
     store_results run image_files
       (case run image_file of
          Inr (returncode, Some content) \<Rightarrow>
            if returncode = 0 then temp_json_dir(result_file image_file \<mapsto> content)
            else temp_json_dir
        | other \<Rightarrow> temp_json_dir)"

definition detected_images :: "(string list \<Rightarrow> run_result) \<Rightarrow> string list list \<Rightarrow> string list list" where
  "detected_images run image_files = filter (\<lambda>p. detected (run p)) image_files"

section \<open>Aggregation of a unit, Kumiko\<close>

text \<open>
  \<^verbatim>\<open>preprocess_page_data\<close> of \<^verbatim>\<open>process_manga.py\<close>. The size is the value of the key \<^verbatim>\<open>size\<close>, or
  else the size read from the image, if one was found and opens.
\<close>

definition dims_ok :: "(pynum \<times> pynum) option \<Rightarrow> bool" where
  "dims_ok dims =
     (case dims of
        Some (img_width, img_height) \<Rightarrow>
          num_val img_width \<noteq> 0 \<and> num_val img_height \<noteq> 0 \<and>
          0 < num_val img_width \<and> 0 < num_val img_height
      | None \<Rightarrow> False)"

definition normalized_by ::
  "rat \<Rightarrow> rat \<Rightarrow> rat \<Rightarrow> rat \<Rightarrow> pynum \<Rightarrow> pynum \<Rightarrow> exn + panel" where
  "normalized_by x y w h img_width img_height =
     ebind (py_truediv (PFloat x) img_width) (\<lambda>norm_x.
     ebind (py_truediv (PFloat y) img_height) (\<lambda>norm_y.
     ebind (py_truediv (PFloat w) img_width) (\<lambda>norm_w.
     ebind (py_truediv (PFloat h) img_height) (\<lambda>norm_h.
       Inr \<lparr>panel_x = norm_x, panel_y = norm_y, panel_w = norm_w, panel_h = norm_h\<rparr>))))"

text \<open>One panel of the loop of lines 317 to 361: the panels it appends, none or one.\<close>

fun convert_panel :: "(pynum \<times> pynum) option \<Rightarrow> raw_panel \<Rightarrow> exn + panel list" where
  "convert_panel dims (Box coords) =
     (if 4 \<le> length coords
      then let raw_x = to_float (coords ! 0); raw_y = to_float (coords ! 1);
               raw_w = to_float (coords ! 2); raw_h = to_float (coords ! 3)
           in if dims_ok dims
              then ebind (normalized_by raw_x raw_y raw_w raw_h (fst (the dims)) (snd (the dims)))
                     (\<lambda>p. Inr [p])
              else if 1 < raw_x \<or> 1 < raw_y \<or> 1 < raw_w \<or> 1 < raw_h then Inr []
              else Inr [\<lparr>panel_x = raw_x, panel_y = raw_y, panel_w = raw_w, panel_h = raw_h\<rparr>]
      else Inr [])"
| "convert_panel dims (Rect px py pw ph) =
     (let x = to_float px; y = to_float py; w = to_float pw; h = to_float ph
      in if dims_ok dims \<and> (1 < x \<or> 1 < y \<or> 1 < w \<or> 1 < h)
         then ebind (normalized_by x y w h (fst (the dims)) (snd (the dims))) (\<lambda>p. Inr [p])
         else Inr [\<lparr>panel_x = num_val px, panel_y = num_val py,
                    panel_w = num_val pw, panel_h = num_val ph\<rparr>])"

fun convert_panels :: "(pynum \<times> pynum) option \<Rightarrow> raw_panel list \<Rightarrow> exn + panel list" where
  "convert_panels dims [] = Inr []"
| "convert_panels dims (p # rest) =
     ebind (convert_panel dims p) (\<lambda>ps.
     ebind (convert_panels dims rest) (\<lambda>qs. Inr (ps @ qs)))"

definition preprocess_page_data ::
  "page_data \<Rightarrow> int \<Rightarrow> (int \<times> int) option \<Rightarrow> kumiko_record option" where
  "preprocess_page_data d page_num image_dims =
     (let dims = (case image_size d of
                    Some sz \<Rightarrow> Some sz
                  | None \<Rightarrow> map_option (\<lambda>(iw, ih). (PInt iw, PInt ih)) image_dims)
      in case convert_panels dims (case raw_panels d of Some ps \<Rightarrow> ps | None \<Rightarrow> []) of
           Inr converted_panels \<Rightarrow>
             Some \<lparr>k_page = (case page_no d of Some n \<Rightarrow> n | None \<Rightarrow> page_num),
                   k_image = filename d,
                   k_panels = converted_panels\<rparr>
         | Inl e \<Rightarrow> None)"

text \<open>The guard \<^verbatim>\<open>'panels' in page_data and page_data['panels']\<close>.\<close>

definition has_panels :: "page_data \<Rightarrow> bool" where
  "has_panels d = (case raw_panels d of Some (p # ps) \<Rightarrow> True | other \<Rightarrow> False)"

definition kumiko_page_of :: "page_data \<Rightarrow> int \<Rightarrow> (int \<times> int) option \<Rightarrow> kumiko_record list" where
  "kumiko_page_of d page_num image_dims =
     (if has_panels d
      then (case preprocess_page_data d page_num image_dims of
              Some processed_data \<Rightarrow> [processed_data]
            | None \<Rightarrow> [])
      else [])"

text \<open>
  Lines 173 to 185 of \<^verbatim>\<open>combine_jsons_to_json\<close>: the image next to the result file, and its
  size when it is read.
\<close>

definition kumiko_image_dims :: "directory \<Rightarrow> string \<Rightarrow> (int \<times> int) option" where
  "kumiko_image_dims dir json_file =
     (case find (\<lambda>n. dir n \<noteq> None) (map (\<lambda>pat. path_stem json_file @ pat) image_patterns) of
        Some n \<Rightarrow> (case dir n of Some (Image_file iw ih) \<Rightarrow> Some (iw, ih) | other \<Rightarrow> None)
      | None \<Rightarrow> None)"

text \<open>The pages that one result file contributes (lines 169 to 240).\<close>

definition kumiko_file_pages :: "directory \<Rightarrow> int \<Rightarrow> string \<Rightarrow> kumiko_record list" where
  "kumiko_file_pages dir page_num json_file =
     (case load_json dir json_file of
        Inl e \<Rightarrow> []
      | Inr data \<Rightarrow>
          (let image_dims = kumiko_image_dims dir json_file
           in case data of
                Page_list ds \<Rightarrow> concat (map (\<lambda>d. kumiko_page_of d page_num image_dims) ds)
              | Pages_dict ds \<Rightarrow>
                  concat (map (\<lambda>(i, d). kumiko_page_of d i image_dims) (enumerate1 ds))
              | Page_dict d \<Rightarrow> kumiko_page_of d page_num image_dims))"

definition kumiko_pages_data :: "directory \<Rightarrow> string list \<Rightarrow> kumiko_record list" where
  "kumiko_pages_data dir json_files =
     concat (map (\<lambda>(page_num, json_file). kumiko_file_pages dir page_num json_file)
               (enumerate1 (sort json_files)))"

definition combine_jsons_to_json ::
  "write_fault \<Rightarrow> directory \<Rightarrow> out_directory \<Rightarrow> string list \<Rightarrow> string \<Rightarrow> bool \<times> out_directory" where
  "combine_jsons_to_json fault dir out json_files output_json =
     (let pages_data = kumiko_pages_data dir json_files
      in if pages_data = [] then (False, out)
         else write_json fault out output_json
                (Kumiko_file \<lparr>k_reading_direction = ''rtl'',
                               k_total_pages = int (length pages_data),
                               k_pages = sort_key k_page pages_data\<rparr>))"

section \<open>Chapter-based archives, MAGI\<close>

text \<open>Lines 730 to 739: the images of one chapter, as paths from the archive folder.\<close>

definition chapter_images :: "bool \<Rightarrow> node \<Rightarrow> string list list" where
  "chapter_images cs chapter_dir =
     sort_key (path_key cs)
       (concat (map (\<lambda>ext. map (\<lambda>n. [node_name chapter_dir, node_name n])
                              (glob_ext cs chapter_dir ext @ glob_ext cs chapter_dir (upper ext)))
                  image_extensions))"

definition chapter_json_name :: "string \<Rightarrow> string \<Rightarrow> string" where
  "chapter_json_name folder_name chapter = folder_name @ ''_'' @ chapter @ ''.json''"

definition chapter_temp_name :: "string \<Rightarrow> string \<Rightarrow> string" where
  "chapter_temp_name folder_name chapter = folder_name @ ''_'' @ chapter @ ''_temp''"

text \<open>
  The loop over the chapters (lines 722 to 778). The temporary directory of a chapter is the
  subdirectory \<^verbatim>\<open>{folder_name}_{chapter}_temp\<close> of the output directory; \<open>temps\<close> gives what
  each of them holds when it is created with \<^verbatim>\<open>exist_ok=True\<close>. A chapter without images or
  without result files leaves its temporary directory behind, the others are removed with
  \<^verbatim>\<open>shutil.rmtree\<close>; as for \<^verbatim>\<open>process_with_magi\<close>, this is not part of the result.
\<close>

fun magi_chapter_loop ::
  "bool \<Rightarrow> (string list \<Rightarrow> run_result) \<Rightarrow> (string \<Rightarrow> write_fault) \<Rightarrow> (string \<Rightarrow> directory) \<Rightarrow>
     string \<Rightarrow> node list \<Rightarrow> int \<Rightarrow> out_directory \<Rightarrow> exn + (int \<times> out_directory)" where
  "magi_chapter_loop cs run faults temps folder_name [] successful_chapters out =
     Inr (successful_chapters, out)"
| "magi_chapter_loop cs run faults temps folder_name (chapter_dir # rest) successful_chapters out =
     (let chapter_json = chapter_json_name folder_name (node_name chapter_dir);
          temp_json_dir = temps (chapter_temp_name folder_name (node_name chapter_dir));
          image_files = chapter_images cs chapter_dir
      in if image_files = []
         then magi_chapter_loop cs run faults temps folder_name rest successful_chapters out
         else case magi_image_loop run image_files temp_json_dir [] of
                Inl e \<Rightarrow> Inl e
              | Inr (json_files, temp_json_dir') \<Rightarrow>
                  if json_files = []
                  then magi_chapter_loop cs run faults temps folder_name rest
                         successful_chapters out
                  else (case combine_jsons_to_final_json (faults chapter_json) temp_json_dir'
                               chapter_dir out json_files chapter_json of
                          (success, out') \<Rightarrow>
                            magi_chapter_loop cs run faults temps folder_name rest
                              (if success then successful_chapters + 1
                               else successful_chapters) out'))"

text \<open>\<^verbatim>\<open>json.load\<close> of a document followed by \<^verbatim>\<open>.get("total_pages", 0)\<close>.\<close>

definition load_total_pages :: "out_directory \<Rightarrow> string \<Rightarrow> exn + int" where
  "load_total_pages out path =
     (case out path of
        Some (Chapter_file d) \<Rightarrow> Inr (total_pages d)
      | Some (Kumiko_file d) \<Rightarrow> Inr (k_total_pages d)
      | Some (Index_file x) \<Rightarrow> Inr 0
      | Some Truncated_file \<Rightarrow> Inl JSONDecodeError
      | None \<Rightarrow> Inl FileNotFoundError)"

text \<open>Lines 794 to 807: the entry of a chapter, if its document exists and loads.\<close>

definition index_entry :: "string \<Rightarrow> out_directory \<Rightarrow> node \<Rightarrow> chapter_entry list" where
  "index_entry folder_name out chapter_dir =
     (let chapter_json = chapter_json_name folder_name (node_name chapter_dir)
      in if out chapter_json \<noteq> None
         then (case load_total_pages out chapter_json of
                 Inr n \<Rightarrow> [\<lparr>entry_name = node_name chapter_dir,
                            entry_json_file = chapter_json,
                            entry_total_pages = n\<rparr>]
               | Inl e \<Rightarrow> [])
         else [])"

text \<open>The chapter directories that \<^verbatim>\<open>process_chapter_based_archive\<close> works on, in its order.\<close>

definition chapter_dirs_of :: "bool \<Rightarrow> node \<Rightarrow> node list" where
  "chapter_dirs_of cs folder_path =
     (let nested_dirs = filter is_dir (iterdir folder_path);
          has_chapters_in_nested =
            (length nested_dirs = 1 \<and>
             list_ex (has_images cs) (filter is_dir (iterdir (hd nested_dirs))));
          folder_path = (if has_chapters_in_nested then hd nested_dirs else folder_path)
      in sort_key node_name
           (filter (\<lambda>item. is_dir item \<and> has_images cs item) (iterdir folder_path)))"

definition process_chapter_based_archive ::
  "bool \<Rightarrow> (string list \<Rightarrow> run_result) \<Rightarrow> (string \<Rightarrow> write_fault) \<Rightarrow> (string \<Rightarrow> directory) \<Rightarrow>
     node \<Rightarrow> out_directory \<Rightarrow> exn + (bool \<times> out_directory)" where
  "process_chapter_based_archive cs run faults temps folder_path out =
     (let folder_name = node_name folder_path;
          chapter_dirs = chapter_dirs_of cs folder_path
      in if chapter_dirs = [] then Inr (False, out)
         else case magi_chapter_loop cs run faults temps folder_name chapter_dirs 0 out of
                Inl e \<Rightarrow> Inl e
              | Inr (successful_chapters, out') \<Rightarrow>
                  if successful_chapters = 0 then Inr (False, out')
                  else let master_index =
                             \<lparr>archive_name = folder_name,
                              total_chapters = successful_chapters,
                              chapters = concat (map (index_entry folder_name out') chapter_dirs),
                              index_reading_direction = ''rtl''\<rparr>;
                           master_json = folder_name @ ''.json''
                       in Inr (write_json (faults master_json) out' master_json
                                 (Index_file master_index)))"

text \<open>
  Names for what the loop does with one chapter: the images whose detection succeeded,
  whether the chapter document gets written, the document, and the effect on the output
  directory.
\<close>

definition chapter_found :: "bool \<Rightarrow> (string list \<Rightarrow> run_result) \<Rightarrow> node \<Rightarrow> string list list" where
  "chapter_found cs run chapter_dir = detected_images run (chapter_images cs chapter_dir)"

definition chapter_written ::
  "bool \<Rightarrow> (string list \<Rightarrow> run_result) \<Rightarrow> (string \<Rightarrow> write_fault) \<Rightarrow> string \<Rightarrow> node \<Rightarrow> bool" where
  "chapter_written cs run faults folder_name chapter_dir =
     (chapter_found cs run chapter_dir \<noteq> [] \<and>
      faults (chapter_json_name folder_name (node_name chapter_dir)) = No_fault)"

definition chapter_document_of ::
  "bool \<Rightarrow> (string list \<Rightarrow> run_result) \<Rightarrow> (string \<Rightarrow> directory) \<Rightarrow> string \<Rightarrow> node \<Rightarrow>
     chapter_document" where
  "chapter_document_of cs run temps folder_name chapter_dir =
     \<lparr>reading_direction = ''rtl'',
      total_pages = int (length (chapter_found cs run chapter_dir)),
      pages =
        map (\<lambda>(page_num, json_file).
               magi_page
                 (store_results run (chapter_images cs chapter_dir)
                    (temps (chapter_temp_name folder_name (node_name chapter_dir))))
                 chapter_dir page_num json_file)
          (enumerate1 (sort (map result_file (chapter_found cs run chapter_dir))))\<rparr>"

definition chapter_step ::
  "bool \<Rightarrow> (string list \<Rightarrow> run_result) \<Rightarrow> (string \<Rightarrow> write_fault) \<Rightarrow> (string \<Rightarrow> directory) \<Rightarrow>
     string \<Rightarrow> out_directory \<Rightarrow> node \<Rightarrow> out_directory" where
  "chapter_step cs run faults temps folder_name out chapter_dir =
     (if chapter_found cs run chapter_dir = [] then out
      else snd (write_json (faults (chapter_json_name folder_name (node_name chapter_dir))) out
                  (chapter_json_name folder_name (node_name chapter_dir))
                  (Chapter_file (chapter_document_of cs run temps folder_name chapter_dir))))"

section \<open>The Kumiko pipeline for chapter-based archives\<close>

text \<open>
  \<^verbatim>\<open>try_kumiko_with_flags\<close> of \<^verbatim>\<open>process_manga.py\<close>. The outcome of the call is the exception
  raised, or the return code together with what Kumiko wrote to the output file, if it wrote.
  Every exception is caught.
\<close>

definition try_kumiko_with_flags ::
  "run_result \<Rightarrow> string \<Rightarrow> directory \<Rightarrow> (bool \<times> string option) \<times> directory" where
  "try_kumiko_with_flags result output_file output_dir =
     (case result of
        Inr (returncode, written) \<Rightarrow>
          (let dir' = (case written of
                         Some content \<Rightarrow> output_dir(output_file \<mapsto> content)
                       | None \<Rightarrow> output_dir)
           in if returncode = 0
              then if dir' output_file \<noteq> None then ((True, Some output_file), dir')
                   else ((False, None), dir')
              else ((False, None), dir'))
      | Inl e \<Rightarrow>
          if e = TimeoutExpired then ((False, None), output_dir)
          else ((False, None), output_dir))"

text \<open>\<^verbatim>\<open>process_image_with_kumiko\<close>: with \<^verbatim>\<open>--rtl\<close> first, then without flags.\<close>

definition process_image_with_kumiko ::
  "(string list \<Rightarrow> run_result) \<Rightarrow> string list \<Rightarrow> directory \<Rightarrow>
     (bool \<times> string option) \<times> directory" where
  "process_image_with_kumiko run_flags image_path output_dir =
     (let image_name = path_stem (last image_path);
          output_json = image_name @ ''.json''
      in case try_kumiko_with_flags (run_flags [''--rtl'']) output_json output_dir of
           ((success, json_file), dir1) \<Rightarrow>
             if success \<and> (case json_file of Some j \<Rightarrow> dir1 j \<noteq> None | None \<Rightarrow> False)
             then ((True, json_file), dir1)
             else (case try_kumiko_with_flags (run_flags []) output_json dir1 of
                     ((success, file), dir2) \<Rightarrow>
                       ((success, if success then file else None), dir2)))"

fun kumiko_image_loop ::
  "(string list \<Rightarrow> string list \<Rightarrow> run_result) \<Rightarrow> string list list \<Rightarrow> directory \<Rightarrow>
     string list \<Rightarrow> string list \<times> directory" where
  "kumiko_image_loop run [] temp_json_dir json_files = (json_files, temp_json_dir)"
| "kumiko_image_loop run (image_file # image_files) temp_json_dir json_files =
     (case process_image_with_kumiko (run image_file) image_file temp_json_dir of
        ((success, json_file), temp_json_dir') \<Rightarrow>
          (case json_file of
             Some j \<Rightarrow>
               if success \<and> temp_json_dir' j \<noteq> None
               then kumiko_image_loop run image_files temp_json_dir' (json_files @ [j])
               else kumiko_image_loop run image_files temp_json_dir' json_files
           | None \<Rightarrow> kumiko_image_loop run image_files temp_json_dir' json_files))"

text \<open>
  \<^verbatim>\<open>process_with_kumiko\<close>. The temporary directory is handled as in \<^verbatim>\<open>process_with_magi\<close>
  and is not part of the result.
\<close>

definition process_with_kumiko ::
  "bool \<Rightarrow> (string list \<Rightarrow> string list \<Rightarrow> run_result) \<Rightarrow> (string \<Rightarrow> write_fault) \<Rightarrow>
     directory \<Rightarrow> node \<Rightarrow> out_directory \<Rightarrow> bool \<times> out_directory" where
  "process_with_kumiko cs run faults temp_json_dir folder_path out =
     (let folder_name = node_name folder_path;
          output_json = folder_name @ ''.json'';
          image_files = enumerate_images cs folder_path
      in if image_files = [] then (False, out)
         else case kumiko_image_loop run image_files temp_json_dir [] of
                (json_files, temp_json_dir') \<Rightarrow>
                  if json_files = [] then (False, out)
                  else combine_jsons_to_json (faults output_json) temp_json_dir' out
                         json_files output_json)"

text \<open>The result files and the pages of one chapter, and what the loop does with it.\<close>

definition kumiko_chapter_files ::
  "bool \<Rightarrow> (string list \<Rightarrow> string list \<Rightarrow> run_result) \<Rightarrow> (string \<Rightarrow> directory) \<Rightarrow>
     string \<Rightarrow> node \<Rightarrow> string list \<times> directory" where
  "kumiko_chapter_files cs run temps folder_name chapter_dir =
     kumiko_image_loop run (chapter_images cs chapter_dir)
       (temps (chapter_temp_name folder_name (node_name chapter_dir))) []"

definition kumiko_chapter_pages ::
  "bool \<Rightarrow> (string list \<Rightarrow> string list \<Rightarrow> run_result) \<Rightarrow> (string \<Rightarrow> directory) \<Rightarrow>
     string \<Rightarrow> node \<Rightarrow> kumiko_record list" where
  "kumiko_chapter_pages cs run temps folder_name chapter_dir =
     (case kumiko_chapter_files cs run temps folder_name chapter_dir of
        (json_files, temp_json_dir') \<Rightarrow> kumiko_pages_data temp_json_dir' json_files)"

definition kumiko_chapter_written ::
  "bool \<Rightarrow> (string list \<Rightarrow> string list \<Rightarrow> run_result) \<Rightarrow> (string \<Rightarrow> write_fault) \<Rightarrow>
     (string \<Rightarrow> directory) \<Rightarrow> string \<Rightarrow> node \<Rightarrow> bool" where
  "kumiko_chapter_written cs run faults temps folder_name chapter_dir =
     (fst (kumiko_chapter_files cs run temps folder_name chapter_dir) \<noteq> [] \<and>
      kumiko_chapter_pages cs run temps folder_name chapter_dir \<noteq> [] \<and>
      faults (chapter_json_name folder_name (node_name chapter_dir)) = No_fault)"

definition kumiko_chapter_document ::
  "bool \<Rightarrow> (string list \<Rightarrow> string list \<Rightarrow> run_result) \<Rightarrow> (string \<Rightarrow> directory) \<Rightarrow>
     string \<Rightarrow> node \<Rightarrow> kumiko_document" where
  "kumiko_chapter_document cs run temps folder_name chapter_dir =
     \<lparr>k_reading_direction = ''rtl'',
      k_total_pages = int (length (kumiko_chapter_pages cs run temps folder_name chapter_dir)),
      k_pages = sort_key k_page (kumiko_chapter_pages cs run temps folder_name chapter_dir)\<rparr>"

definition kumiko_chapter_step ::
  "bool \<Rightarrow> (string list \<Rightarrow> string list \<Rightarrow> run_result) \<Rightarrow> (string \<Rightarrow> write_fault) \<Rightarrow>
     (string \<Rightarrow> directory) \<Rightarrow> string \<Rightarrow> out_directory \<Rightarrow> node \<Rightarrow> out_directory" where
  "kumiko_chapter_step cs run faults temps folder_name out chapter_dir =
     (case kumiko_chapter_files cs run temps folder_name chapter_dir of
        (json_files, temp_json_dir') \<Rightarrow>
          if json_files = [] then out
          else snd (combine_jsons_to_json
                      (faults (chapter_json_name folder_name (node_name chapter_dir)))
                      temp_json_dir' out json_files
                      (chapter_json_name folder_name (node_name chapter_dir))))"

text \<open>
  The loop over the chapters, lines 1063 to 1119 of \<^verbatim>\<open>process_manga.py\<close>. The temporary
  directories are handled as in the MAGI script and are not part of the result.
\<close>

fun kumiko_chapter_loop ::
  "bool \<Rightarrow> (string list \<Rightarrow> string list \<Rightarrow> run_result) \<Rightarrow> (string \<Rightarrow> write_fault) \<Rightarrow>
     (string \<Rightarrow> directory) \<Rightarrow> string \<Rightarrow> node list \<Rightarrow> int \<Rightarrow> out_directory \<Rightarrow>
     int \<times> out_directory" where
  "kumiko_chapter_loop cs run faults temps folder_name [] successful_chapters out =
     (successful_chapters, out)"
| "kumiko_chapter_loop cs run faults temps folder_name (chapter_dir # rest) successful_chapters out =
     (let chapter_json = chapter_json_name folder_name (node_name chapter_dir);
          temp_json_dir = temps (chapter_temp_name folder_name (node_name chapter_dir));
          image_files = chapter_images cs chapter_dir
      in if image_files = []
         then kumiko_chapter_loop cs run faults temps folder_name rest successful_chapters out
         else case kumiko_image_loop run image_files temp_json_dir [] of
                (json_files, temp_json_dir') \<Rightarrow>
                  if json_files = []
                  then kumiko_chapter_loop cs run faults temps folder_name rest
                         successful_chapters out
                  else (case combine_jsons_to_json (faults chapter_json) temp_json_dir' out
                               json_files chapter_json of
                          (success, out') \<Rightarrow>
                            kumiko_chapter_loop cs run faults temps folder_name rest
                              (if success then successful_chapters + 1
                               else successful_chapters) out'))"

text \<open>
  Lines 1129 to 1139: the entries of the index, built inside one \<^verbatim>\<open>try\<close>; a document that
  does not load ends the construction.
\<close>

fun kumiko_index_entries ::
  "string \<Rightarrow> out_directory \<Rightarrow> node list \<Rightarrow> exn + chapter_entry list" where
  "kumiko_index_entries folder_name out [] = Inr []"
| "kumiko_index_entries folder_name out (chapter_dir # rest) =
     (let chapter_json = chapter_json_name folder_name (node_name chapter_dir)
      in if out chapter_json \<noteq> None
         then ebind (load_total_pages out chapter_json) (\<lambda>n.
              ebind (kumiko_index_entries folder_name out rest) (\<lambda>es.
                Inr (\<lparr>entry_name = node_name chapter_dir, entry_json_file = chapter_json,
                      entry_total_pages = n\<rparr> # es)))
         else kumiko_index_entries folder_name out rest)"

text \<open>\<^verbatim>\<open>process_chapter_based_archive\<close> of \<^verbatim>\<open>process_manga.py\<close>.\<close>

definition process_chapter_based_archive_kumiko ::
  "bool \<Rightarrow> (string list \<Rightarrow> string list \<Rightarrow> run_result) \<Rightarrow> (string \<Rightarrow> write_fault) \<Rightarrow>
     (string \<Rightarrow> directory) \<Rightarrow> node \<Rightarrow> out_directory \<Rightarrow> bool \<times> out_directory" where
  "process_chapter_based_archive_kumiko cs run faults temps folder_path out =
     (let folder_name = node_name folder_path;
          chapter_dirs = chapter_dirs_of cs folder_path
      in if chapter_dirs = [] then (False, out)
         else case kumiko_chapter_loop cs run faults temps folder_name chapter_dirs 0 out of
                (successful_chapters, out') \<Rightarrow>
                  if successful_chapters = 0 then (False, out')
                  else (case kumiko_index_entries folder_name out' chapter_dirs of
                          Inl e \<Rightarrow> (False, out')
                        | Inr chapters_data \<Rightarrow>
                            write_json (faults (folder_name @ ''.json'')) out'
                              (folder_name @ ''.json'')
                              (Index_file \<lparr>archive_name = folder_name,
                                           total_chapters = successful_chapters,
                                           chapters = chapters_data,
                                           index_reading_direction = ''rtl''\<rparr>)))"

section \<open>Facts about the float model\<close>

lemma pow2_pos: "0 < pow2 e"
  by (simp add: pow2_def)

lemma pow2_add: "pow2 (a + b) = pow2 a * pow2 b"
proof -
  have "pow2 e = 2 powi e" for e
    unfolding pow2_def power_int_def by (simp add: inverse_eq_divide power_one_over)
  then show ?thesis by (simp add: power_int_add)
qed

lemma round_half_even_error: "\<bar>of_int (round_half_even v) - v\<bar> \<le> 1 / 2"
proof -
  have "of_int \<lfloor>v\<rfloor> \<le> v" "v < of_int \<lfloor>v\<rfloor> + 1" by linarith+
  then show ?thesis
    unfolding round_half_even_def Let_def by (auto simp: abs_le_iff)
qed

lemma ilog2_lower:
  assumes "0 < q"
  shows "pow2 (ilog2 q) \<le> q"
proof (cases "1 \<le> q")
  case True
  then have n: "0 < \<lfloor>q\<rfloor>" by linarith
  from bitlen_bounds[OF n] have "(2::int) ^ nat (bitlen \<lfloor>q\<rfloor> - 1) \<le> \<lfloor>q\<rfloor>" by simp
  then have "(of_int ((2::int) ^ nat (bitlen \<lfloor>q\<rfloor> - 1)) :: rat) \<le> of_int \<lfloor>q\<rfloor>"
    by (simp only: of_int_le_iff)
  also have "\<dots> \<le> q" by linarith
  finally have "(2::rat) ^ nat (bitlen \<lfloor>q\<rfloor> - 1) \<le> q" by simp
  moreover have "1 \<le> bitlen \<lfloor>q\<rfloor>" using n by (simp add: bitlen_alt_def)
  ultimately show ?thesis using True by (simp add: ilog2_def pow2_def)
next
  case False
  define c where "c = \<lceil>1 / q\<rceil>"
  from False assms have r: "1 < 1 / q" by simp
  then have c2: "0 < c - 1" unfolding c_def by linarith
  from bitlen_bounds[OF c2] have "c - 1 < 2 ^ nat (bitlen (c - 1))" by simp
  then have "c \<le> 2 ^ nat (bitlen (c - 1))" by simp
  then have "(of_int c :: rat) \<le> of_int (2 ^ nat (bitlen (c - 1)))"
    by (simp only: of_int_le_iff)
  moreover have "1 / q \<le> of_int c" unfolding c_def by linarith
  ultimately have "1 / q \<le> 2 ^ nat (bitlen (c - 1))"
    by (simp only: of_int_power of_int_numeral)
  then have "1 / 2 ^ nat (bitlen (c - 1)) \<le> q"
    using assms by (simp add: field_simps)
  moreover have "0 \<le> bitlen (c - 1)" by (rule bitlen_nonneg)
  ultimately show ?thesis using False
    by (auto simp add: ilog2_def pow2_def c_def)
qed

lemma fl_error: "\<bar>fl q - q\<bar> \<le> \<bar>q\<bar> / 2 ^ 53"
proof (cases "q = 0")
  case True
  then show ?thesis by (simp add: fl_def)
next
  case False
  define e where "e = ilog2 \<bar>q\<bar> - 52"
  define m where "m = round_half_even (q / pow2 e)"
  have p: "0 < pow2 e" by (rule pow2_pos)
  have flq: "fl q = of_int m * pow2 e"
    using False by (simp add: fl_def e_def m_def Let_def)
  have "\<bar>of_int m - q / pow2 e\<bar> \<le> 1 / 2" unfolding m_def by (rule round_half_even_error)
  then have "\<bar>of_int m - q / pow2 e\<bar> * pow2 e \<le> 1 / 2 * pow2 e"
    using p by (simp add: mult_right_mono)
  moreover have "\<bar>of_int m - q / pow2 e\<bar> * pow2 e = \<bar>of_int m * pow2 e - q\<bar>"
  proof -
    have "\<bar>of_int m - q / pow2 e\<bar> * pow2 e = \<bar>(of_int m - q / pow2 e) * pow2 e\<bar>"
      using p by (simp add: abs_mult)
    also have "(of_int m - q / pow2 e) * pow2 e = of_int m * pow2 e - q"
      using p by (simp add: field_simps)
    finally show ?thesis .
  qed
  ultimately have err: "\<bar>fl q - q\<bar> \<le> pow2 e / 2" by (simp add: flq)
  have "pow2 (ilog2 \<bar>q\<bar>) \<le> \<bar>q\<bar>" using False by (intro ilog2_lower) simp
  moreover have "pow2 (ilog2 \<bar>q\<bar>) = pow2 e * 2 ^ 52"
  proof -
    have "ilog2 \<bar>q\<bar> = e + 52" by (simp add: e_def)
    then have "pow2 (ilog2 \<bar>q\<bar>) = pow2 e * pow2 52" by (simp only: pow2_add)
    moreover have "pow2 52 = 2 ^ 52" by (simp add: pow2_def)
    ultimately show ?thesis by simp
  qed
  ultimately have "pow2 e \<le> \<bar>q\<bar> / 2 ^ 52" by (simp add: field_simps)
  with err show ?thesis by simp
qed

lemma round_half_even_nonneg: "0 \<le> v \<Longrightarrow> 0 \<le> round_half_even v"
  unfolding round_half_even_def Let_def by auto

lemma round_half_even_upper: "of_int (round_half_even v) \<le> v + 1 / 2"
  using round_half_even_error[of v] by linarith

lemma fl_nonneg: "0 \<le> q \<Longrightarrow> 0 \<le> fl q"
proof -
  assume q: "0 \<le> q"
  have "q / 2 ^ 53 \<le> q" using q by (simp add: field_simps)
  moreover have "\<bar>fl q - q\<bar> \<le> q / 2 ^ 53" using fl_error[of q] q by simp
  ultimately show ?thesis by linarith
qed

lemma fl_upper: "0 \<le> q \<Longrightarrow> fl q \<le> q + q / 2 ^ 53"
proof -
  assume q: "0 \<le> q"
  have "\<bar>fl q - q\<bar> \<le> q / 2 ^ 53" using fl_error[of q] q by simp
  then show ?thesis by linarith
qed

lemma py_round3_nonneg: "0 \<le> v \<Longrightarrow> 0 \<le> py_round3 v"
  unfolding py_round3_def using round_half_even_nonneg[of "v * 1000"] by simp

lemma py_round3_le_1:
  assumes "v < 2001 / 2000"
  shows "py_round3 v \<le> 1"
proof -
  have "of_int (round_half_even (v * 1000)) \<le> v * 1000 + 1 / 2" by (rule round_half_even_upper)
  also have "\<dots> < 1001" using assms by simp
  finally have "round_half_even (v * 1000) < 1001" by linarith
  then have "round_half_even (v * 1000) \<le> 1000" by simp
  then have "(of_int (round_half_even (v * 1000)) :: rat) \<le> 1000" by linarith
  then show ?thesis by (simp add: py_round3_def)
qed

lemma py_round3_sum:
  assumes "va + vb < 1001 / 1000"
  shows "py_round3 va + py_round3 vb \<le> 1001 / 1000"
proof -
  let ?ka = "round_half_even (va * 1000)" and ?kb = "round_half_even (vb * 1000)"
  have "of_int ?ka \<le> va * 1000 + 1 / 2" "of_int ?kb \<le> vb * 1000 + 1 / 2"
    by (rule round_half_even_upper)+
  then have "(of_int (?ka + ?kb) :: rat) \<le> (va + vb) * 1000 + 1" by (simp add: algebra_simps)
  also have "\<dots> < 1002" using assms by simp
  finally have "?ka + ?kb < 1002" by linarith
  then have "?ka + ?kb \<le> 1001" by simp
  then have "(of_int (?ka + ?kb) :: rat) \<le> 1001" by linarith
  then show ?thesis by (simp add: py_round3_def add_divide_distrib[symmetric])
qed

lemma clamp01_range: "0 \<le> clamp01 v" "clamp01 v \<le> 1"
  by (simp_all add: clamp01_def)

lemma clamp01_le: "0 \<le> v \<Longrightarrow> clamp01 v \<le> v"
  by (simp add: clamp01_def)

lemma three_decimals_round3: "three_decimals (py_round3 v)"
  by (simp add: three_decimals_def py_round3_def)

lemma fl_eq_0_iff: "fl q = 0 \<longleftrightarrow> q = 0"
proof
  assume "fl q = 0"
  with fl_error[of q] have "\<bar>q\<bar> \<le> \<bar>q\<bar> / 2 ^ 53" by simp
  then show "q = 0" by (simp add: field_simps)
qed (simp add: fl_def)

lemma fl_lower: "0 \<le> q \<Longrightarrow> q - q / 2 ^ 53 \<le> fl q"
proof -
  assume q: "0 \<le> q"
  have "\<bar>fl q - q\<bar> \<le> q / 2 ^ 53" using fl_error[of q] q by simp
  then show ?thesis by linarith
qed

lemma fl_pos: "0 < q \<Longrightarrow> 0 < fl q"
  using fl_nonneg[of q] fl_eq_0_iff[of q] by simp

lemma pow2_numerals:
  "(2::rat) ^ 53 = 9007199254740992" "(2::rat) ^ 52 = 4503599627370496"
  "(2::rat) ^ 51 = 2251799813685248"
  by simp_all

lemma add_rel_err:
  fixes u v p q :: rat
  assumes "u \<le> p + p / 2 ^ 53" "v \<le> q + q / 2 ^ 53"
  shows "u + v \<le> (p + q) + (p + q) / 2 ^ 53"
  using assms by (simp add: add_divide_distrib)

text \<open>Two quotients by the same rounded divisor, of parts that fit in the whole.\<close>

lemma fl_div_pair:
  assumes "0 \<le> a" "0 \<le> b" "0 < D" "a + b \<le> D"
  shows "fl (a / fl D) + fl (b / fl D) \<le> 1 + 1 / 2 ^ 51"
proof -
  let ?d = "fl D"
  have d: "0 < ?d" using assms(3) by (rule fl_pos)
  have dl: "D - D / 2 ^ 53 \<le> ?d"
    using fl_lower[of D] assms(3) by simp
  have qa: "0 \<le> a / ?d" and qb: "0 \<le> b / ?d" using assms d by simp_all
  define s where "s = a / ?d + b / ?d"
  have s0: "0 \<le> s" using qa qb by (simp add: s_def)
  have "D \<le> ?d + ?d / 2 ^ 52"
  proof -
    have "D \<le> ?d + D / 2 ^ 53" using dl by linarith
    moreover have "D \<le> 2 * ?d" using dl assms(3) unfolding pow2_numerals by linarith
    ultimately show ?thesis unfolding pow2_numerals by linarith
  qed
  then have "D / ?d \<le> (?d + ?d / 2 ^ 52) / ?d" using d by (simp only: divide_right_mono less_imp_le)
  also have "\<dots> = 1 + 1 / 2 ^ 52" using d by (simp add: add_divide_distrib)
  finally have Dd: "D / ?d \<le> 1 + 1 / 2 ^ 52" .
  have "s = (a + b) / ?d" by (simp add: s_def add_divide_distrib)
  also have "\<dots> \<le> D / ?d" using assms(4) d by (simp add: divide_right_mono)
  finally have s1: "s \<le> 1 + 1 / 2 ^ 52" using Dd unfolding pow2_numerals by linarith
  have "fl (a / ?d) + fl (b / ?d) \<le> s + s / 2 ^ 53"
    unfolding s_def by (rule add_rel_err[OF fl_upper[OF qa] fl_upper[OF qb]])
  also have "\<dots> \<le> 1 + 1 / 2 ^ 51" using s0 s1 unfolding pow2_numerals by linarith
  finally show ?thesis .
qed

lemma fl_div_one:
  assumes "0 \<le> a" "0 < D" "a \<le> D"
  shows "fl (a / fl D) \<le> 1 + 1 / 2 ^ 51"
proof -
  have "fl (a / fl D) + fl (0 / fl D) \<le> 1 + 1 / 2 ^ 51"
    using fl_div_pair[of a 0 D] assms by simp
  moreover have "fl (0 / fl D) = 0" by (simp add: fl_def)
  ultimately show ?thesis by simp
qed

text \<open>The same for exact quotients of ints, which are rounded once.\<close>

lemma fl_quot_pair:
  assumes "0 \<le> a" "0 \<le> b" "0 < D" "a + b \<le> D"
  shows "fl (a / D) + fl (b / D) \<le> 1 + 1 / 2 ^ 51"
proof -
  have qa: "0 \<le> a / D" and qb: "0 \<le> b / D" using assms by simp_all
  define s where "s = a / D + b / D"
  have "s = (a + b) / D" by (simp add: s_def add_divide_distrib)
  also have "\<dots> \<le> 1" using assms by simp
  finally have s1: "s \<le> 1" .
  have s0: "0 \<le> s" using qa qb by (simp add: s_def)
  have "fl (a / D) + fl (b / D) \<le> s + s / 2 ^ 53"
    unfolding s_def by (rule add_rel_err[OF fl_upper[OF qa] fl_upper[OF qb]])
  also have "\<dots> \<le> 1 + 1 / 2 ^ 51" using s0 s1 unfolding pow2_numerals by linarith
  finally show ?thesis .
qed

lemma fl_quot_one:
  assumes "0 \<le> a" "0 < D" "a \<le> D"
  shows "fl (a / D) \<le> 1 + 1 / 2 ^ 51"
proof -
  have "fl (a / D) + fl (0 / D) \<le> 1 + 1 / 2 ^ 51"
    using fl_quot_pair[of a 0 D] assms by simp
  moreover have "fl (0 / D) = 0" by (simp add: fl_def)
  ultimately show ?thesis by simp
qed


lemma stored_coordinate_any:
  "0 \<le> py_round3 (clamp01 v)" "py_round3 (clamp01 v) \<le> 1"
proof -
  show "0 \<le> py_round3 (clamp01 v)" by (rule py_round3_nonneg) (rule clamp01_range)
  have "clamp01 v \<le> 1" by (rule clamp01_range)
  then show "py_round3 (clamp01 v) \<le> 1" by (intro py_round3_le_1) simp
qed

lemma clamped_pair:
  assumes "0 \<le> a" "0 \<le> b" "0 < D" "a + b \<le> D"
  shows "py_round3 (clamp01 (fl (a / fl D))) + py_round3 (clamp01 (fl (b / fl D))) \<le> 1001 / 1000"
proof -
  have d: "0 < fl D" using assms(3) by (rule fl_pos)
  have "0 \<le> fl (a / fl D)" "0 \<le> fl (b / fl D)" using assms d by (simp_all add: fl_nonneg)
  then have "clamp01 (fl (a / fl D)) + clamp01 (fl (b / fl D)) \<le> fl (a / fl D) + fl (b / fl D)"
    using clamp01_le by (simp add: add_mono)
  also have "\<dots> \<le> 1 + 1 / 2 ^ 51" using assms by (rule fl_div_pair)
  also have "\<dots> < 1001 / 1000" by simp
  finally show ?thesis by (rule py_round3_sum)
qed

lemma add_normalized_panel_to_page_result:
  assumes "img_w \<noteq> 0" "img_h \<noteq> 0"
  shows "add_normalized_panel_to_page page_panels x y w h img_w img_h =
     Inr (page_panels @
       [\<lparr>panel_x = py_round3 (clamp01 (fl (x / fl (of_int img_w)))),
         panel_y = py_round3 (clamp01 (fl (y / fl (of_int img_h)))),
         panel_w = py_round3 (clamp01 (fl (w / fl (of_int img_w)))),
         panel_h = py_round3 (clamp01 (fl (h / fl (of_int img_h))))\<rparr>], 1)"
  using assms by (simp add: add_normalized_panel_to_page_def ebind_def fl_eq_0_iff)

lemma magi_normalize_result:
  assumes "coord_img_width \<noteq> 0" "coord_img_height \<noteq> 0"
  shows "magi_normalize (PInt x1) (PInt y1) (PInt x2) (PInt y2) coord_img_width coord_img_height =
     Inr \<lparr>panel_x = py_round3 (fl (of_int x1 / of_int coord_img_width)),
          panel_y = py_round3 (fl (of_int y1 / of_int coord_img_height)),
          panel_w = py_round3 (fl (of_int (x2 - x1) / of_int coord_img_width)),
          panel_h = py_round3 (fl (of_int (y2 - y1) / of_int coord_img_height))\<rparr>"
  using assms by (simp add: magi_normalize_def ebind_def Let_def)

lemma quotient_coordinate:
  fixes a D :: int
  assumes "0 \<le> a" "a \<le> D" "0 < D"
  shows "0 \<le> py_round3 (fl (of_int a / of_int D))" "py_round3 (fl (of_int a / of_int D)) \<le> 1"
proof -
  have q: "(0::rat) \<le> of_int a / of_int D" using assms by simp
  show "0 \<le> py_round3 (fl (of_int a / of_int D))"
    by (rule py_round3_nonneg) (rule fl_nonneg[OF q])
  have "fl (of_int a / of_int D) \<le> 1 + 1 / 2 ^ 51"
    using assms by (intro fl_quot_one) simp_all
  also have "\<dots> < 2001 / 2000" by simp
  finally show "py_round3 (fl (of_int a / of_int D)) \<le> 1" by (rule py_round3_le_1)
qed

lemma quotient_pair:
  fixes a b D :: int
  assumes "0 \<le> a" "a \<le> b" "b \<le> D" "0 < D"
  shows "py_round3 (fl (of_int a / of_int D)) + py_round3 (fl (of_int (b - a) / of_int D))
           \<le> 1001 / 1000"
proof -
  have "fl (of_int a / of_int D) + fl (of_int (b - a) / of_int D) \<le> 1 + 1 / 2 ^ 51"
    using assms by (intro fl_quot_pair) simp_all
  also have "\<dots> < 1001 / 1000" by simp
  finally show ?thesis by (rule py_round3_sum)
qed

lemma magi_coord_size_not_resized:
  "max actual_img_width actual_img_height \<le> 800 \<Longrightarrow>
     magi_coord_size actual_img_width actual_img_height = (actual_img_width, actual_img_height)"
  by (auto simp: magi_coord_size_def magi_max_size_def)

lemma magi_coord_size_example: "magi_coord_size 1600 2400 = (533, 800)"
  by code_simp

lemma magi_normalize_example:
  "magi_normalize (PInt 100) (PInt 100) (PInt 300) (PInt 500) 533 800 =
     Inr \<lparr>panel_x = 188 / 1000, panel_y = 125 / 1000, panel_w = 375 / 1000, panel_h = 1 / 2\<rparr>"
  by code_simp

text \<open>
  What holds of the two normalisations. \<^verbatim>\<open>add_normalized_panel_to_page\<close> returns for every
  non-zero image size, and the panel it appends has each coordinate clamped to \<open>[0, 1]\<close> and
  rounded to three decimals; \<open>x + w \<le> 1.001\<close> and \<open>y + h \<le> 1.001\<close> hold when the box lies
  inside the image. The normalisation of the MAGI aggregator keeps a box of integers in
  \<open>[0, 1]\<close>, with both sums at most 1.001, only if the box lies inside the divisors it is
  given.
\<close>

lemma stored_panel_bounds:
  "(img_w \<noteq> 0 \<and> img_h \<noteq> 0 \<longrightarrow>
      (\<exists>p. add_normalized_panel_to_page page_panels x y w h img_w img_h
             = Inr (page_panels @ [p], 1) \<and>
           in_unit_range p \<and> rounded3 p \<and>
           (0 \<le> x \<and> 0 \<le> w \<and> x + w \<le> of_int img_w \<and>
            0 \<le> y \<and> 0 \<le> h \<and> y + h \<le> of_int img_h \<longrightarrow> within_tolerance p))) \<and>
   (0 \<le> x1 \<and> x1 \<le> x2 \<and> x2 \<le> cw \<and> 0 \<le> y1 \<and> y1 \<le> y2 \<and> y2 \<le> ch \<and> 0 < cw \<and> 0 < ch \<longrightarrow>
      (\<exists>p. magi_normalize (PInt x1) (PInt y1) (PInt x2) (PInt y2) cw ch = Inr p \<and>
           in_unit_range p \<and> rounded3 p \<and> within_tolerance p))"
proof (intro conjI impI)
  assume nz: "img_w \<noteq> 0 \<and> img_h \<noteq> 0"
  let ?p = "\<lparr>panel_x = py_round3 (clamp01 (fl (x / fl (of_int img_w)))),
         panel_y = py_round3 (clamp01 (fl (y / fl (of_int img_h)))),
         panel_w = py_round3 (clamp01 (fl (w / fl (of_int img_w)))),
         panel_h = py_round3 (clamp01 (fl (h / fl (of_int img_h))))\<rparr>"
  have r: "add_normalized_panel_to_page page_panels x y w h img_w img_h
             = Inr (page_panels @ [?p], 1)"
    using nz by (simp add: add_normalized_panel_to_page_result)
  have u: "in_unit_range ?p" by (simp add: in_unit_range_def stored_coordinate_any)
  have d: "rounded3 ?p" by (simp add: rounded3_def three_decimals_round3)
  have t: "within_tolerance ?p"
    if h: "0 \<le> x \<and> 0 \<le> w \<and> x + w \<le> of_int img_w \<and> 0 \<le> y \<and> 0 \<le> h \<and> y + h \<le> of_int img_h"
  proof -
    have pw: "(0::rat) < of_int img_w"
    proof -
      have "(0::rat) \<le> of_int img_w" using h by linarith
      then show ?thesis using nz by simp
    qed
    have ph: "(0::rat) < of_int img_h"
    proof -
      have "(0::rat) \<le> of_int img_h" using h by linarith
      then show ?thesis using nz by simp
    qed
    show ?thesis
      using h clamped_pair[of x w "of_int img_w"] clamped_pair[of y h "of_int img_h"] pw ph
      by (simp add: within_tolerance_def)
  qed
  show "\<exists>p. add_normalized_panel_to_page page_panels x y w h img_w img_h
             = Inr (page_panels @ [p], 1) \<and>
           in_unit_range p \<and> rounded3 p \<and>
           (0 \<le> x \<and> 0 \<le> w \<and> x + w \<le> of_int img_w \<and>
            0 \<le> y \<and> 0 \<le> h \<and> y + h \<le> of_int img_h \<longrightarrow> within_tolerance p)"
    using r u d t by blast
next
  assume b: "0 \<le> x1 \<and> x1 \<le> x2 \<and> x2 \<le> cw \<and> 0 \<le> y1 \<and> y1 \<le> y2 \<and> y2 \<le> ch \<and> 0 < cw \<and> 0 < ch"
  let ?p = "\<lparr>panel_x = py_round3 (fl (of_int x1 / of_int cw)),
          panel_y = py_round3 (fl (of_int y1 / of_int ch)),
          panel_w = py_round3 (fl (of_int (x2 - x1) / of_int cw)),
          panel_h = py_round3 (fl (of_int (y2 - y1) / of_int ch))\<rparr>"
  have r: "magi_normalize (PInt x1) (PInt y1) (PInt x2) (PInt y2) cw ch = Inr ?p"
    using b by (intro magi_normalize_result) simp_all
  have u: "in_unit_range ?p"
    using b quotient_coordinate[of x1 cw] quotient_coordinate[of "x2 - x1" cw]
      quotient_coordinate[of y1 ch] quotient_coordinate[of "y2 - y1" ch]
    by (simp add: in_unit_range_def del: of_int_diff)
  have d: "rounded3 ?p" by (simp add: rounded3_def three_decimals_round3)
  have t: "within_tolerance ?p"
    using b quotient_pair[of x1 x2 cw] quotient_pair[of y1 y2 ch]
    by (simp add: within_tolerance_def del: of_int_diff)
  show "\<exists>p. magi_normalize (PInt x1) (PInt y1) (PInt x2) (PInt y2) cw ch = Inr p \<and>
           in_unit_range p \<and> rounded3 p \<and> within_tolerance p"
    using r u d t by blast
qed

lemma stored_panel_bounds_example:
  "add_normalized_panel_to_page [] 100 100 200 400 533 800 =
     Inr ([\<lparr>panel_x = 188 / 1000, panel_y = 125 / 1000, panel_w = 375 / 1000, panel_h = 1 / 2\<rparr>], 1)
   \<and> in_unit_range \<lparr>panel_x = 188 / 1000, panel_y = 125 / 1000, panel_w = 375 / 1000, panel_h = 1 / 2\<rparr>
   \<and> within_tolerance \<lparr>panel_x = 188 / 1000, panel_y = 125 / 1000, panel_w = 375 / 1000, panel_h = 1 / 2\<rparr>
   \<and> magi_normalize (PInt 100) (PInt 100) (PInt 300) (PInt 500) 533 800 =
     Inr \<lparr>panel_x = 188 / 1000, panel_y = 125 / 1000, panel_w = 375 / 1000, panel_h = 1 / 2\<rparr>"
proof -
  have e1: "add_normalized_panel_to_page [] 100 100 200 400 533 800 =
     Inr ([\<lparr>panel_x = 188 / 1000, panel_y = 125 / 1000, panel_w = 375 / 1000, panel_h = 1 / 2\<rparr>], 1)"
    by code_simp
  have e2: "magi_normalize (PInt 100) (PInt 100) (PInt 300) (PInt 500) 533 800 =
     Inr \<lparr>panel_x = 188 / 1000, panel_y = 125 / 1000, panel_w = 375 / 1000, panel_h = 1 / 2\<rparr>"
    by code_simp
  from stored_panel_bounds[of 533 800 "[]" 100 100 200 400 100 300 533 100 500 800]
  show ?thesis unfolding e1 e2 by simp
qed

section \<open>Claims about normalisation\<close>

text \<open>
  C1. The claim gives the divisors of a resized image as the exact floors
  \<open>\<lfloor>origW * 800 / max\<rfloor>\<close> and \<open>\<lfloor>origH * 800 / max\<rfloor>\<close>. The code multiplies by the float
  \<^verbatim>\<open>800 / max\<close> and truncates; for a 1078 by 1078 image the product is just below 800 and the
  divisors are 799 by 799, where the exact floors are 800 by 800. The example of the claim
  (1600 by 2400) and the branch for small images are \<open>magi_coord_size_example\<close>,
  \<open>magi_normalize_example\<close> and \<open>magi_coord_size_not_resized\<close>.
\<close>

theorem C1_scaled_size_truncated:
  "magi_coord_size 1078 1078 = (799, 799) \<and>
   (\<lfloor>1078 * 800 / 1078 :: rat\<rfloor>, \<lfloor>1078 * 800 / 1078 :: rat\<rfloor>) = (800, 800)"
  by code_simp

text \<open>
  C2. Every panel of a written document is claimed to lie in \<open>[0, 1]\<close>, clamped and rounded
  to three decimals. \<^verbatim>\<open>add_normalized_panel_to_page\<close> does clamp, but it is called only
  from \<^verbatim>\<open>combine_htmls_to_json\<close>, which nothing calls. The aggregator of
  \<^verbatim>\<open>Magi/process_manga.py\<close> divides under the comment \<^verbatim>\<open>Normalize to 0-1 range\<close> and
  rounds, without a clamp. An image whose size cannot be
  read gets the fallback size 800 by 1200, hence the divisors 533 by 800, and a box that is
  800 wide is stored with width 1.501, where \<^verbatim>\<open>add_normalized_panel_to_page\<close> stores 1. A
  1078 by 1078 image gets the divisors 799 by 799, so the box \<^verbatim>\<open>[0, 0, 800, 800]\<close> of the
  whole page, as the detector sees it, is stored with width and height 1.001. The Kumiko
  aggregator neither clamps nor rounds: on a 300 by 300 page the box \<^verbatim>\<open>[100, 0, 900, 150]\<close>
  is stored with \<open>x\<close> the float nearest to \<open>1/3\<close> and \<open>w = 3\<close>.
\<close>

theorem C2_magi_panel_unclamped:
  "magi_coord_size 800 1200 = (533, 800) \<and>
   magi_normalize (PInt 0) (PInt 0) (PInt 800) (PInt 400) 533 800 =
     Inr \<lparr>panel_x = 0, panel_y = 0, panel_w = 1501 / 1000, panel_h = 1 / 2\<rparr> \<and>
   \<not> in_unit_range \<lparr>panel_x = 0, panel_y = 0, panel_w = 1501 / 1000, panel_h = 1 / 2\<rparr> \<and>
   add_normalized_panel_to_page [] 0 0 800 400 533 800 =
     Inr ([\<lparr>panel_x = 0, panel_y = 0, panel_w = 1, panel_h = 1 / 2\<rparr>], 1) \<and>
   (case process_with_magi True
           (\<lambda>p. Inr (0, Some (Json_file (Page_dict \<lparr>filename = None, page_no = None,
                image_size = None,
                raw_panels = Some [Box [PInt 0, PInt 0, PInt 800, PInt 800]]\<rparr>))))
           (\<lambda>p. No_fault) Map.empty
           (Dir ''vol'' [File ''01.jpg'' (Image_file 1078 1078)])
           Map.empty of
      Inr (ok, out') \<Rightarrow>
        ok \<and> out' ''vol.json'' =
          Some (Chapter_file \<lparr>reading_direction = ''rtl'', total_pages = 1,
                  pages = [\<lparr>page = 1, image_name = ''01.jpg'',
                            panels = [\<lparr>panel_x = 0, panel_y = 0, panel_w = 1001 / 1000,
                                       panel_h = 1001 / 1000\<rparr>]\<rparr>]\<rparr>)
    | Inl e \<Rightarrow> False) \<and>
   \<not> in_unit_range \<lparr>panel_x = 0, panel_y = 0, panel_w = 1001 / 1000, panel_h = 1001 / 1000\<rparr> \<and>
   (case combine_jsons_to_json No_fault
          [''01.json'' \<mapsto> Json_file (Page_list [\<lparr>filename = Some ''01.jpg'', page_no = None,
               image_size = Some (PInt 300, PInt 300),
               raw_panels = Some [Box [PInt 100, PInt 0, PInt 900, PInt 150]]\<rparr>])]
          Map.empty [''01.json''] ''vol.json'' of
      (ok, out') \<Rightarrow>
        ok \<and> out' ''vol.json'' =
          Some (Kumiko_file \<lparr>k_reading_direction = ''rtl'', k_total_pages = 1,
                  k_pages = [\<lparr>k_page = 1, k_image = Some ''01.jpg'',
                              k_panels = [\<lparr>panel_x = fl (1 / 3), panel_y = 0, panel_w = 3,
                                           panel_h = 1 / 2\<rparr>]\<rparr>]\<rparr>)) \<and>
   \<not> in_unit_range \<lparr>panel_x = fl (1 / 3), panel_y = 0, panel_w = 3, panel_h = 1 / 2\<rparr> \<and>
   \<not> rounded3 \<lparr>panel_x = fl (1 / 3), panel_y = 0, panel_w = 3, panel_h = 1 / 2\<rparr>"
  by code_simp


section \<open>Claims about archives\<close>

lemma zip_detection_dispatch:
  assumes "detect_file_type file_result = Inr (Some ''zip'')"
  shows "hd (invoked (extract_archive file_result run archive)) = ZipFile_extractall"
  using assms by (simp add: extract_archive_def attempt_def failed_def split: option.splits)

lemma gzip_detection_dispatch:
  assumes "detect_file_type file_result = Inr (Some ''gzip'')"
  shows "hd (invoked (extract_archive file_result run archive)) = Tar_xzf"
  using assms by (simp add: extract_archive_def attempt_def failed_def split: option.splits)

text \<open>
  C7. The claim dispatches on the detected format whatever the extension is. The branches
  for rar, 7z and tar test the extension, not the detected type: a RAR archive named
  \<^verbatim>\<open>book.cbz\<close> is detected as rar and then rejected as an unsupported format, and no tool is
  run. The zip and gzip branches do test the detected type (\<open>zip_detection_dispatch\<close>,
  \<open>gzip_detection_dispatch\<close>).
\<close>

theorem C7_detected_rar_not_dispatched:
  "detect_file_type (Inr ''book.cbz: RAR archive data, v5'') = Inr (Some ''rar'') \<and>
   extract_archive (Inr ''book.cbz: RAR archive data, v5'') (\<lambda>c. None) ''book.cbz'' =
     \<lparr>invoked = [], printed = [Unsupported_archive_format], returned = Inr False\<rparr>"
  by code_simp

lemma rar_failures_distinguished:
  "extract_archive (Inr ''a.rar: RAR archive data, v5'') (\<lambda>c. Some FileNotFoundError) ''a.rar'' =
     \<lparr>invoked = [Unrar_x], printed = [Command_not_found_install ''unrar''],
      returned = Inr False\<rparr> \<and>
   extract_archive (Inr ''a.rar: RAR archive data, v5'') (\<lambda>c. Some CalledProcessError) ''a.rar'' =
     \<lparr>invoked = [Unrar_x], printed = [Failed_to_extract Unrar_x], returned = Inr False\<rparr>"
  by code_simp

lemma sevenzip_failures_distinguished:
  "extract_archive (Inr ''a.7z: 7-zip archive data'') (\<lambda>c. Some FileNotFoundError) ''a.7z'' =
     \<lparr>invoked = [SevenZip_x], printed = [Command_not_found_install ''p7zip''],
      returned = Inr False\<rparr> \<and>
   extract_archive (Inr ''a.7z: 7-zip archive data'') (\<lambda>c. Some CalledProcessError) ''a.7z'' =
     \<lparr>invoked = [SevenZip_x], printed = [Failed_to_extract SevenZip_x], returned = Inr False\<rparr>"
  by code_simp

text \<open>
  C8. For rar and 7z both failure kinds are caught and reported apart
  (\<open>rar_failures_distinguished\<close>, \<open>sevenzip_failures_distinguished\<close>). The tar branch has no
  handler for a missing binary: with \<^verbatim>\<open>tar\<close> absent, \<^verbatim>\<open>FileNotFoundError\<close> leaves
  \<^verbatim>\<open>extract_archive\<close> and nothing is printed, while a failing \<^verbatim>\<open>tar\<close> is caught.
\<close>

theorem C8_tar_missing_binary_propagates:
  "extract_archive (Inr ''a.tar: POSIX tar archive (GNU)'')
       (\<lambda>c. if c = Tar_xf then Some FileNotFoundError else None) ''a.tar'' =
     \<lparr>invoked = [Tar_xf], printed = [], returned = Inl FileNotFoundError\<rparr> \<and>
   extract_archive (Inr ''a.tar: POSIX tar archive (GNU)'')
       (\<lambda>c. if c = Tar_xf then Some CalledProcessError else None) ''a.tar'' =
     \<lparr>invoked = [Tar_xf], printed = [Failed_to_extract Tar_xf], returned = Inr False\<rparr>"
  by code_simp

section \<open>Claims about the classifier\<close>

lemma classifier_agreement:
  assumes "is_dir folder"
    and "length (filter is_dir (iterdir folder)) = 1 \<longrightarrow>
           list_ex (\<lambda>d. is_dir d \<and> has_images cs d) (iterdir (hd (filter is_dir (iterdir folder))))"
  shows "is_chapter_based_archive cs folder = classify_as_specified cs folder"
  using assms by (simp add: is_chapter_based_archive_def classify_as_specified_def Let_def)

text \<open>
  C3. The threshold is the one of the claim, and the classifier agrees with the claim on
  every folder that does not have exactly one subdirectory, and on every folder whose single
  subdirectory has subdirectories holding images (\<open>classifier_agreement\<close>). But the code
  enters a single subdirectory unconditionally: a volume with one chapter directory of two
  images is classified from inside that chapter, where there is no chapter directory, so it
  is flat; the claim makes it chapter-based (one chapter directory, no loose image).
\<close>

theorem C3_single_chapter_entered:
  "is_chapter_based_archive True
     (Dir ''vol'' [Dir ''ch1'' [File ''01.jpg'' (Image_file 800 1200),
                                File ''02.jpg'' (Image_file 800 1200)]]) = False \<and>
   classify_as_specified True
     (Dir ''vol'' [Dir ''ch1'' [File ''01.jpg'' (Image_file 800 1200),
                                File ''02.jpg'' (Image_file 800 1200)]]) = True"
  by code_simp

section \<open>Claims about image enumeration\<close>

lemma collected_patterns:
  "concat (map (\<lambda>ext. rglob cs listing ext @ rglob cs listing (upper ext)) image_extensions)
     = concat (map (rglob cs listing) image_patterns)"
  by (simp add: image_extensions_def image_patterns_def)

lemma image_patterns_distinct: "distinct image_patterns"
  by code_simp

lemma image_patterns_no_suffix:
  "\<forall>a\<in>set image_patterns. \<forall>b\<in>set image_patterns. suffix a b \<longrightarrow> a = b"
  by code_simp

lemma image_patterns_exclusive:
  assumes "a \<in> set image_patterns" "b \<in> set image_patterns" "suffix a n" "suffix b n"
  shows "a = b"
proof -
  from suffix_same_cases[OF assms(3,4)] have "suffix a b \<or> suffix b a" .
  then show ?thesis using image_patterns_no_suffix assms(1,2) by blast
qed

lemma distinct_concat_filters:
  assumes "distinct xs" "distinct pats"
    and "\<And>a b x. a \<in> set pats \<Longrightarrow> b \<in> set pats \<Longrightarrow> P a x \<Longrightarrow> P b x \<Longrightarrow> a = b"
  shows "distinct (concat (map (\<lambda>pat. filter (P pat) xs) pats))"
  using assms(2,3)
proof (induction pats)
  case Nil
  then show ?case by simp
next
  case (Cons a pats)
  have "distinct (concat (map (\<lambda>pat. filter (P pat) xs) pats))"
    using Cons by simp
  moreover have "set (filter (P a) xs) \<inter> set (concat (map (\<lambda>pat. filter (P pat) xs) pats)) = {}"
  proof (rule ccontr)
    assume "\<not> ?thesis"
    then obtain x b where "P a x" "b \<in> set pats" "P b x" by auto
    then have "a = b" using Cons.prems(2)[of a b x] by simp
    then show False using Cons.prems(1) \<open>b \<in> set pats\<close> by simp
  qed
  ultimately show ?case using assms(1) by simp
qed

lemma mset_concat_filters:
  "mset (concat (map (\<lambda>pat. filter (P pat) xs) pats))
     = (\<Sum>pat\<leftarrow>pats. filter_mset (P pat) (mset xs))"
  by (induction pats) simp_all

lemma sort_mset_cong:
  fixes xs ys :: "'a::linorder list"
  assumes "mset xs = mset ys"
  shows "sort xs = sort ys"
  by (rule properties_for_sort) (simp_all add: assms)

lemma collect_image_files_posix:
  "collect_image_files True listing =
     sort (concat (map (\<lambda>pat. filter (\<lambda>p. suffix pat (last p)) listing) image_patterns))"
proof -
  have k: "path_key True = (\<lambda>p. p)" by (simp add: path_key_def fun_eq_iff)
  have r: "rglob True listing = (\<lambda>pat. filter (\<lambda>p. suffix pat (last p)) listing)"
    by (simp add: rglob_def name_matches_def fun_eq_iff)
  have "collect_image_files True listing =
      sort (concat (map (rglob True listing) image_patterns))"
    unfolding collect_image_files_def collected_patterns k ..
  then show ?thesis unfolding r .
qed

text \<open>
  The images of a chapter (\<^verbatim>\<open>chapter_dir.glob\<close>, lines 730 to 739) are collected in the same
  way, from the entries of the chapter directory alone.
\<close>

lemma chapter_images_collect:
  "chapter_images cs chapter_dir =
     collect_image_files cs
       (map (\<lambda>n. [node_name chapter_dir, node_name n]) (iterdir chapter_dir))"
  by (simp add: chapter_images_def collect_image_files_def rglob_def glob_ext_def
      filter_map comp_def)

text \<open>
  With case-sensitive matching the collected list is sorted in the order of paths, it holds
  exactly the listed entries whose name ends with one of the twelve patterns, each once
  when the listing has no duplicates, and it does not depend on the order in which the
  directory is listed.
\<close>

lemma collect_image_files_properties:
  "sorted (collect_image_files True listing) \<and>
   set (collect_image_files True listing) =
     {p \<in> set listing. \<exists>pat\<in>set image_patterns. suffix pat (last p)} \<and>
   (distinct listing \<longrightarrow> distinct (collect_image_files True listing)) \<and>
   (mset listing' = mset listing \<longrightarrow>
      collect_image_files True listing' = collect_image_files True listing)"
proof (intro conjI impI)
  show "sorted (collect_image_files True listing)"
    by (simp add: collect_image_files_posix)
  show "set (collect_image_files True listing) =
     {p \<in> set listing. \<exists>pat\<in>set image_patterns. suffix pat (last p)}"
    by (auto simp: collect_image_files_posix)
  show "distinct (collect_image_files True listing)" if "distinct listing"
    unfolding collect_image_files_posix distinct_sort
    by (rule distinct_concat_filters[OF that image_patterns_distinct])
       (rule image_patterns_exclusive)
  show "collect_image_files True listing' = collect_image_files True listing"
    if "mset listing' = mset listing"
    unfolding collect_image_files_posix
    by (rule sort_mset_cong) (simp add: mset_concat_filters that)
qed

lemma collect_image_files_example:
  "distinct [[''b.png''], [''a.JPG''], [''a.Jpg'']] \<and>
   mset [[''a.Jpg''], [''a.JPG''], [''b.png'']] = mset [[''b.png''], [''a.JPG''], [''a.Jpg'']] \<and>
   collect_image_files True [[''b.png''], [''a.JPG''], [''a.Jpg'']] = [[''a.JPG''], [''b.png'']] \<and>
   collect_image_files True [[''a.Jpg''], [''a.JPG''], [''b.png'']] = [[''a.JPG''], [''b.png'']] \<and>
   distinct (collect_image_files True [[''b.png''], [''a.JPG''], [''a.Jpg'']])"
proof -
  have m: "mset [[''a.Jpg''], [''a.JPG''], [''b.png'']] = mset [[''b.png''], [''a.JPG''], [''a.Jpg'']]"
    by (simp add: add.commute)
  have d: "distinct [[''b.png''], [''a.JPG''], [''a.Jpg'']]" by simp
  have e: "collect_image_files True [[''b.png''], [''a.JPG''], [''a.Jpg'']] = [[''a.JPG''], [''b.png'']]"
    by code_simp
  from collect_image_files_properties[of "[[''b.png''], [''a.JPG''], [''a.Jpg'']]" "[[''a.Jpg''], [''a.JPG''], [''b.png'']]"]
  show ?thesis using m d e by simp
qed

text \<open>
  C6. The enumeration tries a lower-case and an upper-case pattern for each extension, and
  nothing removes duplicates. With case-sensitive matching \<^verbatim>\<open>a.Jpg\<close> matches neither
  pattern and is not collected; with case-insensitive matching \<^verbatim>\<open>a.jpg\<close> matches both and
  is listed twice. The test for loose images of \<^verbatim>\<open>is_chapter_based_archive\<close> does fold the
  case (\<^verbatim>\<open>item.suffix.lower()\<close>): three files \<^verbatim>\<open>.Jpg\<close> beside one chapter directory count
  as images and make the folder flat, and the enumeration of that flat folder leaves the
  three files out.
\<close>

theorem C6_mixed_case_extension_dropped:
  "enumerate_images True (Dir ''vol'' [File ''a.Jpg'' (Image_file 800 1200)]) = [] \<and>
   enumerate_images False (Dir ''vol'' [File ''a.jpg'' (Image_file 800 1200)])
     = [[''a.jpg''], [''a.jpg'']] \<and>
   is_chapter_based_archive True
     (Dir ''vol'' [Dir ''x'' [Dir ''ch1'' [File ''01.jpg'' (Image_file 800 1200)]]]) = True \<and>
   is_chapter_based_archive True
     (Dir ''vol'' [Dir ''x'' [File ''a.Jpg'' (Image_file 800 1200),
                              File ''b.Jpg'' (Image_file 800 1200),
                              File ''c.Jpg'' (Image_file 800 1200),
                              Dir ''ch1'' [File ''01.jpg'' (Image_file 800 1200)]]]) = False \<and>
   enumerate_images True
     (Dir ''vol'' [Dir ''x'' [File ''a.Jpg'' (Image_file 800 1200),
                              File ''b.Jpg'' (Image_file 800 1200),
                              File ''c.Jpg'' (Image_file 800 1200),
                              Dir ''ch1'' [File ''01.jpg'' (Image_file 800 1200)]]])
     = [[''x'', ''ch1'', ''01.jpg'']]"
  by code_simp


section \<open>Facts about the aggregation of a unit\<close>

lemma process_image_with_magi_result:
  "process_image_with_magi (run p) p t =
     Inr ((detected (run p), if detected (run p) then Some (result_file p) else None),
          store_results run [p] t)"
  by (cases "run p" rule: detected.cases)
     (auto simp: process_image_with_magi_def result_file_def Let_def)

lemma store_results_keeps: "t j \<noteq> None \<Longrightarrow> store_results run ps t j \<noteq> None"
  by (induction ps arbitrary: t) (auto split: sum.splits option.splits)

lemma store_results_append:
  "store_results run (ps @ qs) t = store_results run qs (store_results run ps t)"
  by (induction ps arbitrary: t) simp_all

lemma store_results_detected:
  "p \<in> set ps \<Longrightarrow> detected (run p) \<Longrightarrow> store_results run ps t (result_file p) \<noteq> None"
proof (induction ps arbitrary: t)
  case Nil
  then show ?case by simp
next
  case (Cons q ps)
  show ?case
  proof (cases "p = q")
    case True
    with Cons.prems(2) obtain c where "run q = Inr (0, Some c)"
      by (cases "run q" rule: detected.cases) auto
    then show ?thesis using True by (simp add: store_results_keeps)
  next
    case False
    with Cons show ?thesis by simp
  qed
qed

lemma magi_image_loop_result:
  "magi_image_loop run ps t acc =
     Inr (acc @ map result_file (detected_images run ps), store_results run ps t)"
proof (induction ps arbitrary: t acc)
  case Nil
  then show ?case by (simp add: detected_images_def)
next
  case (Cons p ps)
  show ?case
  proof (cases "detected (run p)")
    case True
    have pi: "process_image_with_magi (run p) p t =
        Inr ((True, Some (result_file p)), store_results run [p] t)"
      using process_image_with_magi_result[of run p t] True by simp
    have ex: "store_results run [p] t (result_file p) \<noteq> None"
      using True by (intro store_results_detected) simp_all
    have st: "store_results run (p # ps) t = store_results run ps (store_results run [p] t)"
      using store_results_append[of run "[p]" ps t] by simp
    have "magi_image_loop run (p # ps) t acc =
        magi_image_loop run ps (store_results run [p] t) (acc @ [result_file p])"
      using ex by (simp only: magi_image_loop.simps pi sum.case prod.case option.case) simp
    also have "\<dots> = Inr ((acc @ [result_file p]) @ map result_file (detected_images run ps),
        store_results run ps (store_results run [p] t))"
      by (rule Cons.IH)
    finally show ?thesis using True st by (simp add: detected_images_def)
  next
    case False
    then have s: "store_results run [p] t = t"
      by (cases "run p" rule: detected.cases) auto
    have "process_image_with_magi (run p) p t = Inr ((False, None), t)"
      using process_image_with_magi_result[of run p t] False s by simp
    moreover have "store_results run (p # ps) t = store_results run ps t"
      using s store_results_append[of run "[p]" ps t] by simp
    ultimately show ?thesis
      using Cons.IH[of t acc] False
      by (simp only: magi_image_loop.simps sum.case prod.case option.case)
         (simp add: detected_images_def)
  qed
qed

lemma enumerate1_length [simp]: "length (enumerate1 xs) = length xs"
  by (simp add: enumerate1_def)

lemma enumerate1_eq_Nil [simp]: "enumerate1 xs = [] \<longleftrightarrow> xs = []"
  by (metis enumerate1_length length_0_conv)

lemma map_fst_enumerate1: "map fst (enumerate1 xs) = [1..int (length xs)]"
  by (simp add: enumerate1_def)

lemma combine_existing:
  assumes "\<forall>j\<in>set json_files. t j \<noteq> None" "json_files \<noteq> []"
  shows "combine_jsons_to_final_json fault t folder out json_files output_json =
     write_json fault out output_json
       (Chapter_file \<lparr>reading_direction = ''rtl'',
                      total_pages = int (length json_files),
                      pages = map (\<lambda>(page_num, json_file). magi_page t folder page_num json_file)
                                (enumerate1 (sort json_files))\<rparr>)"
proof -
  have f: "filter (\<lambda>j. t j \<noteq> None) json_files = json_files"
    using assms(1) by (simp add: filter_id_conv)
  have "sort json_files \<noteq> []"
    using assms(2) by (metis length_sort length_0_conv)
  then show ?thesis
    unfolding combine_jsons_to_final_json_def f Let_def using assms(2) by simp
qed

text \<open>What \<^verbatim>\<open>process_with_magi\<close> computes, in one equation.\<close>

lemma process_with_magi_result:
  fixes cs run faults t folder out
  defines "found \<equiv> detected_images run (enumerate_images cs folder)"
    and "t' \<equiv> store_results run (enumerate_images cs folder) t"
    and "output_json \<equiv> node_name folder @ ''.json''"
  shows "process_with_magi cs run faults t folder out =
     Inr (if found = [] then (False, out)
          else write_json (faults output_json) out output_json
                 (Chapter_file \<lparr>reading_direction = ''rtl'',
                                total_pages = int (length found),
                                pages = map (\<lambda>(page_num, json_file).
                                               magi_page t' folder page_num json_file)
                                          (enumerate1 (sort (map result_file found)))\<rparr>))"
proof (cases "found = []")
  case True
  then show ?thesis
    unfolding found_def
    by (simp add: process_with_magi_def magi_image_loop_result Let_def detected_images_def)
next
  case False
  then have ne: "enumerate_images cs folder \<noteq> []"
    unfolding found_def detected_images_def by auto
  have ex: "\<forall>j\<in>set (map result_file found). t' j \<noteq> None"
  proof
    fix j assume "j \<in> set (map result_file found)"
    then obtain p where p: "p \<in> set (enumerate_images cs folder)" "detected (run p)"
      "j = result_file p"
      unfolding found_def detected_images_def by auto
    show "t' j \<noteq> None"
      unfolding t'_def p(3) using p(1,2) by (rule store_results_detected)
  qed
  have "process_with_magi cs run faults t folder out =
      Inr (combine_jsons_to_final_json (faults output_json) t' folder out
             (map result_file found) output_json)"
    using False ne unfolding found_def t'_def output_json_def
    by (simp add: process_with_magi_def magi_image_loop_result Let_def)
  also have "combine_jsons_to_final_json (faults output_json) t' folder out
             (map result_file found) output_json =
      write_json (faults output_json) out output_json
        (Chapter_file \<lparr>reading_direction = ''rtl'',
                       total_pages = int (length (map result_file found)),
                       pages = map (\<lambda>(page_num, json_file).
                                      magi_page t' folder page_num json_file)
                                 (enumerate1 (sort (map result_file found)))\<rparr>)"
    using False by (intro combine_existing[OF ex]) simp
  finally show ?thesis using False by simp
qed

lemma magi_page_number [simp]: "page (magi_page t folder k j) = k"
  by (simp add: magi_page_def split: sum.splits)

lemma page_numbers:
  "map page (map (\<lambda>(page_num, json_file). magi_page t folder page_num json_file) (enumerate1 xs))
     = [1..int (length xs)]"
proof -
  have "map page (map (\<lambda>(page_num, json_file). magi_page t folder page_num json_file) (enumerate1 xs))
      = map fst (enumerate1 xs)"
    by (simp add: case_prod_unfold)
  then show ?thesis by (simp add: map_fst_enumerate1)
qed









text \<open>
  The result file of an image is named after the stem of the image alone. Two images with
  the same stem, here in two subfolders, share one result file: the second detection
  replaces the result of the first, and both pages are made from it. The name of the image
  is looked up in the folder itself with the extensions \<^verbatim>\<open>.jpg\<close>, \<^verbatim>\<open>.jpeg\<close> and \<^verbatim>\<open>.png\<close>, and
  is \<^verbatim>\<open>{stem}.jpg\<close> when nothing is found there.
\<close>

lemma same_stem_results_collide:
  "enumerate_images True
     (Dir ''vol'' [Dir ''c1'' [File ''01.png'' (Image_file 800 1200)],
                   Dir ''c2'' [File ''01.png'' (Image_file 800 1200)]])
     = [[''c1'', ''01.png''], [''c2'', ''01.png'']] \<and>
   (case process_with_magi True
           (\<lambda>p. if hd p = ''c1''
                then Inr (0, Some (Json_file (Page_dict \<lparr>filename = None, page_no = None,
                                     image_size = None, raw_panels = Some []\<rparr>)))
                else Inr (0, Some (Json_file (Page_dict \<lparr>filename = None, page_no = None,
                                     image_size = None,
                                     raw_panels = Some [Box [PInt 0, PInt 0, PInt 400, PInt 600]]\<rparr>))))
           (\<lambda>p. No_fault) Map.empty
           (Dir ''vol'' [Dir ''c1'' [File ''01.png'' (Image_file 800 1200)],
                         Dir ''c2'' [File ''01.png'' (Image_file 800 1200)]])
           Map.empty of
      Inr (ok, out') \<Rightarrow>
        ok \<and> out' ''vol.json'' =
          Some (Chapter_file \<lparr>reading_direction = ''rtl'', total_pages = 2,
                  pages = [\<lparr>page = 1, image_name = ''01.jpg'',
                            panels = [\<lparr>panel_x = 0, panel_y = 0, panel_w = 3 / 4,
                                       panel_h = 3 / 4\<rparr>]\<rparr>,
                           \<lparr>page = 2, image_name = ''01.jpg'',
                            panels = [\<lparr>panel_x = 0, panel_y = 0, panel_w = 3 / 4,
                                       panel_h = 3 / 4\<rparr>]\<rparr>]\<rparr>)
    | Inl e \<Rightarrow> False)"
  by code_simp

text \<open>
  A timeout or any other exception of the detection call makes \<^verbatim>\<open>process_image_with_magi\<close>
  return \<^verbatim>\<open>(False, None)\<close>, and \<^verbatim>\<open>process_with_magi\<close> always returns. When it reports
  success, the document at the output path has one page for each image whose detection
  succeeded, the pages are numbered 1 to N without gaps, \<^verbatim>\<open>total_pages\<close> is N, and the pages
  follow the ascending order of the names of the result files.
\<close>

lemma magi_skips_and_numbering:
  "(\<forall>e. process_image_with_magi (Inl e) image_path temp_json_dir = Inr ((False, None), temp_json_dir)) \<and>
   (\<exists>ok out'. process_with_magi cs run faults temp_json_dir folder_path out = Inr (ok, out') \<and>
      (ok \<longrightarrow>
        (\<exists>doc. out' (node_name folder_path @ ''.json'') = Some (Chapter_file doc) \<and>
           length (pages doc) = length (detected_images run (enumerate_images cs folder_path)) \<and>
           map page (pages doc) = [1..int (length (pages doc))] \<and>
           total_pages doc = int (length (pages doc)) \<and>
           pages doc =
             map (\<lambda>(page_num, json_file).
                    magi_page (store_results run (enumerate_images cs folder_path) temp_json_dir)
                      folder_path page_num json_file)
               (enumerate1 (sort (map result_file
                  (detected_images run (enumerate_images cs folder_path))))))))"
proof (intro conjI allI)
  fix e
  show "process_image_with_magi (Inl e) image_path temp_json_dir = Inr ((False, None), temp_json_dir)"
    by (simp add: process_image_with_magi_def)
next
  let ?found = "detected_images run (enumerate_images cs folder_path)"
  let ?t = "store_results run (enumerate_images cs folder_path) temp_json_dir"
  let ?oj = "node_name folder_path @ ''.json''"
  let ?pages = "map (\<lambda>(page_num, json_file). magi_page ?t folder_path page_num json_file)
                  (enumerate1 (sort (map result_file ?found)))"
  let ?doc = "\<lparr>reading_direction = ''rtl'', total_pages = int (length ?found), pages = ?pages\<rparr>"
  have r: "process_with_magi cs run faults temp_json_dir folder_path out =
     Inr (if ?found = [] then (False, out)
          else write_json (faults ?oj) out ?oj (Chapter_file ?doc))"
    by (rule process_with_magi_result)
  have n: "map page ?pages = [1..int (length ?pages)]"
    using page_numbers[of ?t folder_path "sort (map result_file ?found)"] by simp
  show "\<exists>ok out'. process_with_magi cs run faults temp_json_dir folder_path out = Inr (ok, out') \<and>
      (ok \<longrightarrow>
        (\<exists>doc. out' ?oj = Some (Chapter_file doc) \<and>
           length (pages doc) = length ?found \<and>
           map page (pages doc) = [1..int (length (pages doc))] \<and>
           total_pages doc = int (length (pages doc)) \<and>
           pages doc = ?pages))"
  proof (cases "?found = [] \<or> faults ?oj \<noteq> No_fault")
    case True
    then have "\<exists>out'. process_with_magi cs run faults temp_json_dir folder_path out = Inr (False, out')"
      unfolding r by (cases "faults ?oj") (auto simp: write_json_def)
    then show ?thesis by auto
  next
    case False
    then have "process_with_magi cs run faults temp_json_dir folder_path out =
        Inr (True, out(?oj \<mapsto> Chapter_file ?doc))"
      unfolding r by (simp add: write_json_def)
    moreover have "length (pages ?doc) = length ?found" by simp
    moreover have "map page (pages ?doc) = [1..int (length (pages ?doc))]"
      using n by simp
    moreover have "total_pages ?doc = int (length (pages ?doc))" by simp
    ultimately show ?thesis by (intro exI[of _ True] exI[of _ "out(?oj \<mapsto> Chapter_file ?doc)"] conjI impI exI[of _ ?doc]) simp_all
  qed
qed

lemma magi_skips_and_numbering_example:
  "(case process_with_magi True
           (\<lambda>p. if p = [''03.jpg''] then Inl TimeoutExpired
                else Inr (0, Some (Json_file (Page_dict \<lparr>filename = None, page_no = None,
                                     image_size = None, raw_panels = Some []\<rparr>))))
           (\<lambda>p. No_fault) Map.empty
           (Dir ''vol'' [File ''01.jpg'' (Image_file 800 1200), File ''02.jpg'' (Image_file 800 1200),
                         File ''03.jpg'' (Image_file 800 1200), File ''04.jpg'' (Image_file 800 1200),
                         File ''05.jpg'' (Image_file 800 1200)])
           Map.empty of
      Inr (ok, out') \<Rightarrow>
        ok \<and> out' ''vol.json'' =
          Some (Chapter_file \<lparr>reading_direction = ''rtl'', total_pages = 4,
                  pages = [\<lparr>page = 1, image_name = ''01.jpg'', panels = []\<rparr>,
                           \<lparr>page = 2, image_name = ''02.jpg'', panels = []\<rparr>,
                           \<lparr>page = 3, image_name = ''04.jpg'', panels = []\<rparr>,
                           \<lparr>page = 4, image_name = ''05.jpg'', panels = []\<rparr>]\<rparr>)
    | Inl e \<Rightarrow> False)"
proof -
  have e: ?thesis by code_simp
  from magi_skips_and_numbering[where image_path="[''03.jpg'']" and temp_json_dir=Map.empty
      and cs=True and run="\<lambda>p. if p = [''03.jpg''] then Inl TimeoutExpired
                else Inr (0, Some (Json_file (Page_dict \<lparr>filename = None, page_no = None,
                                     image_size = None, raw_panels = Some []\<rparr>)))"
      and faults="\<lambda>p. No_fault" and out=Map.empty
      and folder_path="Dir ''vol'' [File ''01.jpg'' (Image_file 800 1200), File ''02.jpg'' (Image_file 800 1200),
                         File ''03.jpg'' (Image_file 800 1200), File ''04.jpg'' (Image_file 800 1200),
                         File ''05.jpg'' (Image_file 800 1200)]"]
  show ?thesis by - (rule e)
qed

section \<open>Facts about chapter-based archives\<close>

lemma chapter_step_result:
  "(let chapter_json = chapter_json_name folder_name (node_name c);
        temp_json_dir = temps (chapter_temp_name folder_name (node_name c));
        image_files = chapter_images cs c
    in if image_files = [] then Inr (False, out)
       else case magi_image_loop run image_files temp_json_dir [] of
              Inl e \<Rightarrow> Inl e
            | Inr (json_files, temp_json_dir') \<Rightarrow>
                if json_files = [] then Inr (False, out)
                else Inr (combine_jsons_to_final_json (faults chapter_json) temp_json_dir'
                            c out json_files chapter_json))
   = Inr (chapter_written cs run faults folder_name c,
          chapter_step cs run faults temps folder_name out c)"
proof (cases "chapter_found cs run c = []")
  case True
  then show ?thesis
    by (simp add: Let_def magi_image_loop_result chapter_found_def chapter_written_def
        chapter_step_def detected_images_def)
next
  case False
  let ?found = "chapter_found cs run c"
  let ?t = "store_results run (chapter_images cs c) (temps (chapter_temp_name folder_name (node_name c)))"
  let ?cj = "chapter_json_name folder_name (node_name c)"
  have ne: "chapter_images cs c \<noteq> []"
    using False unfolding chapter_found_def detected_images_def by auto
  have ex: "\<forall>j\<in>set (map result_file ?found). ?t j \<noteq> None"
  proof
    fix j assume "j \<in> set (map result_file ?found)"
    then obtain p where p: "p \<in> set (chapter_images cs c)" "detected (run p)" "j = result_file p"
      unfolding chapter_found_def detected_images_def by auto
    show "?t j \<noteq> None" unfolding p(3) using p(1,2) by (rule store_results_detected)
  qed
  have m: "map result_file ?found \<noteq> []" using False by simp
  have cmb: "combine_jsons_to_final_json (faults ?cj) ?t c out (map result_file ?found) ?cj =
      write_json (faults ?cj) out ?cj
        (Chapter_file (chapter_document_of cs run temps folder_name c))"
    unfolding chapter_document_of_def using combine_existing[OF ex m, of "faults ?cj" c out ?cj]
    by simp
  have w: "fst (write_json (faults ?cj) out ?cj d) = (faults ?cj = No_fault)" for d
    by (cases "faults ?cj") (simp_all add: write_json_def)
  show ?thesis
    using False ne m
    by (simp add: Let_def magi_image_loop_result cmb chapter_found_def[symmetric]
        chapter_written_def chapter_step_def w prod_eq_iff)
qed

lemma magi_chapter_loop_result:
  "magi_chapter_loop cs run faults temps folder_name cds n out =
     Inr (n + int (length (filter (chapter_written cs run faults folder_name) cds)),
          foldl (chapter_step cs run faults temps folder_name) out cds)"
proof (induction cds arbitrary: n out)
  case Nil
  then show ?case by simp
next
  case (Cons c cds)
  let ?w = "chapter_written cs run faults folder_name c"
  let ?o = "chapter_step cs run faults temps folder_name out c"
  have step: "magi_chapter_loop cs run faults temps folder_name (c # cds) n out =
      magi_chapter_loop cs run faults temps folder_name cds (if ?w then n + 1 else n) ?o"
  proof (cases "chapter_found cs run c = []")
    case True
    then have "chapter_images cs c = [] \<or> detected_images run (chapter_images cs c) = []"
      by (simp add: chapter_found_def)
    then show ?thesis
      using True
      by (auto simp: Let_def magi_image_loop_result chapter_written_def chapter_step_def
          detected_images_def)
  next
    case False
    have ne: "chapter_images cs c \<noteq> []"
      using False unfolding chapter_found_def detected_images_def by auto
    have m: "map result_file (detected_images run (chapter_images cs c)) \<noteq> []"
      using False by (simp add: chapter_found_def)
    from chapter_step_result[where folder_name=folder_name and c=c and temps=temps and cs=cs and out=out and run=run and faults=faults] ne m
    have "combine_jsons_to_final_json (faults (chapter_json_name folder_name (node_name c)))
            (store_results run (chapter_images cs c) (temps (chapter_temp_name folder_name (node_name c))))
            c out (map result_file (detected_images run (chapter_images cs c)))
            (chapter_json_name folder_name (node_name c)) = (?w, ?o)"
      by (simp add: Let_def magi_image_loop_result)
    then show ?thesis
      using ne m by (simp add: Let_def magi_image_loop_result)
  qed
  show ?case unfolding step Cons.IH by (simp add: )
qed


lemma chapter_json_name_inject [simp]:
  "chapter_json_name folder_name a = chapter_json_name folder_name b \<longleftrightarrow> a = b"
  by (simp add: chapter_json_name_def)

lemma chapter_json_not_master [simp]:
  "chapter_json_name folder_name a \<noteq> folder_name @ ''.json''"
  by (simp add: chapter_json_name_def)

lemma chapter_step_other:
  "q \<noteq> chapter_json_name folder_name (node_name c) \<Longrightarrow>
     chapter_step cs run faults temps folder_name out c q = out q"
  by (cases "faults (chapter_json_name folder_name (node_name c))")
     (simp_all add: chapter_step_def write_json_def)

lemma chapter_step_own:
  "chapter_step cs run faults temps folder_name out c (chapter_json_name folder_name (node_name c)) =
     (if chapter_written cs run faults folder_name c
      then Some (Chapter_file (chapter_document_of cs run temps folder_name c))
      else if chapter_found cs run c \<noteq> [] \<and>
              faults (chapter_json_name folder_name (node_name c)) = Write_fails
      then Some Truncated_file
      else out (chapter_json_name folder_name (node_name c)))"
  by (cases "faults (chapter_json_name folder_name (node_name c))")
     (simp_all add: chapter_step_def chapter_written_def write_json_def)

lemma chapter_steps_other:
  "\<forall>c\<in>set cds. chapter_json_name folder_name (node_name c) \<noteq> q \<Longrightarrow>
     foldl (chapter_step cs run faults temps folder_name) out cds q = out q"
proof (induction cds arbitrary: out)
  case Nil
  then show ?case by simp
next
  case (Cons c cds)
  have "foldl (chapter_step cs run faults temps folder_name) out (c # cds) q =
      chapter_step cs run faults temps folder_name out c q"
    using Cons by simp
  also have "\<dots> = out q" using Cons.prems by (intro chapter_step_other) auto
  finally show ?case .
qed

lemma distinct_names_head:
  assumes "distinct (map node_name (d # cds))" "e \<in> set cds"
  shows "node_name e \<noteq> node_name d"
proof
  assume "node_name e = node_name d"
  then have "node_name d \<in> node_name ` set cds" using assms(2) by (metis imageI)
  then show False using assms(1) by simp
qed

lemma chapter_steps_own:
  assumes "c \<in> set cds" "distinct (map node_name cds)"
  shows "foldl (chapter_step cs run faults temps folder_name) out cds
           (chapter_json_name folder_name (node_name c)) =
         chapter_step cs run faults temps folder_name out c
           (chapter_json_name folder_name (node_name c))"
  using assms
proof (induction cds arbitrary: out)
  case Nil
  then show ?case by simp
next
  case (Cons d cds)
  let ?q = "chapter_json_name folder_name (node_name c)"
  let ?step = "chapter_step cs run faults temps folder_name"
  show ?case
  proof (cases "node_name d = node_name c")
    case True
    have notin: "\<forall>e\<in>set cds. chapter_json_name folder_name (node_name e) \<noteq> ?q"
    proof
      fix e assume "e \<in> set cds"
      from distinct_names_head[OF Cons.prems(2) this]
      show "chapter_json_name folder_name (node_name e) \<noteq> ?q" using True by simp
    qed
    have "c = d"
    proof (rule ccontr)
      assume "c \<noteq> d"
      then have "c \<in> set cds" using Cons.prems(1) by simp
      from distinct_names_head[OF Cons.prems(2) this] show False using True by simp
    qed
    have "foldl ?step out (d # cds) ?q = ?step out d ?q"
      using chapter_steps_other[OF notin] by simp
    then show ?thesis using \<open>c = d\<close> by simp
  next
    case False
    then have cin: "c \<in> set cds" using Cons.prems(1) by auto
    have dist: "distinct (map node_name cds)" using Cons.prems(2) by simp
    have o: "?step out d ?q = out ?q"
      using False by (intro chapter_step_other) simp
    have "foldl ?step out (d # cds) ?q = ?step (?step out d) c ?q"
      using Cons.IH[OF cin dist] by simp
    also have "\<dots> = ?step out c ?q"
      unfolding chapter_step_own using o by simp
    finally show ?thesis .
  qed
qed

lemma index_entry_cases:
  "index_entry folder_name out c = [] \<or>
   (\<exists>n. index_entry folder_name out c =
      [\<lparr>entry_name = node_name c,
        entry_json_file = chapter_json_name folder_name (node_name c),
        entry_total_pages = n\<rparr>])"
proof (cases "load_total_pages out (chapter_json_name folder_name (node_name c))")
  case (Inl a)
  then show ?thesis by (simp add: index_entry_def Let_def)
next
  case (Inr b)
  then show ?thesis by (simp add: index_entry_def Let_def)
qed

lemma index_entry_names:
  assumes "e \<in> set (index_entry folder_name out c)"
  shows "entry_name e = node_name c"
  using index_entry_cases[of folder_name out c] assms by auto

lemma entries_of_chapter:
  assumes "c \<in> set cds" "distinct (map node_name cds)"
  shows "filter (\<lambda>e. entry_name e = node_name c) (concat (map (index_entry folder_name out) cds))
           = index_entry folder_name out c"
  using assms
proof (induction cds)
  case Nil
  then show ?case by simp
next
  case (Cons d cds)
  show ?case
  proof (cases "node_name d = node_name c")
    case True
    have "c = d"
    proof (rule ccontr)
      assume "c \<noteq> d"
      then have "c \<in> set cds" using Cons.prems(1) by simp
      from distinct_names_head[OF Cons.prems(2) this] show False using True by simp
    qed
    have rest: "filter (\<lambda>e. entry_name e = node_name c)
                  (concat (map (index_entry folder_name out) cds)) = []"
    proof -
      have "\<forall>e\<in>set (concat (map (index_entry folder_name out) cds)). entry_name e \<noteq> node_name c"
      proof
        fix e assume "e \<in> set (concat (map (index_entry folder_name out) cds))"
        then obtain d' where d': "d' \<in> set cds" "e \<in> set (index_entry folder_name out d')" by auto
        then have "entry_name e = node_name d'" by (simp add: index_entry_names)
        moreover have "node_name d' \<noteq> node_name c"
          using distinct_names_head[OF Cons.prems(2) d'(1)] True by simp
        ultimately show "entry_name e \<noteq> node_name c" by simp
      qed
      then show ?thesis by (simp add: filter_empty_conv)
    qed
    have own: "filter (\<lambda>e. entry_name e = node_name c) (index_entry folder_name out d)
             = index_entry folder_name out d"
      using True by (simp add: filter_id_conv index_entry_names)
    show ?thesis using rest own \<open>c = d\<close> by simp
  next
    case False
    then have cin: "c \<in> set cds" using Cons.prems(1) by auto
    have "filter (\<lambda>e. entry_name e = node_name c) (index_entry folder_name out d) = []"
      using False by (auto simp: filter_empty_conv dest: index_entry_names)
    then show ?thesis using Cons.IH[OF cin] Cons.prems(2) by simp
  qed
qed


lemma index_entry_written:
  assumes "out1 (chapter_json_name folder_name (node_name c)) = Some (Chapter_file doc)"
  shows "index_entry folder_name out1 c =
     [\<lparr>entry_name = node_name c,
       entry_json_file = chapter_json_name folder_name (node_name c),
       entry_total_pages = total_pages doc\<rparr>]"
  using assms by (simp add: index_entry_def Let_def load_total_pages_def)

lemma index_entry_absent:
  assumes "out1 (chapter_json_name folder_name (node_name c)) = None \<or>
           out1 (chapter_json_name folder_name (node_name c)) = Some Truncated_file"
  shows "index_entry folder_name out1 c = []"
  using assms by (auto simp: index_entry_def Let_def load_total_pages_def)

lemma concat_selected:
  assumes "\<forall>c\<in>set cds. f c = (if P c then [g c] else [])"
  shows "concat (map f cds) = map g (filter P cds)"
  using assms by (induction cds) simp_all

lemma write_json_True:
  assumes "write_json fault out1 path document = (True, out')"
  shows "out' = out1(path \<mapsto> document)"
  using assms by (cases fault) (simp_all add: write_json_def)

lemma process_chapter_based_archive_True:
  assumes "process_chapter_based_archive cs run faults temps folder_path out = Inr (True, out')"
  defines "cds \<equiv> chapter_dirs_of cs folder_path"
    and "fn \<equiv> node_name folder_path"
  defines "out1 \<equiv> foldl (chapter_step cs run faults temps fn) out cds"
  shows "out' = out1(fn @ ''.json'' \<mapsto>
           Index_file \<lparr>archive_name = fn,
                       total_chapters = int (length (filter (chapter_written cs run faults fn) cds)),
                       chapters = concat (map (index_entry fn out1) cds),
                       index_reading_direction = ''rtl''\<rparr>)"
proof -
  have ne: "cds \<noteq> []"
    using assms(1) unfolding cds_def by (auto simp: process_chapter_based_archive_def Let_def)
  have cnt: "length (filter (chapter_written cs run faults fn) cds) \<noteq> 0"
    using assms(1) ne unfolding cds_def fn_def
    by (auto simp: process_chapter_based_archive_def Let_def magi_chapter_loop_result
        split: if_splits)
  have "write_json (faults (fn @ ''.json'')) out1 (fn @ ''.json'')
          (Index_file \<lparr>archive_name = fn,
                       total_chapters = int (length (filter (chapter_written cs run faults fn) cds)),
                       chapters = concat (map (index_entry fn out1) cds),
                       index_reading_direction = ''rtl''\<rparr>) = (True, out')"
    using assms(1) ne cnt unfolding cds_def fn_def out1_def
    by (simp add: process_chapter_based_archive_def Let_def magi_chapter_loop_result)
  then show ?thesis by (rule write_json_True)
qed

lemma combine_jsons_to_json_result:
  "combine_jsons_to_json fault dir out json_files output_json =
     (if kumiko_pages_data dir json_files = [] then (False, out)
      else write_json fault out output_json
             (Kumiko_file \<lparr>k_reading_direction = ''rtl'',
                            k_total_pages = int (length (kumiko_pages_data dir json_files)),
                            k_pages = sort_key k_page (kumiko_pages_data dir json_files)\<rparr>))"
  by (simp add: combine_jsons_to_json_def Let_def)

lemma kumiko_pages_data_Nil [simp]: "kumiko_pages_data dir [] = []"
  by (simp add: kumiko_pages_data_def enumerate1_def)

lemma kumiko_chapter_body:
  "(let chapter_json = chapter_json_name folder_name (node_name c);
        temp_json_dir = temps (chapter_temp_name folder_name (node_name c));
        image_files = chapter_images cs c
    in if image_files = [] then (False, out)
       else case kumiko_image_loop run image_files temp_json_dir [] of
              (json_files, temp_json_dir') \<Rightarrow>
                if json_files = [] then (False, out)
                else combine_jsons_to_json (faults chapter_json) temp_json_dir' out
                       json_files chapter_json)
   = (kumiko_chapter_written cs run faults temps folder_name c,
      kumiko_chapter_step cs run faults temps folder_name out c)"
proof -
  obtain js t where f: "kumiko_chapter_files cs run temps folder_name c = (js, t)"
    by (cases "kumiko_chapter_files cs run temps folder_name c")
  have w: "fst (write_json fault out p d) = (fault = No_fault)" for fault p d
    by (cases fault) (simp_all add: write_json_def)
  show ?thesis
  proof (cases "chapter_images cs c = []")
    case True
    then have "js = []" using f by (simp add: kumiko_chapter_files_def)
    then show ?thesis
      using True f
      by (simp add: kumiko_chapter_written_def kumiko_chapter_step_def)
  next
    case False
    have l: "kumiko_image_loop run (chapter_images cs c)
               (temps (chapter_temp_name folder_name (node_name c))) [] = (js, t)"
      using f by (simp add: kumiko_chapter_files_def)
    show ?thesis
      using False
      by (simp add: Let_def l f kumiko_chapter_written_def kumiko_chapter_step_def
          kumiko_chapter_pages_def combine_jsons_to_json_result w prod_eq_iff)
  qed
qed

lemma kumiko_chapter_loop_result:
  "kumiko_chapter_loop cs run faults temps folder_name cds n out =
     (n + int (length (filter (kumiko_chapter_written cs run faults temps folder_name) cds)),
      foldl (kumiko_chapter_step cs run faults temps folder_name) out cds)"
proof (induction cds arbitrary: n out)
  case Nil
  then show ?case by simp
next
  case (Cons c cds)
  let ?w = "kumiko_chapter_written cs run faults temps folder_name c"
  let ?o = "kumiko_chapter_step cs run faults temps folder_name out c"
  obtain js t where l: "kumiko_image_loop run (chapter_images cs c)
               (temps (chapter_temp_name folder_name (node_name c))) [] = (js, t)"
    by (cases "kumiko_image_loop run (chapter_images cs c)
               (temps (chapter_temp_name folder_name (node_name c))) []")
  have body: "(if chapter_images cs c = [] then (False, out)
       else if js = [] then (False, out)
            else combine_jsons_to_json (faults (chapter_json_name folder_name (node_name c))) t out
                   js (chapter_json_name folder_name (node_name c))) = (?w, ?o)"
  proof (cases "chapter_images cs c = []")
    case True
    then show ?thesis
      using kumiko_chapter_body[where folder_name=folder_name and c=c and temps=temps and cs=cs
        and out=out and run=run and faults=faults]
      by (simp add: Let_def)
  next
    case False
    then show ?thesis
      using kumiko_chapter_body[where folder_name=folder_name and c=c and temps=temps and cs=cs
        and out=out and run=run and faults=faults]
      by (simp add: Let_def l)
  qed
  have step: "kumiko_chapter_loop cs run faults temps folder_name (c # cds) n out =
      kumiko_chapter_loop cs run faults temps folder_name cds (if ?w then n + 1 else n) ?o"
  proof (cases "chapter_images cs c = [] \<or> js = []")
    case True
    then have "?w = False \<and> ?o = out" using body by (auto split: if_splits)
    then show ?thesis using True by (auto simp: Let_def l)
  next
    case False
    then have "combine_jsons_to_json (faults (chapter_json_name folder_name (node_name c))) t out
                   js (chapter_json_name folder_name (node_name c)) = (?w, ?o)"
      using body by simp
    then show ?thesis using False by (simp add: Let_def l)
  qed
  show ?case unfolding step Cons.IH by simp
qed

lemma kumiko_chapter_step_other:
  "q \<noteq> chapter_json_name folder_name (node_name c) \<Longrightarrow>
     kumiko_chapter_step cs run faults temps folder_name out c q = out q"
  by (cases "faults (chapter_json_name folder_name (node_name c))")
     (auto simp: kumiko_chapter_step_def combine_jsons_to_json_result write_json_def
        split: prod.splits)

lemma kumiko_chapter_step_own:
  "kumiko_chapter_step cs run faults temps folder_name out c
       (chapter_json_name folder_name (node_name c)) =
     (if kumiko_chapter_written cs run faults temps folder_name c
      then Some (Kumiko_file (kumiko_chapter_document cs run temps folder_name c))
      else if fst (kumiko_chapter_files cs run temps folder_name c) \<noteq> [] \<and>
              kumiko_chapter_pages cs run temps folder_name c \<noteq> [] \<and>
              faults (chapter_json_name folder_name (node_name c)) = Write_fails
      then Some Truncated_file
      else out (chapter_json_name folder_name (node_name c)))"
  by (cases "faults (chapter_json_name folder_name (node_name c))")
     (auto simp: kumiko_chapter_step_def kumiko_chapter_written_def kumiko_chapter_document_def
        kumiko_chapter_pages_def combine_jsons_to_json_result write_json_def
        split: prod.splits)

lemma foldl_steps_own:
  assumes other: "\<And>u c q. q \<noteq> key c \<Longrightarrow> step u c q = u q"
    and own: "\<And>u u' c. u (key c) = u' (key c) \<Longrightarrow> step u c (key c) = step u' c (key c)"
    and "c \<in> set cds" "distinct (map key cds)"
  shows "foldl step out cds (key c) = step out c (key c)"
  using assms(3,4)
proof (induction cds arbitrary: out)
  case Nil
  then show ?case by simp
next
  case (Cons d cds)
  show ?case
  proof (cases "c \<in> set cds")
    case True
    then have kd: "key d \<noteq> key c" using Cons.prems(2) by (metis distinct.simps(2) imageI list.simps(9) set_map)
    have "foldl step out (d # cds) (key c) = step (step out d) c (key c)"
      using Cons.IH[OF True] Cons.prems(2) by simp
    also have "\<dots> = step out c (key c)"
      by (rule own) (simp add: other kd[symmetric])
    finally show ?thesis .
  next
    case False
    then have cd: "c = d" using Cons.prems(1) by simp
    have un: "foldl step u cds (key c) = u (key c)" for u
      using False Cons.prems(2) unfolding cd
    proof (induction cds arbitrary: u)
      case Nil
      then show ?case by simp
    next
      case (Cons e es)
      have "key e \<noteq> key d" using Cons.prems(2) by auto
      then have "step u e (key d) = u (key d)" by (intro other) simp
      moreover have "foldl step (step u e) es (key d) = step u e (key d)"
        using Cons.IH[of "step u e"] Cons.prems by auto
      ultimately show ?case by simp
    qed
    show ?thesis using un[of "step out d"] cd by simp
  qed
qed

lemma kumiko_index_entries_Inr:
  assumes "kumiko_index_entries folder_name out cds = Inr es"
  shows "es = concat (map (index_entry folder_name out) cds)"
  using assms
proof (induction cds arbitrary: es)
  case Nil
  then show ?case by simp
next
  case (Cons c cds)
  show ?case
  proof (cases "out (chapter_json_name folder_name (node_name c)) = None")
    case True
    then show ?thesis using Cons by (simp add: index_entry_def Let_def)
  next
    case False
    then obtain n es' where
      n: "load_total_pages out (chapter_json_name folder_name (node_name c)) = Inr n"
      and r: "kumiko_index_entries folder_name out cds = Inr es'"
      and e: "es = \<lparr>entry_name = node_name c,
                     entry_json_file = chapter_json_name folder_name (node_name c),
                     entry_total_pages = n\<rparr> # es'"
      using Cons.prems
      by (auto simp: Let_def ebind_def split: sum.splits)
    show ?thesis
      using False n e Cons.IH[OF r] by (simp add: index_entry_def Let_def)
  qed
qed

lemma kumiko_chapter_steps_own:
  assumes "c \<in> set cds" "distinct (map node_name cds)"
  shows "foldl (kumiko_chapter_step cs run faults temps folder_name) out cds
           (chapter_json_name folder_name (node_name c)) =
         kumiko_chapter_step cs run faults temps folder_name out c
           (chapter_json_name folder_name (node_name c))"
proof -
  have d: "distinct (map (\<lambda>c. chapter_json_name folder_name (node_name c)) cds)"
    using assms(2) by (simp add: distinct_map inj_on_def)
  show ?thesis
  proof (rule foldl_steps_own[where key="\<lambda>c. chapter_json_name folder_name (node_name c)"
        and step="kumiko_chapter_step cs run faults temps folder_name", OF _ _ assms(1) d])
    fix u c q
    assume "q \<noteq> chapter_json_name folder_name (node_name c)"
    then show "kumiko_chapter_step cs run faults temps folder_name u c q = u q"
      by (rule kumiko_chapter_step_other)
  next
    fix u u' :: out_directory and c
    assume "u (chapter_json_name folder_name (node_name c)) =
            u' (chapter_json_name folder_name (node_name c))"
    then show "kumiko_chapter_step cs run faults temps folder_name u c
                 (chapter_json_name folder_name (node_name c)) =
               kumiko_chapter_step cs run faults temps folder_name u' c
                 (chapter_json_name folder_name (node_name c))"
      unfolding kumiko_chapter_step_own by simp
  qed
qed

lemma index_entry_kumiko_written:
  assumes "out1 (chapter_json_name folder_name (node_name c)) = Some (Kumiko_file doc)"
  shows "index_entry folder_name out1 c =
     [\<lparr>entry_name = node_name c,
       entry_json_file = chapter_json_name folder_name (node_name c),
       entry_total_pages = k_total_pages doc\<rparr>]"
  using assms by (simp add: index_entry_def Let_def load_total_pages_def)

lemma process_chapter_based_archive_kumiko_True:
  assumes "process_chapter_based_archive_kumiko cs run faults temps folder_path out = (True, out')"
  defines "cds \<equiv> chapter_dirs_of cs folder_path"
    and "fn \<equiv> node_name folder_path"
  defines "out1 \<equiv> foldl (kumiko_chapter_step cs run faults temps fn) out cds"
  shows "out' = out1(fn @ ''.json'' \<mapsto>
           Index_file \<lparr>archive_name = fn,
                       total_chapters =
                         int (length (filter (kumiko_chapter_written cs run faults temps fn) cds)),
                       chapters = concat (map (index_entry fn out1) cds),
                       index_reading_direction = ''rtl''\<rparr>)"
proof -
  let ?n = "int (length (filter (kumiko_chapter_written cs run faults temps fn) cds))"
  have ne: "cds \<noteq> []"
    using assms(1) unfolding cds_def by (auto simp: process_chapter_based_archive_kumiko_def Let_def)
  have cnt: "?n \<noteq> 0"
    using assms(1) ne unfolding cds_def fn_def
    by (auto simp: process_chapter_based_archive_kumiko_def Let_def kumiko_chapter_loop_result
        split: if_splits)
  obtain es where es: "kumiko_index_entries fn out1 cds = Inr es"
    using assms(1) ne cnt unfolding cds_def fn_def out1_def
    by (cases "kumiko_index_entries (node_name folder_path)
                 (foldl (kumiko_chapter_step cs run faults temps (node_name folder_path)) out
                    (chapter_dirs_of cs folder_path)) (chapter_dirs_of cs folder_path)")
       (simp_all add: process_chapter_based_archive_kumiko_def Let_def kumiko_chapter_loop_result)
  have "write_json (faults (fn @ ''.json'')) out1 (fn @ ''.json'')
          (Index_file \<lparr>archive_name = fn, total_chapters = ?n, chapters = es,
                       index_reading_direction = ''rtl''\<rparr>) = (True, out')"
    using assms(1) ne cnt es unfolding cds_def fn_def out1_def
    by (simp add: process_chapter_based_archive_kumiko_def Let_def kumiko_chapter_loop_result)
  then have "out' = out1(fn @ ''.json'' \<mapsto>
      Index_file \<lparr>archive_name = fn, total_chapters = ?n, chapters = es,
                  index_reading_direction = ''rtl''\<rparr>)"
    by (rule write_json_True)
  then show ?thesis unfolding kumiko_index_entries_Inr[OF es] .
qed

text \<open>
  The index that is written, in terms of the files that are in the output directory when
  it is built.
\<close>

lemma index_entry_load:
  "index_entry folder_name out c =
     (case load_total_pages out (chapter_json_name folder_name (node_name c)) of
        Inr n \<Rightarrow> [\<lparr>entry_name = node_name c,
                   entry_json_file = chapter_json_name folder_name (node_name c),
                   entry_total_pages = n\<rparr>]
      | Inl e \<Rightarrow> [])"
  by (cases "out (chapter_json_name folder_name (node_name c))")
     (simp_all add: index_entry_def Let_def load_total_pages_def)

lemma kumiko_index_entries_no_truncated:
  assumes "kumiko_index_entries folder_name out cds = Inr es"
  shows "\<forall>c\<in>set cds. out (chapter_json_name folder_name (node_name c)) \<noteq> Some Truncated_file"
  using assms
proof (induction cds arbitrary: es)
  case Nil
  then show ?case by simp
next
  case (Cons c cds)
  show ?case
  proof (cases "out (chapter_json_name folder_name (node_name c)) = None")
    case True
    then show ?thesis using Cons by simp
  next
    case False
    then obtain n es' where
      n: "load_total_pages out (chapter_json_name folder_name (node_name c)) = Inr n"
      and r: "kumiko_index_entries folder_name out cds = Inr es'"
      using Cons.prems
      by (auto simp: Let_def ebind_def split: sum.splits)
    from n have "out (chapter_json_name folder_name (node_name c)) \<noteq> Some Truncated_file"
      by (auto simp: load_total_pages_def)
    then show ?thesis using Cons.IH[OF r] by simp
  qed
qed

lemma process_chapter_based_archive_kumiko_entries:
  assumes "process_chapter_based_archive_kumiko cs run faults temps folder_path out = (True, out')"
  obtains es where "kumiko_index_entries (node_name folder_path)
      (foldl (kumiko_chapter_step cs run faults temps (node_name folder_path)) out
         (chapter_dirs_of cs folder_path)) (chapter_dirs_of cs folder_path) = Inr es"
proof -
  have ne: "chapter_dirs_of cs folder_path \<noteq> []"
    using assms by (auto simp: process_chapter_based_archive_kumiko_def Let_def)
  have cnt: "int (length (filter (kumiko_chapter_written cs run faults temps (node_name folder_path))
                 (chapter_dirs_of cs folder_path))) \<noteq> 0"
    using assms ne
    by (auto simp: process_chapter_based_archive_kumiko_def Let_def kumiko_chapter_loop_result
        split: if_splits)
  show ?thesis
    using assms ne cnt that
    by (cases "kumiko_index_entries (node_name folder_path)
                 (foldl (kumiko_chapter_step cs run faults temps (node_name folder_path)) out
                    (chapter_dirs_of cs folder_path)) (chapter_dirs_of cs folder_path)")
       (simp_all add: process_chapter_based_archive_kumiko_def Let_def kumiko_chapter_loop_result)
qed

lemma magi_archive_index:
  assumes "distinct (map node_name (chapter_dirs_of cs folder_path))"
    and "process_chapter_based_archive cs run faults temps folder_path out = Inr (True, out_m)"
  shows "(\<exists>idx. out_m (node_name folder_path @ ''.json'') = Some (Index_file idx) \<and>
       total_chapters idx =
         int (length (filter (chapter_written cs run faults (node_name folder_path)) (chapter_dirs_of cs folder_path))) \<and>
       (\<forall>c\<in>set (chapter_dirs_of cs folder_path).
          filter (\<lambda>e. entry_name e = node_name c) (chapters idx) =
            (case load_total_pages out_m (chapter_json_name (node_name folder_path) (node_name c)) of
               Inr n \<Rightarrow>
                 [\<lparr>entry_name = node_name c,
                 entry_json_file = chapter_json_name (node_name folder_path) (node_name c),
                 entry_total_pages = n\<rparr>]
             | Inl e \<Rightarrow> []) \<and>
          (chapter_written cs run faults (node_name folder_path) c \<longrightarrow>
             out_m (chapter_json_name (node_name folder_path) (node_name c)) =
               Some (Chapter_file (chapter_document_of cs run temps (node_name folder_path) c)) \<and>
             filter (\<lambda>e. entry_name e = node_name c) (chapters idx) =
               [\<lparr>entry_name = node_name c,
                 entry_json_file = chapter_json_name (node_name folder_path) (node_name c),
                 entry_total_pages = total_pages (chapter_document_of cs run temps (node_name folder_path) c)\<rparr>]) \<and>
          (\<not> chapter_written cs run faults (node_name folder_path) c \<longrightarrow>
             out_m (chapter_json_name (node_name folder_path) (node_name c)) = out (chapter_json_name (node_name folder_path) (node_name c)) \<or>
             out_m (chapter_json_name (node_name folder_path) (node_name c)) = Some Truncated_file) \<and>
          (\<not> chapter_written cs run faults (node_name folder_path) c \<and> out (chapter_json_name (node_name folder_path) (node_name c)) = None \<longrightarrow>
             filter (\<lambda>e. entry_name e = node_name c) (chapters idx) = [])) \<and>
       (\<forall>e\<in>set (chapters idx).
          \<exists>c\<in>set (chapter_dirs_of cs folder_path). entry_name e = node_name c) \<and>
       ((\<forall>c\<in>set (chapter_dirs_of cs folder_path).
           \<not> chapter_written cs run faults (node_name folder_path) c \<longrightarrow> out (chapter_json_name (node_name folder_path) (node_name c)) = None) \<longrightarrow>
        total_chapters idx = int (length (chapters idx))))"
proof -
  define cds where "cds = chapter_dirs_of cs folder_path"
  define fn where "fn = node_name folder_path"
  define out1 where "out1 = foldl (chapter_step cs run faults temps fn) out cds"
  define written where "written = chapter_written cs run faults fn"
  define idx where "idx = \<lparr>archive_name = fn,
       total_chapters = int (length (filter written cds)),
       chapters = concat (map (index_entry fn out1) cds),
       index_reading_direction = ''rtl''\<rparr>"
  have o': "out_m = out1(fn @ ''.json'' \<mapsto> Index_file idx)"
    unfolding idx_def out1_def cds_def fn_def written_def
    by (rule process_chapter_based_archive_True[OF assms(2)])
  have dist: "distinct (map node_name cds)" using assms(1) by (simp add: cds_def)
  have own: "out1 (chapter_json_name fn (node_name c)) =
      (if written c then Some (Chapter_file (chapter_document_of cs run temps fn c))
       else if chapter_found cs run c \<noteq> [] \<and>
               faults (chapter_json_name fn (node_name c)) = Write_fails
       then Some Truncated_file
       else out (chapter_json_name fn (node_name c)))" if "c \<in> set cds" for c
    unfolding out1_def written_def chapter_steps_own[OF that dist] chapter_step_own ..
  have keep: "out_m (chapter_json_name fn (node_name c)) = out1 (chapter_json_name fn (node_name c))"
    for c
    unfolding o' by simp
  have sel: "filter (\<lambda>e. entry_name e = node_name c) (chapters idx) = index_entry fn out1 c"
    if "c \<in> set cds" for c
    unfolding idx_def using entries_of_chapter[OF that dist] by simp
  have g: "filter (\<lambda>e. entry_name e = node_name c) (chapters idx) =
            (case load_total_pages out_m (chapter_json_name fn (node_name c)) of
               Inr n \<Rightarrow> [\<lparr>entry_name = node_name c,
               entry_json_file = chapter_json_name fn (node_name c),
               entry_total_pages = n\<rparr>]
             | Inl e \<Rightarrow> [])"
    if "c \<in> set cds" for c
    unfolding sel[OF that] index_entry_load
    using keep[of c] by (simp add: load_total_pages_def)
  have a: "out_m (chapter_json_name fn (node_name c)) =
             Some (Chapter_file (chapter_document_of cs run temps fn c)) \<and>
           filter (\<lambda>e. entry_name e = node_name c) (chapters idx) =
             [\<lparr>entry_name = node_name c,
               entry_json_file = chapter_json_name fn (node_name c),
               entry_total_pages = total_pages (chapter_document_of cs run temps fn c)\<rparr>]"
    if "c \<in> set cds" "written c" for c
  proof -
    have w: "out1 (chapter_json_name fn (node_name c)) =
        Some (Chapter_file (chapter_document_of cs run temps fn c))"
      using own[OF that(1)] that(2) by simp
    show ?thesis
      unfolding keep sel[OF that(1)]
      using w index_entry_written[where ?out1.0=out1 and folder_name=fn and c=c
          and doc="chapter_document_of cs run temps fn c"]
      by simp
  qed
  have nw: "out_m (chapter_json_name fn (node_name c)) = out (chapter_json_name fn (node_name c)) \<or>
            out_m (chapter_json_name fn (node_name c)) = Some Truncated_file"
    if "c \<in> set cds" "\<not> written c" for c
    unfolding keep using own[OF that(1)] that(2) by simp
  have b: "filter (\<lambda>e. entry_name e = node_name c) (chapters idx) = []"
    if "c \<in> set cds" "\<not> written c" "out (chapter_json_name fn (node_name c)) = None" for c
  proof -
    have "out1 (chapter_json_name fn (node_name c)) = None \<or>
          out1 (chapter_json_name fn (node_name c)) = Some Truncated_file"
      using own[OF that(1)] that(2,3) by simp
    then show ?thesis unfolding sel[OF that(1)] by (rule index_entry_absent)
  qed
  have n: "\<exists>c\<in>set cds. entry_name e = node_name c" if "e \<in> set (chapters idx)" for e
  proof -
    from that obtain c where "c \<in> set cds" "e \<in> set (index_entry fn out1 c)"
      by (auto simp: idx_def)
    then show ?thesis using index_entry_names by blast
  qed
  have c: "total_chapters idx = int (length (chapters idx))"
    if clean: "\<forall>c\<in>set cds. \<not> written c \<longrightarrow> out (chapter_json_name fn (node_name c)) = None"
  proof -
    have "\<forall>c\<in>set cds. index_entry fn out1 c =
        (if written c
         then [\<lparr>entry_name = node_name c,
               entry_json_file = chapter_json_name fn (node_name c),
               entry_total_pages = total_pages (chapter_document_of cs run temps fn c)\<rparr>]
         else [])"
    proof
      fix c assume cin: "c \<in> set cds"
      show "index_entry fn out1 c =
        (if written c
         then [\<lparr>entry_name = node_name c,
               entry_json_file = chapter_json_name fn (node_name c),
               entry_total_pages = total_pages (chapter_document_of cs run temps fn c)\<rparr>]
         else [])"
      proof (cases "written c")
        case True
        then show ?thesis using a[OF cin True] sel[OF cin] by simp
      next
        case False
        then show ?thesis using b[OF cin False] clean cin sel[OF cin] by simp
      qed
    qed
    from concat_selected[OF this]
    have "length (chapters idx) = length (filter written cds)" by (simp add: idx_def)
    then show ?thesis by (simp add: idx_def)
  qed
  have m: "out_m (fn @ ''.json'') = Some (Index_file idx)" unfolding o' by simp
  have t: "total_chapters idx = int (length (filter written cds))" by (simp add: idx_def)
  show ?thesis
    apply (rule exI[of _ idx])
    unfolding cds_def[symmetric] fn_def[symmetric] written_def[symmetric]
    using m t g a nw b n c by blast
qed

lemma kumiko_archive_index:
  assumes "distinct (map node_name (chapter_dirs_of cs folder_path))"
    and "process_chapter_based_archive_kumiko cs krun faults temps folder_path out = (True, out_k)"
  shows "(\<exists>idx. out_k (node_name folder_path @ ''.json'') = Some (Index_file idx) \<and>
       total_chapters idx =
         int (length (filter (kumiko_chapter_written cs krun faults temps (node_name folder_path)) (chapter_dirs_of cs folder_path))) \<and>
       (\<forall>c\<in>set (chapter_dirs_of cs folder_path).
          filter (\<lambda>e. entry_name e = node_name c) (chapters idx) =
            (case load_total_pages out_k (chapter_json_name (node_name folder_path) (node_name c)) of
               Inr n \<Rightarrow>
                 [\<lparr>entry_name = node_name c,
                 entry_json_file = chapter_json_name (node_name folder_path) (node_name c),
                 entry_total_pages = n\<rparr>]
             | Inl e \<Rightarrow> []) \<and>
          (kumiko_chapter_written cs krun faults temps (node_name folder_path) c \<longrightarrow>
             out_k (chapter_json_name (node_name folder_path) (node_name c)) =
               Some (Kumiko_file (kumiko_chapter_document cs krun temps (node_name folder_path) c)) \<and>
             filter (\<lambda>e. entry_name e = node_name c) (chapters idx) =
               [\<lparr>entry_name = node_name c,
                 entry_json_file = chapter_json_name (node_name folder_path) (node_name c),
                 entry_total_pages = k_total_pages (kumiko_chapter_document cs krun temps (node_name folder_path) c)\<rparr>]) \<and>
          (\<not> kumiko_chapter_written cs krun faults temps (node_name folder_path) c \<longrightarrow>
             out_k (chapter_json_name (node_name folder_path) (node_name c)) = out (chapter_json_name (node_name folder_path) (node_name c)) \<and>
             out_k (chapter_json_name (node_name folder_path) (node_name c)) \<noteq> Some Truncated_file) \<and>
          (\<not> kumiko_chapter_written cs krun faults temps (node_name folder_path) c \<and> out (chapter_json_name (node_name folder_path) (node_name c)) = None \<longrightarrow>
             filter (\<lambda>e. entry_name e = node_name c) (chapters idx) = [])) \<and>
       (\<forall>e\<in>set (chapters idx).
          \<exists>c\<in>set (chapter_dirs_of cs folder_path). entry_name e = node_name c) \<and>
       ((\<forall>c\<in>set (chapter_dirs_of cs folder_path).
           \<not> kumiko_chapter_written cs krun faults temps (node_name folder_path) c \<longrightarrow> out (chapter_json_name (node_name folder_path) (node_name c)) = None) \<longrightarrow>
        total_chapters idx = int (length (chapters idx))))"
proof -
  define cds where "cds = chapter_dirs_of cs folder_path"
  define fn where "fn = node_name folder_path"
  define out1 where "out1 = foldl (kumiko_chapter_step cs krun faults temps fn) out cds"
  define written where "written = kumiko_chapter_written cs krun faults temps fn"
  define idx where "idx = \<lparr>archive_name = fn,
       total_chapters = int (length (filter written cds)),
       chapters = concat (map (index_entry fn out1) cds),
       index_reading_direction = ''rtl''\<rparr>"
  have o': "out_k = out1(fn @ ''.json'' \<mapsto> Index_file idx)"
    unfolding idx_def out1_def cds_def fn_def written_def
    by (rule process_chapter_based_archive_kumiko_True[OF assms(2)])
  obtain es where es: "kumiko_index_entries (node_name folder_path)
      (foldl (kumiko_chapter_step cs krun faults temps (node_name folder_path)) out
         (chapter_dirs_of cs folder_path)) (chapter_dirs_of cs folder_path) = Inr es"
    by (rule process_chapter_based_archive_kumiko_entries[OF assms(2)])
  have dist: "distinct (map node_name cds)" using assms(1) by (simp add: cds_def)
  have own: "out1 (chapter_json_name fn (node_name c)) =
      (if written c then Some (Kumiko_file (kumiko_chapter_document cs krun temps fn c))
       else if fst (kumiko_chapter_files cs krun temps fn c) \<noteq> [] \<and>
               kumiko_chapter_pages cs krun temps fn c \<noteq> [] \<and>
               faults (chapter_json_name fn (node_name c)) = Write_fails
       then Some Truncated_file
       else out (chapter_json_name fn (node_name c)))" if "c \<in> set cds" for c
    unfolding out1_def written_def kumiko_chapter_steps_own[OF that dist] kumiko_chapter_step_own ..
  have keep: "out_k (chapter_json_name fn (node_name c)) = out1 (chapter_json_name fn (node_name c))"
    for c
    unfolding o' by simp
  have sel: "filter (\<lambda>e. entry_name e = node_name c) (chapters idx) = index_entry fn out1 c"
    if "c \<in> set cds" for c
    unfolding idx_def using entries_of_chapter[OF that dist] by simp
  have g: "filter (\<lambda>e. entry_name e = node_name c) (chapters idx) =
            (case load_total_pages out_k (chapter_json_name fn (node_name c)) of
               Inr n \<Rightarrow> [\<lparr>entry_name = node_name c,
               entry_json_file = chapter_json_name fn (node_name c),
               entry_total_pages = n\<rparr>]
             | Inl e \<Rightarrow> [])"
    if "c \<in> set cds" for c
    unfolding sel[OF that] index_entry_load
    using keep[of c] by (simp add: load_total_pages_def)
  have a: "out_k (chapter_json_name fn (node_name c)) =
             Some (Kumiko_file (kumiko_chapter_document cs krun temps fn c)) \<and>
           filter (\<lambda>e. entry_name e = node_name c) (chapters idx) =
             [\<lparr>entry_name = node_name c,
               entry_json_file = chapter_json_name fn (node_name c),
               entry_total_pages = k_total_pages (kumiko_chapter_document cs krun temps fn c)\<rparr>]"
    if "c \<in> set cds" "written c" for c
  proof -
    have w: "out1 (chapter_json_name fn (node_name c)) =
        Some (Kumiko_file (kumiko_chapter_document cs krun temps fn c))"
      using own[OF that(1)] that(2) by simp
    show ?thesis
      unfolding keep sel[OF that(1)]
      using w index_entry_kumiko_written[where ?out1.0=out1 and folder_name=fn and c=c
          and doc="kumiko_chapter_document cs krun temps fn c"]
      by simp
  qed
  have nt: "out_k (chapter_json_name fn (node_name c)) \<noteq> Some Truncated_file"
    if "c \<in> set cds" for c
  proof -
    have "out1 (chapter_json_name fn (node_name c)) \<noteq> Some Truncated_file"
      using kumiko_index_entries_no_truncated[OF es] that unfolding out1_def cds_def fn_def
      by blast
    then show ?thesis unfolding keep .
  qed
  have nw: "out_k (chapter_json_name fn (node_name c)) = out (chapter_json_name fn (node_name c)) \<and>
            out_k (chapter_json_name fn (node_name c)) \<noteq> Some Truncated_file"
    if "c \<in> set cds" "\<not> written c" for c
    using nt[OF that(1)] own[OF that(1)] that(2) unfolding keep by (simp split: if_splits)
  have b: "filter (\<lambda>e. entry_name e = node_name c) (chapters idx) = []"
    if "c \<in> set cds" "\<not> written c" "out (chapter_json_name fn (node_name c)) = None" for c
  proof -
    have "out1 (chapter_json_name fn (node_name c)) = None \<or>
          out1 (chapter_json_name fn (node_name c)) = Some Truncated_file"
      using own[OF that(1)] that(2,3) by simp
    then show ?thesis unfolding sel[OF that(1)] by (rule index_entry_absent)
  qed
  have n: "\<exists>c\<in>set cds. entry_name e = node_name c" if "e \<in> set (chapters idx)" for e
  proof -
    from that obtain c where "c \<in> set cds" "e \<in> set (index_entry fn out1 c)"
      by (auto simp: idx_def)
    then show ?thesis using index_entry_names by blast
  qed
  have c: "total_chapters idx = int (length (chapters idx))"
    if clean: "\<forall>c\<in>set cds. \<not> written c \<longrightarrow> out (chapter_json_name fn (node_name c)) = None"
  proof -
    have "\<forall>c\<in>set cds. index_entry fn out1 c =
        (if written c
         then [\<lparr>entry_name = node_name c,
               entry_json_file = chapter_json_name fn (node_name c),
               entry_total_pages = k_total_pages (kumiko_chapter_document cs krun temps fn c)\<rparr>]
         else [])"
    proof
      fix c assume cin: "c \<in> set cds"
      show "index_entry fn out1 c =
        (if written c
         then [\<lparr>entry_name = node_name c,
               entry_json_file = chapter_json_name fn (node_name c),
               entry_total_pages = k_total_pages (kumiko_chapter_document cs krun temps fn c)\<rparr>]
         else [])"
      proof (cases "written c")
        case True
        then show ?thesis using a[OF cin True] sel[OF cin] by simp
      next
        case False
        then show ?thesis using b[OF cin False] clean cin sel[OF cin] by simp
      qed
    qed
    from concat_selected[OF this]
    have "length (chapters idx) = length (filter written cds)" by (simp add: idx_def)
    then show ?thesis by (simp add: idx_def)
  qed
  have m: "out_k (fn @ ''.json'') = Some (Index_file idx)" unfolding o' by simp
  have t: "total_chapters idx = int (length (filter written cds))" by (simp add: idx_def)
  show ?thesis
    apply (rule exI[of _ idx])
    unfolding cds_def[symmetric] fn_def[symmetric] written_def[symmetric]
    using m t g a nw b n c by blast
qed

section \<open>Claims about aggregation\<close>

text \<open>
  C4. A failed detection is skipped and the pages are numbered 1 to N without gaps
  (\<open>magi_skips_and_numbering\<close>; its example is the unit of five images whose third image
  times out), but the pages do not follow the enumeration order. The aggregator sorts the
  result files \<^verbatim>\<open>by name to ensure correct page order\<close> (line 333), and the names are
  \<^verbatim>\<open>{stem}_panels.json\<close>: \<^verbatim>\<open>a.jpg\<close> is enumerated before \<^verbatim>\<open>a_b.jpg\<close>, but \<^verbatim>\<open>a_b_panels.json\<close>
  sorts before \<^verbatim>\<open>a_panels.json\<close>, so page 1 is \<^verbatim>\<open>a_b.jpg\<close>; \<^verbatim>\<open>page1.jpg\<close>, \<^verbatim>\<open>page2.jpg\<close> and
  \<^verbatim>\<open>page10.jpg\<close> are enumerated as \<^verbatim>\<open>page1, page10, page2\<close> and stored as
  \<^verbatim>\<open>page10, page1, page2\<close>.
\<close>

theorem C4_pages_not_in_enumeration_order:
  "enumerate_images True
     (Dir ''vol'' [File ''a.jpg'' (Image_file 800 1200), File ''a_b.jpg'' (Image_file 800 1200)])
     = [[''a.jpg''], [''a_b.jpg'']] \<and>
   (case process_with_magi True
           (\<lambda>p. Inr (0, Some (Json_file (Page_dict \<lparr>filename = None, page_no = None,
                                  image_size = None, raw_panels = Some []\<rparr>))))
           (\<lambda>p. No_fault) Map.empty
           (Dir ''vol'' [File ''a.jpg'' (Image_file 800 1200),
                         File ''a_b.jpg'' (Image_file 800 1200)])
           Map.empty of
      Inr (ok, out') \<Rightarrow>
        ok \<and> out' ''vol.json'' =
          Some (Chapter_file \<lparr>reading_direction = ''rtl'', total_pages = 2,
                  pages = [\<lparr>page = 1, image_name = ''a_b.jpg'', panels = []\<rparr>,
                           \<lparr>page = 2, image_name = ''a.jpg'', panels = []\<rparr>]\<rparr>)
    | Inl e \<Rightarrow> False) \<and>
   enumerate_images True
     (Dir ''vol'' [File ''page1.jpg'' (Image_file 800 1200),
                   File ''page2.jpg'' (Image_file 800 1200),
                   File ''page10.jpg'' (Image_file 800 1200)])
     = [[''page1.jpg''], [''page10.jpg''], [''page2.jpg'']] \<and>
   (case process_with_magi True
           (\<lambda>p. Inr (0, Some (Json_file (Page_dict \<lparr>filename = None, page_no = None,
                                  image_size = None, raw_panels = Some []\<rparr>))))
           (\<lambda>p. No_fault) Map.empty
           (Dir ''vol'' [File ''page1.jpg'' (Image_file 800 1200),
                         File ''page2.jpg'' (Image_file 800 1200),
                         File ''page10.jpg'' (Image_file 800 1200)])
           Map.empty of
      Inr (ok, out') \<Rightarrow>
        ok \<and> out' ''vol.json'' =
          Some (Chapter_file \<lparr>reading_direction = ''rtl'', total_pages = 3,
                  pages = [\<lparr>page = 1, image_name = ''page10.jpg'', panels = []\<rparr>,
                           \<lparr>page = 2, image_name = ''page1.jpg'', panels = []\<rparr>,
                           \<lparr>page = 3, image_name = ''page2.jpg'', panels = []\<rparr>]\<rparr>)
    | Inl e \<Rightarrow> False)"
  by code_simp




text \<open>
  C9, as stated: a chapter whose processing failed is not in the index. The index is built
  from the files that exist at the chapter paths. The output directory outlives a run, so a
  document that an earlier run wrote for chapter 3 is still there when chapter 3 fails in
  this run: the index has three entries, the third with the seven pages of the old
  document, and \<^verbatim>\<open>total_chapters\<close> is 2.
\<close>

theorem C9_counterexample:
  "(case process_chapter_based_archive True
           (\<lambda>p. if hd p = ''ch3'' then Inl TimeoutExpired
                else Inr (0, Some (Json_file (Page_dict \<lparr>filename = None, page_no = None,
                                     image_size = None, raw_panels = Some []\<rparr>))))
           (\<lambda>p. No_fault) (\<lambda>n. Map.empty)
           (Dir ''vol1'' [Dir ''ch1'' [File ''01.jpg'' (Image_file 800 1200)],
                          Dir ''ch2'' [File ''01.jpg'' (Image_file 800 1200)],
                          Dir ''ch3'' [File ''01.jpg'' (Image_file 800 1200)]])
           [''vol1_ch3.json'' \<mapsto> Chapter_file \<lparr>reading_direction = ''rtl'', total_pages = 7,
               pages = []\<rparr>] of
      Inr (ok, out') \<Rightarrow>
        ok \<and> out' ''vol1.json'' =
          Some (Index_file \<lparr>archive_name = ''vol1'', total_chapters = 2,
                  chapters = [\<lparr>entry_name = ''ch1'', entry_json_file = ''vol1_ch1.json'',
                               entry_total_pages = 1\<rparr>,
                              \<lparr>entry_name = ''ch2'', entry_json_file = ''vol1_ch2.json'',
                               entry_total_pages = 1\<rparr>,
                              \<lparr>entry_name = ''ch3'', entry_json_file = ''vol1_ch3.json'',
                               entry_total_pages = 7\<rparr>],
                  index_reading_direction = ''rtl''\<rparr>)
    | Inl e \<Rightarrow> False) \<and>
   (case process_chapter_based_archive_kumiko True
           (\<lambda>p flags. if hd p = ''ch3'' then Inl TimeoutExpired
                else Inr (0, Some (Json_file (Page_list [\<lparr>filename = Some (last p),
                                     page_no = None,
                                     image_size = Some (PInt 800, PInt 1200),
                                     raw_panels = Some [Box [PInt 0, PInt 0, PInt 400, PInt 600]]\<rparr>]))))
           (\<lambda>p. No_fault) (\<lambda>n. Map.empty)
           (Dir ''vol1'' [Dir ''ch1'' [File ''01.jpg'' (Image_file 800 1200)],
                          Dir ''ch2'' [File ''01.jpg'' (Image_file 800 1200)],
                          Dir ''ch3'' [File ''01.jpg'' (Image_file 800 1200)]])
           [''vol1_ch3.json'' \<mapsto> Chapter_file \<lparr>reading_direction = ''rtl'', total_pages = 7,
               pages = []\<rparr>] of
      (ok, out') \<Rightarrow>
        ok \<and> out' ''vol1.json'' =
          Some (Index_file \<lparr>archive_name = ''vol1'', total_chapters = 2,
                  chapters = [\<lparr>entry_name = ''ch1'', entry_json_file = ''vol1_ch1.json'',
                               entry_total_pages = 1\<rparr>,
                              \<lparr>entry_name = ''ch2'', entry_json_file = ''vol1_ch2.json'',
                               entry_total_pages = 1\<rparr>,
                              \<lparr>entry_name = ''ch3'', entry_json_file = ''vol1_ch3.json'',
                               entry_total_pages = 7\<rparr>],
                  index_reading_direction = ''rtl''\<rparr>))"
  by code_simp

text \<open>
  C9, amended. When \<^verbatim>\<open>process_chapter_based_archive\<close> reports success, in either script, the
  index is at the master path and \<^verbatim>\<open>total_chapters\<close> is the number of chapters whose document
  was written in this run. Every entry belongs to a chapter directory, and a chapter
  directory has exactly one entry, with the \<^verbatim>\<open>total_pages\<close> read from its file, if the file
  at its path loads, and no entry otherwise. A chapter whose document was written in this
  run has that document at its path. At the path of a chapter that was not written there
  is what was there before the run, or, in the MAGI script, an incomplete file; in the
  Kumiko script no index is written when a file at a chapter path does not load. If no
  chapter that failed in this run has a file from before, the number of entries is
  \<^verbatim>\<open>total_chapters\<close>. The entries of a directory have distinct names.
\<close>

theorem C9_archive_index:
  assumes "distinct (map node_name (chapter_dirs_of cs folder_path))"
  shows "(process_chapter_based_archive cs run faults temps folder_path out = Inr (True, out_m) \<longrightarrow>
     (\<exists>idx. out_m (node_name folder_path @ ''.json'') = Some (Index_file idx) \<and>
       total_chapters idx =
         int (length (filter (chapter_written cs run faults (node_name folder_path)) (chapter_dirs_of cs folder_path))) \<and>
       (\<forall>c\<in>set (chapter_dirs_of cs folder_path).
          filter (\<lambda>e. entry_name e = node_name c) (chapters idx) =
            (case load_total_pages out_m (chapter_json_name (node_name folder_path) (node_name c)) of
               Inr n \<Rightarrow>
                 [\<lparr>entry_name = node_name c,
                 entry_json_file = chapter_json_name (node_name folder_path) (node_name c),
                 entry_total_pages = n\<rparr>]
             | Inl e \<Rightarrow> []) \<and>
          (chapter_written cs run faults (node_name folder_path) c \<longrightarrow>
             out_m (chapter_json_name (node_name folder_path) (node_name c)) =
               Some (Chapter_file (chapter_document_of cs run temps (node_name folder_path) c)) \<and>
             filter (\<lambda>e. entry_name e = node_name c) (chapters idx) =
               [\<lparr>entry_name = node_name c,
                 entry_json_file = chapter_json_name (node_name folder_path) (node_name c),
                 entry_total_pages = total_pages (chapter_document_of cs run temps (node_name folder_path) c)\<rparr>]) \<and>
          (\<not> chapter_written cs run faults (node_name folder_path) c \<longrightarrow>
             out_m (chapter_json_name (node_name folder_path) (node_name c)) = out (chapter_json_name (node_name folder_path) (node_name c)) \<or>
             out_m (chapter_json_name (node_name folder_path) (node_name c)) = Some Truncated_file) \<and>
          (\<not> chapter_written cs run faults (node_name folder_path) c \<and> out (chapter_json_name (node_name folder_path) (node_name c)) = None \<longrightarrow>
             filter (\<lambda>e. entry_name e = node_name c) (chapters idx) = [])) \<and>
       (\<forall>e\<in>set (chapters idx).
          \<exists>c\<in>set (chapter_dirs_of cs folder_path). entry_name e = node_name c) \<and>
       ((\<forall>c\<in>set (chapter_dirs_of cs folder_path).
           \<not> chapter_written cs run faults (node_name folder_path) c \<longrightarrow> out (chapter_json_name (node_name folder_path) (node_name c)) = None) \<longrightarrow>
        total_chapters idx = int (length (chapters idx))))) \<and>
    (process_chapter_based_archive_kumiko cs krun faults temps folder_path out = (True, out_k) \<longrightarrow>
     (\<exists>idx. out_k (node_name folder_path @ ''.json'') = Some (Index_file idx) \<and>
       total_chapters idx =
         int (length (filter (kumiko_chapter_written cs krun faults temps (node_name folder_path)) (chapter_dirs_of cs folder_path))) \<and>
       (\<forall>c\<in>set (chapter_dirs_of cs folder_path).
          filter (\<lambda>e. entry_name e = node_name c) (chapters idx) =
            (case load_total_pages out_k (chapter_json_name (node_name folder_path) (node_name c)) of
               Inr n \<Rightarrow>
                 [\<lparr>entry_name = node_name c,
                 entry_json_file = chapter_json_name (node_name folder_path) (node_name c),
                 entry_total_pages = n\<rparr>]
             | Inl e \<Rightarrow> []) \<and>
          (kumiko_chapter_written cs krun faults temps (node_name folder_path) c \<longrightarrow>
             out_k (chapter_json_name (node_name folder_path) (node_name c)) =
               Some (Kumiko_file (kumiko_chapter_document cs krun temps (node_name folder_path) c)) \<and>
             filter (\<lambda>e. entry_name e = node_name c) (chapters idx) =
               [\<lparr>entry_name = node_name c,
                 entry_json_file = chapter_json_name (node_name folder_path) (node_name c),
                 entry_total_pages = k_total_pages (kumiko_chapter_document cs krun temps (node_name folder_path) c)\<rparr>]) \<and>
          (\<not> kumiko_chapter_written cs krun faults temps (node_name folder_path) c \<longrightarrow>
             out_k (chapter_json_name (node_name folder_path) (node_name c)) = out (chapter_json_name (node_name folder_path) (node_name c)) \<and>
             out_k (chapter_json_name (node_name folder_path) (node_name c)) \<noteq> Some Truncated_file) \<and>
          (\<not> kumiko_chapter_written cs krun faults temps (node_name folder_path) c \<and> out (chapter_json_name (node_name folder_path) (node_name c)) = None \<longrightarrow>
             filter (\<lambda>e. entry_name e = node_name c) (chapters idx) = [])) \<and>
       (\<forall>e\<in>set (chapters idx).
          \<exists>c\<in>set (chapter_dirs_of cs folder_path). entry_name e = node_name c) \<and>
       ((\<forall>c\<in>set (chapter_dirs_of cs folder_path).
           \<not> kumiko_chapter_written cs krun faults temps (node_name folder_path) c \<longrightarrow> out (chapter_json_name (node_name folder_path) (node_name c)) = None) \<longrightarrow>
        total_chapters idx = int (length (chapters idx)))))"
proof (intro conjI impI)
  assume "process_chapter_based_archive cs run faults temps folder_path out = Inr (True, out_m)"
  with assms show "(\<exists>idx. out_m (node_name folder_path @ ''.json'') = Some (Index_file idx) \<and>
       total_chapters idx =
         int (length (filter (chapter_written cs run faults (node_name folder_path)) (chapter_dirs_of cs folder_path))) \<and>
       (\<forall>c\<in>set (chapter_dirs_of cs folder_path).
          filter (\<lambda>e. entry_name e = node_name c) (chapters idx) =
            (case load_total_pages out_m (chapter_json_name (node_name folder_path) (node_name c)) of
               Inr n \<Rightarrow>
                 [\<lparr>entry_name = node_name c,
                 entry_json_file = chapter_json_name (node_name folder_path) (node_name c),
                 entry_total_pages = n\<rparr>]
             | Inl e \<Rightarrow> []) \<and>
          (chapter_written cs run faults (node_name folder_path) c \<longrightarrow>
             out_m (chapter_json_name (node_name folder_path) (node_name c)) =
               Some (Chapter_file (chapter_document_of cs run temps (node_name folder_path) c)) \<and>
             filter (\<lambda>e. entry_name e = node_name c) (chapters idx) =
               [\<lparr>entry_name = node_name c,
                 entry_json_file = chapter_json_name (node_name folder_path) (node_name c),
                 entry_total_pages = total_pages (chapter_document_of cs run temps (node_name folder_path) c)\<rparr>]) \<and>
          (\<not> chapter_written cs run faults (node_name folder_path) c \<longrightarrow>
             out_m (chapter_json_name (node_name folder_path) (node_name c)) = out (chapter_json_name (node_name folder_path) (node_name c)) \<or>
             out_m (chapter_json_name (node_name folder_path) (node_name c)) = Some Truncated_file) \<and>
          (\<not> chapter_written cs run faults (node_name folder_path) c \<and> out (chapter_json_name (node_name folder_path) (node_name c)) = None \<longrightarrow>
             filter (\<lambda>e. entry_name e = node_name c) (chapters idx) = [])) \<and>
       (\<forall>e\<in>set (chapters idx).
          \<exists>c\<in>set (chapter_dirs_of cs folder_path). entry_name e = node_name c) \<and>
       ((\<forall>c\<in>set (chapter_dirs_of cs folder_path).
           \<not> chapter_written cs run faults (node_name folder_path) c \<longrightarrow> out (chapter_json_name (node_name folder_path) (node_name c)) = None) \<longrightarrow>
        total_chapters idx = int (length (chapters idx))))"
    by (rule magi_archive_index)
next
  assume "process_chapter_based_archive_kumiko cs krun faults temps folder_path out = (True, out_k)"
  with assms show "(\<exists>idx. out_k (node_name folder_path @ ''.json'') = Some (Index_file idx) \<and>
       total_chapters idx =
         int (length (filter (kumiko_chapter_written cs krun faults temps (node_name folder_path)) (chapter_dirs_of cs folder_path))) \<and>
       (\<forall>c\<in>set (chapter_dirs_of cs folder_path).
          filter (\<lambda>e. entry_name e = node_name c) (chapters idx) =
            (case load_total_pages out_k (chapter_json_name (node_name folder_path) (node_name c)) of
               Inr n \<Rightarrow>
                 [\<lparr>entry_name = node_name c,
                 entry_json_file = chapter_json_name (node_name folder_path) (node_name c),
                 entry_total_pages = n\<rparr>]
             | Inl e \<Rightarrow> []) \<and>
          (kumiko_chapter_written cs krun faults temps (node_name folder_path) c \<longrightarrow>
             out_k (chapter_json_name (node_name folder_path) (node_name c)) =
               Some (Kumiko_file (kumiko_chapter_document cs krun temps (node_name folder_path) c)) \<and>
             filter (\<lambda>e. entry_name e = node_name c) (chapters idx) =
               [\<lparr>entry_name = node_name c,
                 entry_json_file = chapter_json_name (node_name folder_path) (node_name c),
                 entry_total_pages = k_total_pages (kumiko_chapter_document cs krun temps (node_name folder_path) c)\<rparr>]) \<and>
          (\<not> kumiko_chapter_written cs krun faults temps (node_name folder_path) c \<longrightarrow>
             out_k (chapter_json_name (node_name folder_path) (node_name c)) = out (chapter_json_name (node_name folder_path) (node_name c)) \<and>
             out_k (chapter_json_name (node_name folder_path) (node_name c)) \<noteq> Some Truncated_file) \<and>
          (\<not> kumiko_chapter_written cs krun faults temps (node_name folder_path) c \<and> out (chapter_json_name (node_name folder_path) (node_name c)) = None \<longrightarrow>
             filter (\<lambda>e. entry_name e = node_name c) (chapters idx) = [])) \<and>
       (\<forall>e\<in>set (chapters idx).
          \<exists>c\<in>set (chapter_dirs_of cs folder_path). entry_name e = node_name c) \<and>
       ((\<forall>c\<in>set (chapter_dirs_of cs folder_path).
           \<not> kumiko_chapter_written cs krun faults temps (node_name folder_path) c \<longrightarrow> out (chapter_json_name (node_name folder_path) (node_name c)) = None) \<longrightarrow>
        total_chapters idx = int (length (chapters idx))))"
    by (rule kumiko_archive_index)
qed

theorem C9_archive_index_witness:
  "distinct (map node_name (chapter_dirs_of True
      (Dir ''vol1'' [Dir ''ch2'' [File ''01.jpg'' (Image_file 800 1200)],
                          Dir ''ch1'' [File ''01.jpg'' (Image_file 800 1200),
                                       File ''02.jpg'' (Image_file 800 1200)],
                          Dir ''ch3'' [File ''01.jpg'' (Image_file 800 1200)]]))) \<and>
   (case process_chapter_based_archive True
           (\<lambda>p. if hd p = ''ch3'' then Inl TimeoutExpired
                else Inr (0, Some (Json_file (Page_dict \<lparr>filename = None, page_no = None,
                                     image_size = None, raw_panels = Some []\<rparr>))))
           (\<lambda>p. No_fault) (\<lambda>n. Map.empty)
           (Dir ''vol1'' [Dir ''ch2'' [File ''01.jpg'' (Image_file 800 1200)],
                          Dir ''ch1'' [File ''01.jpg'' (Image_file 800 1200),
                                       File ''02.jpg'' (Image_file 800 1200)],
                          Dir ''ch3'' [File ''01.jpg'' (Image_file 800 1200)]])
           [''vol1_ch2.json'' \<mapsto> Chapter_file \<lparr>reading_direction = ''rtl'', total_pages = 9,
               pages = []\<rparr>] of
      Inr (ok, out') \<Rightarrow>
        ok \<and> out' ''vol1.json'' =
          Some (Index_file \<lparr>archive_name = ''vol1'', total_chapters = 2,
                  chapters = [\<lparr>entry_name = ''ch1'', entry_json_file = ''vol1_ch1.json'',
                               entry_total_pages = 2\<rparr>,
                              \<lparr>entry_name = ''ch2'', entry_json_file = ''vol1_ch2.json'',
                               entry_total_pages = 1\<rparr>],
                  index_reading_direction = ''rtl''\<rparr>) \<and>
        out' ''vol1_ch3.json'' = None
    | Inl e \<Rightarrow> False) \<and>
   (case process_chapter_based_archive_kumiko True
           (\<lambda>p flags. if hd p = ''ch3'' then Inl TimeoutExpired
                else Inr (0, Some (Json_file (Page_list [\<lparr>filename = Some (last p),
                                     page_no = None,
                                     image_size = Some (PInt 800, PInt 1200),
                                     raw_panels = Some [Box [PInt 0, PInt 0, PInt 400, PInt 600]]\<rparr>]))))
           (\<lambda>p. No_fault) (\<lambda>n. Map.empty)
           (Dir ''vol1'' [Dir ''ch2'' [File ''01.jpg'' (Image_file 800 1200)],
                          Dir ''ch1'' [File ''01.jpg'' (Image_file 800 1200),
                                       File ''02.jpg'' (Image_file 800 1200)],
                          Dir ''ch3'' [File ''01.jpg'' (Image_file 800 1200)]])
           [''vol1_ch2.json'' \<mapsto> Chapter_file \<lparr>reading_direction = ''rtl'', total_pages = 9,
               pages = []\<rparr>] of
      (ok, out') \<Rightarrow>
        ok \<and> out' ''vol1.json'' =
          Some (Index_file \<lparr>archive_name = ''vol1'', total_chapters = 2,
                  chapters = [\<lparr>entry_name = ''ch1'', entry_json_file = ''vol1_ch1.json'',
                               entry_total_pages = 2\<rparr>,
                              \<lparr>entry_name = ''ch2'', entry_json_file = ''vol1_ch2.json'',
                               entry_total_pages = 1\<rparr>],
                  index_reading_direction = ''rtl''\<rparr>) \<and>
        out' ''vol1_ch3.json'' = None)"
proof -
  let ?vol = "Dir ''vol1'' [Dir ''ch2'' [File ''01.jpg'' (Image_file 800 1200)],
                          Dir ''ch1'' [File ''01.jpg'' (Image_file 800 1200),
                                       File ''02.jpg'' (Image_file 800 1200)],
                          Dir ''ch3'' [File ''01.jpg'' (Image_file 800 1200)]]"
  let ?run = "\<lambda>p. if hd p = ''ch3'' then Inl TimeoutExpired
                else Inr (0, Some (Json_file (Page_dict \<lparr>filename = None, page_no = None,
                                     image_size = None, raw_panels = Some []\<rparr>)))"
  let ?krun = "\<lambda>p flags. if hd p = ''ch3'' then Inl TimeoutExpired
                else Inr (0, Some (Json_file (Page_list [\<lparr>filename = Some (last p),
                                     page_no = None,
                                     image_size = Some (PInt 800, PInt 1200),
                                     raw_panels = Some [Box [PInt 0, PInt 0, PInt 400, PInt 600]]\<rparr>])))"
  let ?old = "[''vol1_ch2.json'' \<mapsto> Chapter_file \<lparr>reading_direction = ''rtl'', total_pages = 9,
               pages = []\<rparr>]"
  have e: ?thesis by code_simp
  then have d: "distinct (map node_name (chapter_dirs_of True ?vol))" by (rule conjunct1)
  from e obtain out_m where
    m: "process_chapter_based_archive True ?run (\<lambda>p. No_fault) (\<lambda>n. Map.empty) ?vol ?old
          = Inr (True, out_m)"
    by (auto split: sum.splits)
  from e obtain out_k where
    k: "process_chapter_based_archive_kumiko True ?krun (\<lambda>p. No_fault) (\<lambda>n. Map.empty) ?vol
          ?old = (True, out_k)"
    by (auto split: sum.splits prod.splits)
  from C9_archive_index[OF d, where run="?run" and krun="?krun" and faults="\<lambda>p. No_fault"
      and temps="\<lambda>n. Map.empty" and out="?old" and out_m=out_m and out_k=out_k] m k
  show ?thesis by - (rule e)
qed

text \<open>
  C10, as stated: a failed write leaves the previous content of the output path. The file is
  opened with mode \<^verbatim>\<open>'w'\<close> on the output path itself, so a write that fails after the file
  was opened has destroyed the previous document and leaves an incomplete file.
\<close>

theorem C10_counterexample:
  "(case process_with_magi True
           (\<lambda>p. Inr (0, Some (Json_file (Page_dict \<lparr>filename = None, page_no = None,
                                  image_size = None, raw_panels = Some []\<rparr>))))
           (\<lambda>p. Write_fails) Map.empty
           (Dir ''vol'' [File ''01.jpg'' (Image_file 800 1200)])
           [''vol.json'' \<mapsto> Chapter_file \<lparr>reading_direction = ''rtl'', total_pages = 1,
               pages = [\<lparr>page = 1, image_name = ''01.jpg'', panels = []\<rparr>]\<rparr>] of
      Inr (ok, out') \<Rightarrow> \<not> ok \<and> out' ''vol.json'' = Some Truncated_file
    | Inl e \<Rightarrow> False)"
  by code_simp

text \<open>
  C10, amended. The write at the end of \<^verbatim>\<open>combine_jsons_to_final_json\<close> and of
  \<^verbatim>\<open>combine_jsons_to_json\<close>, and the write of the index in both scripts, change no file of the
  output directory but the one at the output path, and the function returns. When it
  returns \<^verbatim>\<open>True\<close> the write met no fault and the complete document is at the output path.
  When it returns \<^verbatim>\<open>False\<close> the output path holds what it held before (nothing was to be
  written, or the file could not be opened) or an incomplete file (the failure came after
  the file was opened, and the previous content is lost).
\<close>

theorem C10_write_outcomes:
  "(\<exists>ok out'. combine_jsons_to_final_json fault temp_json_dir folder_path out json_files output_json = (ok, out') \<and>
      (\<forall>q. q \<noteq> output_json \<longrightarrow> out' q = out q) \<and>
      (ok \<longrightarrow> fault = No_fault \<and>
         out' output_json =
           Some (Chapter_file
             \<lparr>reading_direction = ''rtl'',
              total_pages = int (length (filter (\<lambda>j. temp_json_dir j \<noteq> None) json_files)),
              pages =
                map (\<lambda>(page_num, json_file).
                       magi_page temp_json_dir folder_path page_num json_file)
                  (enumerate1 (sort (filter (\<lambda>j. temp_json_dir j \<noteq> None) json_files)))\<rparr>)) \<and>
      (\<not> ok \<longrightarrow>
         out' (output_json) = out (output_json) \<or>
         (fault = Write_fails \<and> out' (output_json) = Some Truncated_file))) \<and>
   (\<exists>ok out'. combine_jsons_to_json fault dir out json_files output_json = (ok, out') \<and>
      (\<forall>q. q \<noteq> output_json \<longrightarrow> out' q = out q) \<and>
      (ok \<longrightarrow> fault = No_fault \<and>
         out' output_json =
           Some (Kumiko_file
             \<lparr>k_reading_direction = ''rtl'',
              k_total_pages = int (length (kumiko_pages_data dir json_files)),
              k_pages = sort_key k_page (kumiko_pages_data dir json_files)\<rparr>)) \<and>
      (\<not> ok \<longrightarrow>
         out' (output_json) = out (output_json) \<or>
         (fault = Write_fails \<and> out' (output_json) = Some Truncated_file))) \<and>
   (chapter_dirs_of cs folder_path \<noteq> [] \<and>
    magi_chapter_loop cs run faults temps (node_name folder_path)
      (chapter_dirs_of cs folder_path) 0 out = Inr (n, out1) \<and> n \<noteq> 0 \<longrightarrow>
    (\<exists>ok out'. process_chapter_based_archive cs run faults temps folder_path out = Inr (ok, out') \<and>
      (\<forall>q. q \<noteq> node_name folder_path @ ''.json'' \<longrightarrow> out' q = out1 q) \<and>
      (ok \<longrightarrow> faults (node_name folder_path @ ''.json'') = No_fault \<and>
         out' (node_name folder_path @ ''.json'') =
           Some (Index_file
             \<lparr>archive_name = node_name folder_path,
              total_chapters = n,
              chapters =
                concat (map (index_entry (node_name folder_path) out1)
                          (chapter_dirs_of cs folder_path)),
              index_reading_direction = ''rtl''\<rparr>)) \<and>
      (\<not> ok \<longrightarrow>
         out' (node_name folder_path @ ''.json'') = out1 (node_name folder_path @ ''.json'') \<or>
         (faults (node_name folder_path @ ''.json'') = Write_fails \<and> out' (node_name folder_path @ ''.json'') = Some Truncated_file)))) \<and>
   (chapter_dirs_of cs folder_path \<noteq> [] \<and>
    kumiko_chapter_loop cs krun faults temps (node_name folder_path)
      (chapter_dirs_of cs folder_path) 0 out = (m, out2) \<and> m \<noteq> 0 \<longrightarrow>
    (\<exists>ok out'. process_chapter_based_archive_kumiko cs krun faults temps folder_path out = (ok, out') \<and>
      (\<forall>q. q \<noteq> node_name folder_path @ ''.json'' \<longrightarrow> out' q = out2 q) \<and>
      (ok \<longrightarrow> faults (node_name folder_path @ ''.json'') = No_fault \<and>
         (\<exists>chapters_data.
            kumiko_index_entries (node_name folder_path) out2
              (chapter_dirs_of cs folder_path) = Inr chapters_data \<and>
            out' (node_name folder_path @ ''.json'') =
              Some (Index_file
                \<lparr>archive_name = node_name folder_path,
                 total_chapters = m,
                 chapters = chapters_data,
                 index_reading_direction = ''rtl''\<rparr>))) \<and>
      (\<not> ok \<longrightarrow>
         out' (node_name folder_path @ ''.json'') = out2 (node_name folder_path @ ''.json'') \<or>
         (faults (node_name folder_path @ ''.json'') = Write_fails \<and> out' (node_name folder_path @ ''.json'') = Some Truncated_file))))"
proof (intro conjI impI)
  let ?ex = "filter (\<lambda>j. temp_json_dir j \<noteq> None) json_files"
  show "(\<exists>ok out'. combine_jsons_to_final_json fault temp_json_dir folder_path out json_files output_json = (ok, out') \<and>
      (\<forall>q. q \<noteq> output_json \<longrightarrow> out' q = out q) \<and>
      (ok \<longrightarrow> fault = No_fault \<and>
         out' output_json =
           Some (Chapter_file
             \<lparr>reading_direction = ''rtl'',
              total_pages = int (length (filter (\<lambda>j. temp_json_dir j \<noteq> None) json_files)),
              pages =
                map (\<lambda>(page_num, json_file).
                       magi_page temp_json_dir folder_path page_num json_file)
                  (enumerate1 (sort (filter (\<lambda>j. temp_json_dir j \<noteq> None) json_files)))\<rparr>)) \<and>
      (\<not> ok \<longrightarrow>
         out' (output_json) = out (output_json) \<or>
         (fault = Write_fails \<and> out' (output_json) = Some Truncated_file)))"
  proof (cases "?ex = []")
    case True
    then show ?thesis by (auto simp: combine_jsons_to_final_json_def Let_def)
  next
    case False
    then have s: "sort ?ex \<noteq> []" by (metis length_sort length_0_conv)
    show ?thesis
      using False s
      by (cases fault) (auto simp: combine_jsons_to_final_json_def write_json_def Let_def)
  qed
  show "(\<exists>ok out'. combine_jsons_to_json fault dir out json_files output_json = (ok, out') \<and>
      (\<forall>q. q \<noteq> output_json \<longrightarrow> out' q = out q) \<and>
      (ok \<longrightarrow> fault = No_fault \<and>
         out' output_json =
           Some (Kumiko_file
             \<lparr>k_reading_direction = ''rtl'',
              k_total_pages = int (length (kumiko_pages_data dir json_files)),
              k_pages = sort_key k_page (kumiko_pages_data dir json_files)\<rparr>)) \<and>
      (\<not> ok \<longrightarrow>
         out' (output_json) = out (output_json) \<or>
         (fault = Write_fails \<and> out' (output_json) = Some Truncated_file)))"
  proof (cases "kumiko_pages_data dir json_files = []")
    case True
    then show ?thesis by (auto simp: combine_jsons_to_json_def Let_def)
  next
    case False
    then show ?thesis
      by (cases fault) (auto simp: combine_jsons_to_json_def write_json_def Let_def)
  qed
next
  assume h: "chapter_dirs_of cs folder_path \<noteq> [] \<and>
    magi_chapter_loop cs run faults temps (node_name folder_path)
      (chapter_dirs_of cs folder_path) 0 out = Inr (n, out1) \<and> n \<noteq> 0"
  then show "(\<exists>ok out'. process_chapter_based_archive cs run faults temps folder_path out = Inr (ok, out') \<and>
      (\<forall>q. q \<noteq> node_name folder_path @ ''.json'' \<longrightarrow> out' q = out1 q) \<and>
      (ok \<longrightarrow> faults (node_name folder_path @ ''.json'') = No_fault \<and>
         out' (node_name folder_path @ ''.json'') =
           Some (Index_file
             \<lparr>archive_name = node_name folder_path,
              total_chapters = n,
              chapters =
                concat (map (index_entry (node_name folder_path) out1)
                          (chapter_dirs_of cs folder_path)),
              index_reading_direction = ''rtl''\<rparr>)) \<and>
      (\<not> ok \<longrightarrow>
         out' (node_name folder_path @ ''.json'') = out1 (node_name folder_path @ ''.json'') \<or>
         (faults (node_name folder_path @ ''.json'') = Write_fails \<and> out' (node_name folder_path @ ''.json'') = Some Truncated_file)))"
    by (cases "faults (node_name folder_path @ ''.json'')")
       (auto simp: process_chapter_based_archive_def Let_def write_json_def)
next
  assume h: "chapter_dirs_of cs folder_path \<noteq> [] \<and>
    kumiko_chapter_loop cs krun faults temps (node_name folder_path)
      (chapter_dirs_of cs folder_path) 0 out = (m, out2) \<and> m \<noteq> 0"
  show "(\<exists>ok out'. process_chapter_based_archive_kumiko cs krun faults temps folder_path out = (ok, out') \<and>
      (\<forall>q. q \<noteq> node_name folder_path @ ''.json'' \<longrightarrow> out' q = out2 q) \<and>
      (ok \<longrightarrow> faults (node_name folder_path @ ''.json'') = No_fault \<and>
         (\<exists>chapters_data.
            kumiko_index_entries (node_name folder_path) out2
              (chapter_dirs_of cs folder_path) = Inr chapters_data \<and>
            out' (node_name folder_path @ ''.json'') =
              Some (Index_file
                \<lparr>archive_name = node_name folder_path,
                 total_chapters = m,
                 chapters = chapters_data,
                 index_reading_direction = ''rtl''\<rparr>))) \<and>
      (\<not> ok \<longrightarrow>
         out' (node_name folder_path @ ''.json'') = out2 (node_name folder_path @ ''.json'') \<or>
         (faults (node_name folder_path @ ''.json'') = Write_fails \<and> out' (node_name folder_path @ ''.json'') = Some Truncated_file)))"
  proof (cases "kumiko_index_entries (node_name folder_path) out2 (chapter_dirs_of cs folder_path)")
    case (Inl e)
    then show ?thesis
      using h by (auto simp: process_chapter_based_archive_kumiko_def Let_def)
  next
    case (Inr es)
    then show ?thesis
      using h
      by (cases "faults (node_name folder_path @ ''.json'')")
         (auto simp: process_chapter_based_archive_kumiko_def Let_def write_json_def)
  qed
qed

theorem C10_write_outcomes_witness:
  "(case combine_jsons_to_final_json Open_fails
           [''01_panels.json'' \<mapsto> Json_file (Page_dict \<lparr>filename = None, page_no = None, image_size = None, raw_panels = Some []\<rparr>)]
           (Dir ''vol'' [File ''01.jpg'' (Image_file 800 1200)])
           [''vol.json'' \<mapsto> Chapter_file \<lparr>reading_direction = ''rtl'', total_pages = 0,
        pages = []\<rparr>]
           [''01_panels.json''] ''vol.json'' of
      (ok, out') \<Rightarrow>
        \<not> ok \<and> out' ''vol.json'' =
          Some (Chapter_file \<lparr>reading_direction = ''rtl'', total_pages = 0, pages = []\<rparr>)) \<and>
   (case combine_jsons_to_final_json No_fault
           [''01_panels.json'' \<mapsto> Json_file (Page_dict \<lparr>filename = None, page_no = None, image_size = None, raw_panels = Some []\<rparr>)]
           (Dir ''vol'' [File ''01.jpg'' (Image_file 800 1200)])
           [''vol.json'' \<mapsto> Chapter_file \<lparr>reading_direction = ''rtl'', total_pages = 0,
        pages = []\<rparr>]
           [''01_panels.json''] ''vol.json'' of
      (ok, out') \<Rightarrow>
        ok \<and> out' ''vol.json'' =
          Some (Chapter_file \<lparr>reading_direction = ''rtl'', total_pages = 1,
                  pages = [\<lparr>page = 1, image_name = ''01.jpg'', panels = []\<rparr>]\<rparr>)) \<and>
   (case combine_jsons_to_json Open_fails
           [''01.json'' \<mapsto> Json_file (Page_list [\<lparr>filename = Some ''01.jpg'', page_no = None,
        image_size = Some (PInt 800, PInt 1200),
        raw_panels = Some [Box [PInt 0, PInt 0, PInt 400, PInt 600]]\<rparr>])]
           Map.empty [''01.json''] ''vol.json'' of
      (ok, out') \<Rightarrow> \<not> ok \<and> out' ''vol.json'' = None) \<and>
   chapter_dirs_of True
     (Dir ''vol1'' [Dir ''ch1'' [File ''01.jpg'' (Image_file 800 1200)],
                   Dir ''ch2'' [File ''01.jpg'' (Image_file 800 1200)]]) \<noteq> [] \<and>
   (case magi_chapter_loop True
           (\<lambda>p. Inr (0, Some (Json_file (Page_dict \<lparr>filename = None, page_no = None, image_size = None, raw_panels = Some []\<rparr>))))
           (\<lambda>p. No_fault) (\<lambda>n. Map.empty) ''vol1''
           (chapter_dirs_of True
              (Dir ''vol1'' [Dir ''ch1'' [File ''01.jpg'' (Image_file 800 1200)],
                   Dir ''ch2'' [File ''01.jpg'' (Image_file 800 1200)]])) 0 Map.empty of
      Inr (n, out1) \<Rightarrow> n = 2 \<and> out1 ''vol1.json'' = None
    | Inl e \<Rightarrow> False) \<and>
   (case process_chapter_based_archive True
           (\<lambda>p. Inr (0, Some (Json_file (Page_dict \<lparr>filename = None, page_no = None, image_size = None, raw_panels = Some []\<rparr>))))
           (\<lambda>p. No_fault) (\<lambda>n. Map.empty)
           (Dir ''vol1'' [Dir ''ch1'' [File ''01.jpg'' (Image_file 800 1200)],
                   Dir ''ch2'' [File ''01.jpg'' (Image_file 800 1200)]])
           Map.empty of
      Inr (ok, out') \<Rightarrow>
        ok \<and> out' ''vol1.json'' =
          Some (Index_file \<lparr>archive_name = ''vol1'', total_chapters = 2,
                  chapters = [\<lparr>entry_name = ''ch1'', entry_json_file = ''vol1_ch1.json'',
                               entry_total_pages = 1\<rparr>,
                              \<lparr>entry_name = ''ch2'', entry_json_file = ''vol1_ch2.json'',
                               entry_total_pages = 1\<rparr>],
                  index_reading_direction = ''rtl''\<rparr>)
    | Inl e \<Rightarrow> False) \<and>
   (case kumiko_chapter_loop True
           (\<lambda>p flags. Inr (0, Some (Json_file (Page_list [\<lparr>filename = Some (last p),
          page_no = None, image_size = Some (PInt 800, PInt 1200),
          raw_panels = Some [Box [PInt 0, PInt 0, PInt 400, PInt 600]]\<rparr>]))))
           (\<lambda>p. No_fault) (\<lambda>n. Map.empty) ''vol1''
           (chapter_dirs_of True
              (Dir ''vol1'' [Dir ''ch1'' [File ''01.jpg'' (Image_file 800 1200)],
                   Dir ''ch2'' [File ''01.jpg'' (Image_file 800 1200)]])) 0 Map.empty of
      (m, out2) \<Rightarrow> m = 2 \<and> out2 ''vol1.json'' = None) \<and>
   (case process_chapter_based_archive_kumiko True
           (\<lambda>p flags. Inr (0, Some (Json_file (Page_list [\<lparr>filename = Some (last p),
          page_no = None, image_size = Some (PInt 800, PInt 1200),
          raw_panels = Some [Box [PInt 0, PInt 0, PInt 400, PInt 600]]\<rparr>]))))
           (\<lambda>p. No_fault) (\<lambda>n. Map.empty)
           (Dir ''vol1'' [Dir ''ch1'' [File ''01.jpg'' (Image_file 800 1200)],
                   Dir ''ch2'' [File ''01.jpg'' (Image_file 800 1200)]])
           Map.empty of
      (ok, out') \<Rightarrow>
        ok \<and> out' ''vol1.json'' =
          Some (Index_file \<lparr>archive_name = ''vol1'', total_chapters = 2,
                  chapters = [\<lparr>entry_name = ''ch1'', entry_json_file = ''vol1_ch1.json'',
                               entry_total_pages = 1\<rparr>,
                              \<lparr>entry_name = ''ch2'', entry_json_file = ''vol1_ch2.json'',
                               entry_total_pages = 1\<rparr>],
                  index_reading_direction = ''rtl''\<rparr>))"
proof -
  let ?vol1 = "Dir ''vol1'' [Dir ''ch1'' [File ''01.jpg'' (Image_file 800 1200)],
                   Dir ''ch2'' [File ''01.jpg'' (Image_file 800 1200)]]"
  let ?run = "\<lambda>p. Inr (0, Some (Json_file (Page_dict \<lparr>filename = None, page_no = None, image_size = None, raw_panels = Some []\<rparr>)))"
  let ?krun = "\<lambda>p flags. Inr (0, Some (Json_file (Page_list [\<lparr>filename = Some (last p),
          page_no = None, image_size = Some (PInt 800, PInt 1200),
          raw_panels = Some [Box [PInt 0, PInt 0, PInt 400, PInt 600]]\<rparr>])))"
  have e: ?thesis by code_simp
  then have ne: "chapter_dirs_of True ?vol1 \<noteq> []" by blast
  from e obtain n out1 where
    m: "magi_chapter_loop True ?run (\<lambda>p. No_fault) (\<lambda>n. Map.empty) ''vol1''
          (chapter_dirs_of True ?vol1) 0 Map.empty = Inr (n, out1)" and n: "n \<noteq> 0"
    by (auto split: sum.splits prod.splits)
  from e obtain m out2 where
    k: "kumiko_chapter_loop True ?krun (\<lambda>p. No_fault) (\<lambda>n. Map.empty) ''vol1''
          (chapter_dirs_of True ?vol1) 0 Map.empty = (m, out2)" and m0: "m \<noteq> 0"
    by (auto split: sum.splits prod.splits)
  from C10_write_outcomes[where fault=Open_fails
      and temp_json_dir="[''01_panels.json'' \<mapsto> Json_file (Page_dict \<lparr>filename = None, page_no = None, image_size = None, raw_panels = Some []\<rparr>)]"
      and folder_path="?vol1" and out=Map.empty and json_files="[''01_panels.json'']"
      and output_json="''vol.json''"
      and dir="[''01.json'' \<mapsto> Json_file (Page_list [\<lparr>filename = Some ''01.jpg'', page_no = None,
        image_size = Some (PInt 800, PInt 1200),
        raw_panels = Some [Box [PInt 0, PInt 0, PInt 400, PInt 600]]\<rparr>])]"
      and cs=True and run="?run" and krun="?krun" and faults="\<lambda>p. No_fault"
      and temps="\<lambda>n. Map.empty" and n=n and ?out1.0=out1 and m=m and ?out2.0=out2]
    ne m n k m0
  show ?thesis by - (rule e)
qed

end
